(* ===== verification/Via_Prelude.thy ===== *)
theory Via_Prelude
  imports Main "HOL-Library.Word" "HOL-Library.AList"
begin

text \<open>
  Prelude of the Via development.  It fixes the vocabulary the component theories share:
  machine integers and byte strings as the Rust code has them, the outcome of a fallible
  computation (a value, an error, or a panic), stateful fallible computations with the loops
  the code writes over them, big-endian integer encodings, UTF-8 validity as checked by
  \<^verbatim>\<open>std::str::from_utf8\<close>, and the generic lemmas and rule collections that carry the
  component proofs.
\<close>

section \<open>Machine types\<close>

type_synonym u8 = "8 word"
type_synonym u16 = "16 word"
type_synonym u32 = "32 word"
type_synonym i64 = "64 word"
type_synonym u64 = "64 word"
type_synonym bytes = "u8 list"
type_synonym h256 = bytes

named_theorems io_run \<open>evaluation of the stateful computations\<close>
named_theorems io_ok \<open>inversion of a computation that returned a value\<close>
named_theorems io_pres_intro \<open>introduction rules for invariants of computations\<close>

section \<open>Outcomes\<close>

text \<open>
  \<open>Ok\<close> and \<open>Err\<close> are the two constructors of Rust's \<^verbatim>\<open>Result\<close>; \<open>Panic\<close> is an
  unwinding panic (a failed \<^verbatim>\<open>unwrap\<close>, a slice of the wrong length, a \<^verbatim>\<open>panic!\<close>),
  which no caller in the modelled code catches.  A Rust \<^verbatim>\<open>Option\<close> that is propagated with
  \<^verbatim>\<open>?\<close> is an outcome whose error carries no data.
\<close>

datatype ('e, 'a) res =
    is_Ok: Ok (ok_val: 'a)
  | is_Err: Err (err_val: 'e)
  | is_Panic: Panic

fun res_bind :: "('e, 'a) res \<Rightarrow> ('a \<Rightarrow> ('e, 'b) res) \<Rightarrow> ('e, 'b) res" where
  "res_bind (Ok a) f = f a"
| "res_bind (Err e) f = Err e"
| "res_bind Panic f = Panic"

lemma res_bind_Ok_iff:
  "res_bind m f = Ok b \<longleftrightarrow> (\<exists>a. m = Ok a \<and> f a = Ok b)"
  by (cases m) auto

lemma res_bind_assoc: "res_bind (res_bind m f) g = res_bind m (\<lambda>a. res_bind (f a) g)"
  by (cases m) auto

definition res_of_option :: "'e \<Rightarrow> 'a option \<Rightarrow> ('e, 'a) res" where
  "res_of_option e x = (case x of None \<Rightarrow> Err e | Some a \<Rightarrow> Ok a)"

lemma res_of_option_simps [simp]:
  "res_of_option e None = Err e"
  "res_of_option e (Some a) = Ok a"
  by (simp_all add: res_of_option_def)

lemma res_of_option_Ok_iff [simp]: "res_of_option e x = Ok a \<longleftrightarrow> x = Some a"
  by (cases x) auto

definition unwrap :: "'a option \<Rightarrow> ('e, 'a) res" where
  "unwrap x = (case x of None \<Rightarrow> Panic | Some a \<Rightarrow> Ok a)"

lemma unwrap_simps [simp]:
  "unwrap None = Panic"
  "unwrap (Some a) = Ok a"
  by (simp_all add: unwrap_def)

lemma unwrap_Ok_iff [simp]: "unwrap x = Ok a \<longleftrightarrow> x = Some a"
  by (cases x) auto

fun res_map_err :: "('e \<Rightarrow> 'f) \<Rightarrow> ('e, 'a) res \<Rightarrow> ('f, 'a) res" where
  "res_map_err h (Ok a) = Ok a"
| "res_map_err h (Err e) = Err (h e)"
| "res_map_err h Panic = Panic"

lemma res_map_err_Ok_iff [simp]: "res_map_err h m = Ok a \<longleftrightarrow> m = Ok a"
  by (cases m) auto

text \<open>\<^verbatim>\<open>iter().map(f).collect::<Result<Vec<_>, _>>()\<close>: stops at the first failure.\<close>

fun res_map :: "('a \<Rightarrow> ('e, 'b) res) \<Rightarrow> 'a list \<Rightarrow> ('e, 'b list) res" where
  "res_map f [] = Ok []"
| "res_map f (x # xs) = res_bind (f x) (\<lambda>y. res_bind (res_map f xs) (\<lambda>ys. Ok (y # ys)))"

lemma res_map_Ok_length: "res_map f xs = Ok ys \<Longrightarrow> length ys = length xs"
  by (induction xs arbitrary: ys) (auto simp: res_bind_Ok_iff)

lemma res_map_Ok_all:
  "(\<And>x. x \<in> set xs \<Longrightarrow> f x = Ok (g x)) \<Longrightarrow> res_map f xs = Ok (map g xs)"
  by (induction xs) auto

lemma res_map_Ok_iff:
  "res_map f xs = Ok ys \<longleftrightarrow> list_all2 (\<lambda>x y. f x = Ok y) xs ys"
proof (induction xs arbitrary: ys)
  case Nil
  then show ?case by auto
next
  case (Cons x xs)
  then show ?case by (cases ys) (auto simp: res_bind_Ok_iff)
qed

section \<open>Stateful computations\<close>

text \<open>
  A computation over a state \<open>'s\<close> returns an outcome and the state it leaves behind, whatever
  the outcome: Rust does not roll \<^verbatim>\<open>&mut self\<close> back when a method returns an error.
\<close>

type_synonym ('s, 'e, 'a) io = "'s \<Rightarrow> ('e, 'a) res \<times> 's"

definition io_return :: "'a \<Rightarrow> ('s, 'e, 'a) io" where
  "io_return a s = (Ok a, s)"

definition io_err :: "'e \<Rightarrow> ('s, 'e, 'a) io" where
  "io_err e s = (Err e, s)"

definition io_panic :: "('s, 'e, 'a) io" where
  "io_panic s = (Panic, s)"

definition io_bind :: "('s, 'e, 'a) io \<Rightarrow> ('a \<Rightarrow> ('s, 'e, 'b) io) \<Rightarrow> ('s, 'e, 'b) io" where
  "io_bind m f s = (case m s of
      (Ok a, s') \<Rightarrow> f a s'
    | (Err e, s') \<Rightarrow> (Err e, s')
    | (Panic, s') \<Rightarrow> (Panic, s'))"

definition io_get :: "('s \<Rightarrow> 'a) \<Rightarrow> ('s, 'e, 'a) io" where
  "io_get f s = (Ok (f s), s)"

definition io_modify :: "('s \<Rightarrow> 's) \<Rightarrow> ('s, 'e, unit) io" where
  "io_modify f s = (Ok (), f s)"

definition io_lift :: "('e, 'a) res \<Rightarrow> ('s, 'e, 'a) io" where
  "io_lift r s = (r, s)"

definition io_map_err :: "('e \<Rightarrow> 'f) \<Rightarrow> ('s, 'e, 'a) io \<Rightarrow> ('s, 'f, 'a) io" where
  "io_map_err h m s = (case m s of (r, s') \<Rightarrow> (res_map_err h r, s'))"

text \<open>An \<^verbatim>\<open>Option\<close>-returning call whose \<^verbatim>\<open>None\<close> is inspected, not propagated.\<close>

definition io_try :: "('s, 'e, 'a) io \<Rightarrow> ('s, 'f, 'a option) io" where
  "io_try m s = (case m s of
      (Ok a, s') \<Rightarrow> (Ok (Some a), s')
    | (Err e, s') \<Rightarrow> (Ok None, s')
    | (Panic, s') \<Rightarrow> (Panic, s'))"

text \<open>Run a computation on one component of a larger state.\<close>

definition io_zoom :: "('s \<Rightarrow> 't) \<Rightarrow> ('t \<Rightarrow> 's \<Rightarrow> 's) \<Rightarrow> ('t, 'e, 'a) io \<Rightarrow> ('s, 'e, 'a) io" where
  "io_zoom g p m s = (case m (g s) of (r, t) \<Rightarrow> (r, p t s))"

lemmas io_defs = io_return_def io_err_def io_panic_def io_get_def io_modify_def io_lift_def

lemma io_simps [simp, io_run]:
  "io_return a s = (Ok a, s)"
  "io_err e s = (Err e, s)"
  "io_panic s = (Panic, s)"
  "io_get g s = (Ok (g s), s)"
  "io_modify h s = (Ok (), h s)"
  "io_lift r s = (r, s)"
  by (simp_all add: io_defs)

lemma io_bind_run [io_run]:
  "m s = (Ok a, s') \<Longrightarrow> io_bind m f s = f a s'"
  "m s = (Err e, s') \<Longrightarrow> io_bind m f s = (Err e, s')"
  "m s = (Panic, s') \<Longrightarrow> io_bind m f s = (Panic, s')"
  by (simp_all add: io_bind_def)

lemma io_bind_laws [simp]:
  "io_bind (io_return a) f = f a"
  "io_bind (io_err e) f = io_err e"
  "io_bind io_panic f = io_panic"
  "io_bind (io_get g) f s = f (g s) s"
  "io_bind (io_modify h) f' s = f' () (h s)"
  "io_bind (io_lift (Ok a)) f = f a"
  "io_bind (io_lift (Err e)) f = io_err e"
  "io_bind (io_lift Panic) f = io_panic"
  by (rule ext | simp add: io_bind_def io_defs)+

text \<open>The simplifier reads \<open>io_return a\<close> and its kin as \<open>Pair (Ok a)\<close>; the laws in that form.\<close>

lemma io_bind_Pair [simp, io_run]:
  "io_bind (Pair (Ok a)) f = f a"
  "io_bind (Pair (Err e)) f = Pair (Err e)"
  "io_bind (Pair Panic) f = Pair Panic"
  by (rule ext, simp add: io_bind_def)+

lemma io_bind_return_right [simp]:
  "io_bind m io_return = m"
  "io_bind m (\<lambda>a. Pair (Ok a)) = m"
  by (rule ext, simp add: io_bind_def io_return_def split: prod.splits res.splits)+

lemma io_bind_assoc: "io_bind (io_bind m f) g = io_bind m (\<lambda>a. io_bind (f a) g)"
  by (rule ext) (simp add: io_bind_def split: prod.splits res.splits)

lemma io_bind_Ok_iff [io_ok]:
  "io_bind m f s = (Ok b, s'') \<longleftrightarrow> (\<exists>a s'. m s = (Ok a, s') \<and> f a s' = (Ok b, s''))"
  by (auto simp: io_bind_def split: prod.splits res.splits)

lemma io_bind_cong_Ok:
  "m s = m' s \<Longrightarrow> (\<And>a s'. m s = (Ok a, s') \<Longrightarrow> f a s' = f' a s') \<Longrightarrow> io_bind m f s = io_bind m' f' s"
  by (auto simp: io_bind_def split: prod.splits res.splits)

lemma io_map_err_Ok_iff [io_ok]: "io_map_err h m s = (Ok a, s') \<longleftrightarrow> m s = (Ok a, s')"
  by (auto simp: io_map_err_def split: prod.splits)

lemma io_try_Ok_iff [io_ok]:
  "io_try m s = (Ok x, s') \<longleftrightarrow>
     (case x of Some a \<Rightarrow> m s = (Ok a, s') | None \<Rightarrow> (\<exists>e. m s = (Err e, s')))"
  by (auto simp: io_try_def split: prod.splits res.splits option.splits)

lemma io_zoom_Ok_iff [io_ok]:
  "io_zoom g p m s = (Ok a, s') \<longleftrightarrow> (\<exists>t. m (g s) = (Ok a, t) \<and> s' = p t s)"
  by (auto simp: io_zoom_def split: prod.splits)

subsection \<open>Loops\<close>

fun io_for :: "'b list \<Rightarrow> ('b \<Rightarrow> ('s, 'e, unit) io) \<Rightarrow> ('s, 'e, unit) io" where
  "io_for [] f = io_return ()"
| "io_for (x # xs) f = io_bind (f x) (\<lambda>_. io_for xs f)"

fun io_map :: "('b \<Rightarrow> ('s, 'e, 'a) io) \<Rightarrow> 'b list \<Rightarrow> ('s, 'e, 'a list) io" where
  "io_map f [] = io_return []"
| "io_map f (x # xs) = io_bind (f x) (\<lambda>y. io_bind (io_map f xs) (\<lambda>ys. io_return (y # ys)))"

text \<open>\<^verbatim>\<open>iter().filter_map(|x| self.f(x)).collect()\<close>.\<close>

fun io_filter_map :: "('b \<Rightarrow> ('s, 'e, 'a) io) \<Rightarrow> 'b list \<Rightarrow> ('s, 'f, 'a list) io" where
  "io_filter_map f [] = io_return []"
| "io_filter_map f (x # xs) =
     io_bind (io_try (f x)) (\<lambda>y. io_bind (io_filter_map f xs) (\<lambda>ys.
       io_return (case y of None \<Rightarrow> ys | Some v \<Rightarrow> v # ys)))"

lemma io_for_append: "io_for (xs @ ys) f = io_bind (io_for xs f) (\<lambda>_. io_for ys f)"
  by (induction xs) (simp_all add: io_bind_assoc)

lemma io_map_Ok_length: "io_map f xs s = (Ok ys, s') \<Longrightarrow> length ys = length xs"
  by (induction xs arbitrary: ys s) (auto simp: io_ok)

lemma io_filter_map_length:
  "io_filter_map f xs s = (Ok ys, s') \<Longrightarrow> length ys \<le> length xs"
  by (induction xs arbitrary: ys s) (fastforce simp: io_ok split: option.splits)+

subsection \<open>Invariants of computations\<close>

definition io_pres :: "('s \<Rightarrow> bool) \<Rightarrow> ('s, 'e, 'a) io \<Rightarrow> bool" where
  "io_pres I m \<longleftrightarrow> (\<forall>s. I s \<longrightarrow> I (snd (m s)))"

lemma io_presI: "(\<And>s. I s \<Longrightarrow> I (snd (m s))) \<Longrightarrow> io_pres I m"
  by (simp add: io_pres_def)

lemma io_presD: "io_pres I m \<Longrightarrow> I s \<Longrightarrow> m s = (r, s') \<Longrightarrow> I s'"
  by (metis io_pres_def snd_conv)

lemma io_pres_basic [io_pres_intro]:
  "io_pres I (io_return a)"
  "io_pres I (io_err e)"
  "io_pres I io_panic"
  "io_pres I (io_get g)"
  "io_pres I (io_lift r)"
  "io_pres I (Pair r)"
  by (simp_all add: io_pres_def)

lemma io_pres_modify [io_pres_intro]: "(\<And>s. I s \<Longrightarrow> I (h s)) \<Longrightarrow> io_pres I (io_modify h)"
  by (simp add: io_pres_def)

lemma io_pres_bind [io_pres_intro]:
  "io_pres I m \<Longrightarrow> (\<And>a. io_pres I (f a)) \<Longrightarrow> io_pres I (io_bind m f)"
  unfolding io_pres_def io_bind_def
  by (fastforce split: prod.splits res.splits)

lemma io_pres_map_err [io_pres_intro]: "io_pres I m \<Longrightarrow> io_pres I (io_map_err h m)"
  unfolding io_pres_def io_map_err_def by (fastforce split: prod.splits)

lemma io_pres_try [io_pres_intro]: "io_pres I m \<Longrightarrow> io_pres I (io_try m)"
  unfolding io_pres_def io_try_def by (fastforce split: prod.splits res.splits)

lemma io_pres_for [io_pres_intro]:
  "(\<And>x. x \<in> set xs \<Longrightarrow> io_pres I (f x)) \<Longrightarrow> io_pres I (io_for xs f)"
  by (induction xs) (auto intro!: io_pres_intro)

lemma io_pres_map [io_pres_intro]:
  "(\<And>x. x \<in> set xs \<Longrightarrow> io_pres I (f x)) \<Longrightarrow> io_pres I (io_map f xs)"
  by (induction xs) (auto intro!: io_pres_intro)

lemma io_pres_filter_map [io_pres_intro]:
  "(\<And>x. x \<in> set xs \<Longrightarrow> io_pres I (f x)) \<Longrightarrow> io_pres I (io_filter_map f xs)"
  by (induction xs) (auto intro!: io_pres_intro)

lemma io_pres_if [io_pres_intro]:
  "(c \<Longrightarrow> io_pres I m) \<Longrightarrow> (\<not> c \<Longrightarrow> io_pres I m') \<Longrightarrow> io_pres I (if c then m else m')"
  by simp

lemma io_pres_option [io_pres_intro]:
  "(x = None \<Longrightarrow> io_pres I m) \<Longrightarrow> (\<And>a. x = Some a \<Longrightarrow> io_pres I (f a)) \<Longrightarrow>
     io_pres I (case x of None \<Rightarrow> m | Some a \<Rightarrow> f a)"
  by (cases x) auto

subsection \<open>Specifications of computations\<close>

text \<open>
  \<open>io_spec v P m Q E\<close>: started in a state whose view \<open>v\<close> satisfies \<open>P\<close>, the computation \<open>m\<close>
  either returns a value that satisfies \<open>Q\<close> with the view it leaves, or fails and leaves a view
  that satisfies \<open>E\<close>.
\<close>

definition io_spec ::
    "('s \<Rightarrow> 't) \<Rightarrow> ('t \<Rightarrow> bool) \<Rightarrow> ('s, 'e, 'a) io \<Rightarrow> ('a \<Rightarrow> 't \<Rightarrow> bool) \<Rightarrow> ('t \<Rightarrow> bool) \<Rightarrow> bool" where
  "io_spec v P m Q E \<longleftrightarrow> (\<forall>s. P (v s) \<longrightarrow> (case m s of
       (Ok a, s') \<Rightarrow> Q a (v s')
     | (Err e, s') \<Rightarrow> E (v s')
     | (Panic, s') \<Rightarrow> E (v s')))"

named_theorems io_spec_intro \<open>rules for specifications of computations\<close>

lemma io_specI:
  assumes "\<And>s r s'. P (v s) \<Longrightarrow> m s = (r, s') \<Longrightarrow>
      (case r of Ok a \<Rightarrow> Q a (v s') | Err e \<Rightarrow> E (v s') | Panic \<Rightarrow> E (v s'))"
  shows "io_spec v P m Q E"
  unfolding io_spec_def
proof (intro allI impI)
  fix s
  assume "P (v s)"
  then show "case m s of (Ok a, s') \<Rightarrow> Q a (v s') | (Err e, s') \<Rightarrow> E (v s') | (Panic, s') \<Rightarrow> E (v s')"
    using assms [of s] by (cases "m s"; cases "fst (m s)") auto
qed

lemma io_specD:
  "io_spec v P m Q E \<Longrightarrow> P (v s) \<Longrightarrow> m s = (r, s') \<Longrightarrow>
     (case r of Ok a \<Rightarrow> Q a (v s') | Err e \<Rightarrow> E (v s') | Panic \<Rightarrow> E (v s'))"
  unfolding io_spec_def by (force split: res.splits)

lemma io_spec_Ok: "io_spec v P m Q E \<Longrightarrow> P (v s) \<Longrightarrow> m s = (Ok a, s') \<Longrightarrow> Q a (v s')"
  by (auto dest: io_specD)

lemma io_spec_final:
  assumes "io_spec v P m (\<lambda>_. Q) Q" "P (v s)"
  shows "Q (v (snd (m s)))"
  using io_specD [OF assms] by (cases "m s"; cases "fst (m s)") auto

lemma io_spec_return [io_spec_intro]: "(\<And>t. P t \<Longrightarrow> Q a t) \<Longrightarrow> io_spec v P (io_return a) Q E"
  by (simp add: io_spec_def)

lemma io_spec_Pair [io_spec_intro]: "(\<And>t. P t \<Longrightarrow> Q a t) \<Longrightarrow> io_spec v P (Pair (Ok a)) Q E"
  by (simp add: io_spec_def)

lemma io_spec_lift [io_spec_intro]:
  "(\<And>a t. r = Ok a \<Longrightarrow> P t \<Longrightarrow> Q a t) \<Longrightarrow> (\<And>t. P t \<Longrightarrow> E t) \<Longrightarrow> io_spec v P (io_lift r) Q E"
  by (cases r) (simp_all add: io_spec_def)

lemma io_spec_err [io_spec_intro]: "(\<And>t. P t \<Longrightarrow> E t) \<Longrightarrow> io_spec v P (io_err e) Q E"
  by (simp add: io_spec_def)

lemma io_spec_bind [io_spec_intro]:
  assumes "io_spec v P m R E" "\<And>a. io_spec v (R a) (f a) Q E"
  shows "io_spec v P (io_bind m f) Q E"
proof (rule io_specI)
  fix s r s'
  assume P: "P (v s)" and run: "io_bind m f s = (r, s')"
  obtain x s1 where m: "m s = (x, s1)" by (cases "m s")
  show "case r of Ok a \<Rightarrow> Q a (v s') | Err e \<Rightarrow> E (v s') | Panic \<Rightarrow> E (v s')"
    using io_specD [OF assms(1) P m] run m
    by (cases x) (auto simp: io_bind_def dest: io_specD [OF assms(2)])
qed

lemma io_spec_if [io_spec_intro]:
  "(c \<Longrightarrow> io_spec v P m Q E) \<Longrightarrow> (\<not> c \<Longrightarrow> io_spec v P m' Q E) \<Longrightarrow>
     io_spec v P (if c then m else m') Q E"
  by simp

lemma io_spec_option [io_spec_intro]:
  "(x = None \<Longrightarrow> io_spec v P m Q E) \<Longrightarrow> (\<And>a. x = Some a \<Longrightarrow> io_spec v P (f a) Q E) \<Longrightarrow>
     io_spec v P (case x of None \<Rightarrow> m | Some a \<Rightarrow> f a) Q E"
  by (cases x) auto

lemma io_spec_weaken:
  "io_spec v P' m Q' E' \<Longrightarrow> (\<And>t. P t \<Longrightarrow> P' t) \<Longrightarrow> (\<And>a t. Q' a t \<Longrightarrow> Q a t) \<Longrightarrow>
     (\<And>t. E' t \<Longrightarrow> E t) \<Longrightarrow> io_spec v P m Q E"
  unfolding io_spec_def by (fastforce split: prod.splits res.splits)

lemma io_spec_for:
  assumes "\<And>x. x \<in> set xs \<Longrightarrow> io_spec v J (f x) (\<lambda>_. J) E" "\<And>t. J t \<Longrightarrow> Q () t"
  shows "io_spec v J (io_for xs f) Q E"
  using assms(1)
proof (induction xs)
  case Nil
  then show ?case using assms(2) by (simp add: io_spec_def)
next
  case (Cons x xs)
  have "io_spec v J (f x) (\<lambda>_. J) E" using Cons.prems by simp
  moreover have "io_spec v J (io_for xs f) Q E" using Cons by simp
  ultimately show ?case unfolding io_for.simps by (rule io_spec_bind)
qed

text \<open>A computation that leaves the view alone.\<close>

lemma io_spec_silent:
  assumes "\<And>s. v (snd (m s)) = v s" "\<And>t. P t \<Longrightarrow> E t"
  shows "io_spec v P m (\<lambda>_. P) E"
proof (rule io_specI)
  fix s r s'
  assume "P (v s)" "m s = (r, s')"
  then show "case r of Ok a \<Rightarrow> P (v s') | Err e \<Rightarrow> E (v s') | Panic \<Rightarrow> E (v s')"
    using assms(1) [of s] assms(2) by (cases r) auto
qed

lemma io_spec_at:
  "(\<And>t0. P t0 \<Longrightarrow> io_spec v (\<lambda>t. t = t0) m Q E) \<Longrightarrow> io_spec v P m Q E"
  by (simp add: io_spec_def)

lemma io_spec_conj:
  "io_spec v P m Q E \<Longrightarrow> io_spec v P' m Q' E' \<Longrightarrow>
     io_spec v (\<lambda>t. P t \<and> P' t) m (\<lambda>a t. Q a t \<and> Q' a t) (\<lambda>t. E t \<and> E' t)"
  unfolding io_spec_def by (fastforce split: prod.splits res.splits)

lemma io_pres_spec: "io_pres (\<lambda>s. I (v s)) m \<longleftrightarrow> io_spec v I m (\<lambda>_. I) I"
proof -
  have "(case m s of (Ok a, s') \<Rightarrow> I (v s') | (Err e, s') \<Rightarrow> I (v s') | (Panic, s') \<Rightarrow> I (v s'))
      = I (v (snd (m s)))" for s
    by (cases "m s"; cases "fst (m s)") auto
  then show ?thesis by (simp add: io_pres_def io_spec_def)
qed

section \<open>Big-endian integers\<close>

text \<open>\<^verbatim>\<open>to_be_bytes\<close> and \<^verbatim>\<open>from_be_bytes\<close> of the unsigned integers, on \<open>k\<close> bytes.\<close>

fun be_bytes :: "nat \<Rightarrow> nat \<Rightarrow> bytes" where
  "be_bytes 0 n = []"
| "be_bytes (Suc k) n = be_bytes k (n div 256) @ [of_nat n]"

definition be_nat :: "bytes \<Rightarrow> nat" where
  "be_nat bs = foldl (\<lambda>a b. a * 256 + unat b) 0 bs"

lemma length_be_bytes [simp]: "length (be_bytes k n) = k"
  by (induction k arbitrary: n) simp_all

lemma unat_of_nat_u8: "unat (of_nat n :: u8) = n mod 256"
  by (simp add: unat_of_nat)

lemma be_nat_be_bytes: "n < 256 ^ k \<Longrightarrow> be_nat (be_bytes k n) = n"
proof (induction k arbitrary: n)
  case 0
  then show ?case by (simp add: be_nat_def)
next
  case (Suc k)
  then have "n div 256 < 256 ^ k" by (simp add: less_mult_imp_div_less mult.commute)
  with Suc.IH have "be_nat (be_bytes k (n div 256)) = n div 256" by blast
  then show ?case by (simp add: be_nat_def unat_of_nat_u8)
qed

definition u32_to_be_bytes :: "u32 \<Rightarrow> bytes" where
  "u32_to_be_bytes w = be_bytes 4 (unat w)"

text \<open>\<^verbatim>\<open>u32::from_be_bytes(slice.try_into().ok()?)\<close>: the conversion of the slice into a
  four-byte array fails unless the slice has exactly four bytes.\<close>

definition u32_from_be_slice :: "bytes \<Rightarrow> u32 option" where
  "u32_from_be_slice bs = (if length bs = 4 then Some (of_nat (be_nat bs)) else None)"

lemma u32_from_to_be_bytes [simp]: "u32_from_be_slice (u32_to_be_bytes w) = Some w"
proof -
  have "unat w < 2 ^ 32" using unsigned_less[of w, where 'a = nat] by simp
  then have "unat w < 256 ^ 4" by simp
  then show ?thesis
    by (simp add: u32_from_be_slice_def u32_to_be_bytes_def be_nat_be_bytes)
qed

definition u64_to_be_bytes :: "u64 \<Rightarrow> bytes" where
  "u64_to_be_bytes w = be_bytes 8 (unat w)"

lemma be_nat_u64_to_be_bytes [simp]: "be_nat (u64_to_be_bytes w) = unat w"
proof -
  have "unat w < 2 ^ 64" using unsigned_less[of w, where 'a = nat] by simp
  then have "unat w < 256 ^ 8" by simp
  then show ?thesis by (simp add: u64_to_be_bytes_def be_nat_be_bytes)
qed

lemma length_to_be_bytes [simp]:
  "length (u32_to_be_bytes w) = 4"
  "length (u64_to_be_bytes v) = 8"
  by (simp_all add: u32_to_be_bytes_def u64_to_be_bytes_def)

section \<open>Strings\<close>

text \<open>
  A Rust \<^verbatim>\<open>String\<close> is a byte vector that is valid UTF-8.  The well-formed byte sequences are
  those of the Unicode standard, the ones \<^verbatim>\<open>std::str::from_utf8\<close> accepts.
\<close>

definition utf8_cont :: "u8 \<Rightarrow> bool" where
  "utf8_cont b \<longleftrightarrow> 0x80 \<le> b \<and> b \<le> 0xBF"

definition utf8_lead3 :: "u8 \<Rightarrow> u8 \<Rightarrow> bool" where
  "utf8_lead3 b0 b1 \<longleftrightarrow>
     (b0 = 0xE0 \<and> 0xA0 \<le> b1 \<and> b1 \<le> 0xBF)
   \<or> (0xE1 \<le> b0 \<and> b0 \<le> 0xEC \<and> utf8_cont b1)
   \<or> (b0 = 0xED \<and> 0x80 \<le> b1 \<and> b1 \<le> 0x9F)
   \<or> (0xEE \<le> b0 \<and> b0 \<le> 0xEF \<and> utf8_cont b1)"

definition utf8_lead4 :: "u8 \<Rightarrow> u8 \<Rightarrow> bool" where
  "utf8_lead4 b0 b1 \<longleftrightarrow>
     (b0 = 0xF0 \<and> 0x90 \<le> b1 \<and> b1 \<le> 0xBF)
   \<or> (0xF1 \<le> b0 \<and> b0 \<le> 0xF3 \<and> utf8_cont b1)
   \<or> (b0 = 0xF4 \<and> 0x80 \<le> b1 \<and> b1 \<le> 0x8F)"

fun utf8_valid :: "bytes \<Rightarrow> bool" where
  "utf8_valid [] = True"
| "utf8_valid (b0 # bs) =
     (if b0 < 0x80 then utf8_valid bs
      else (case bs of
          [] \<Rightarrow> False
        | b1 # bs1 \<Rightarrow>
            if 0xC2 \<le> b0 \<and> b0 \<le> 0xDF then utf8_cont b1 \<and> utf8_valid bs1
            else (case bs1 of
                [] \<Rightarrow> False
              | b2 # bs2 \<Rightarrow>
                  if utf8_lead3 b0 b1 then utf8_cont b2 \<and> utf8_valid bs2
                  else (case bs2 of
                      [] \<Rightarrow> False
                    | b3 # bs3 \<Rightarrow>
                        utf8_lead4 b0 b1 \<and> utf8_cont b2 \<and> utf8_cont b3 \<and> utf8_valid bs3))))"

definition from_utf8 :: "bytes \<Rightarrow> bytes option" where
  "from_utf8 bs = (if utf8_valid bs then Some bs else None)"

lemma from_utf8_valid [simp]: "utf8_valid bs \<Longrightarrow> from_utf8 bs = Some bs"
  by (simp add: from_utf8_def)

lemma utf8_valid_ascii: "list_all (\<lambda>b. b < 0x80) bs \<Longrightarrow> utf8_valid bs"
  by (induction bs) auto

text \<open>A byte string literal of the source.\<close>

definition ascii :: "string \<Rightarrow> bytes" where
  "ascii s = map of_char s"

lemma length_ascii [simp]: "length (ascii s) = length s"
  by (simp add: ascii_def)

section \<open>Lists\<close>

text \<open>\<^verbatim>\<open>slice.get(i)\<close>.\<close>

definition get_at :: "'a list \<Rightarrow> nat \<Rightarrow> 'a option" where
  "get_at xs i = (if i < length xs then Some (xs ! i) else None)"

lemma get_at_simps [simp]:
  "get_at (x # xs) 0 = Some x"
  "get_at (x # xs) (Suc i) = get_at xs i"
  "get_at [] i = None"
  by (simp_all add: get_at_def)

lemma get_at_numeral [simp]: "get_at (x # xs) (numeral k) = get_at xs (pred_numeral k)"
  by (simp add: numeral_eq_Suc)

lemma get_at_append_right [simp]: "get_at (xs @ ys) (length xs + i) = get_at ys i"
  by (simp add: get_at_def nth_append)

fun list_filter_map :: "('a \<Rightarrow> 'b option) \<Rightarrow> 'a list \<Rightarrow> 'b list" where
  "list_filter_map f [] = []"
| "list_filter_map f (x # xs) =
     (case f x of None \<Rightarrow> list_filter_map f xs | Some y \<Rightarrow> y # list_filter_map f xs)"

lemma list_filter_map_all:
  "(\<And>x. x \<in> set xs \<Longrightarrow> f x = Some (g x)) \<Longrightarrow> list_filter_map f xs = map g xs"
  by (induction xs) auto

lemma list_filter_map_map: "list_filter_map f (map g xs) = list_filter_map (\<lambda>x. f (g x)) xs"
  by (induction xs) (simp_all split: option.split)

text \<open>\<^verbatim>\<open>iter().position(p)\<close>.\<close>

fun position :: "('a \<Rightarrow> bool) \<Rightarrow> 'a list \<Rightarrow> nat option" where
  "position p [] = None"
| "position p (x # xs) = (if p x then Some 0 else map_option Suc (position p xs))"

lemma position_Some_iff:
  "position p xs = Some i \<longleftrightarrow> i < length xs \<and> p (xs ! i) \<and> (\<forall>j < i. \<not> p (xs ! j))"
proof (induction xs arbitrary: i)
  case Nil
  then show ?case by simp
next
  case (Cons x xs)
  then show ?case
    by (cases i) (auto simp: less_Suc_eq_0_disj)
qed

lemma position_None_iff: "position p xs = None \<longleftrightarrow> (\<forall>x \<in> set xs. \<not> p x)"
  by (induction xs) auto

text \<open>Rewriting the elements of a list that satisfy a condition, as an SQL \<^verbatim>\<open>UPDATE\<close> does.\<close>

definition update_where :: "('a \<Rightarrow> bool) \<Rightarrow> ('a \<Rightarrow> 'a) \<Rightarrow> 'a list \<Rightarrow> 'a list" where
  "update_where p g xs = map (\<lambda>x. if p x then g x else x) xs"

lemma update_where_field:
  "(\<And>x. f (g x) = f x) \<Longrightarrow> map f (update_where p g xs) = map f xs"
  by (simp add: update_where_def)

lemma update_where_none: "(\<And>x. x \<in> set xs \<Longrightarrow> \<not> p x) \<Longrightarrow> update_where p g xs = xs"
  by (simp add: update_where_def map_idI)

lemma length_update_where [simp]: "length (update_where p g xs) = length xs"
  by (simp add: update_where_def)

lemma set_update_where: "set (update_where p g xs) = g ` {x \<in> set xs. p x} \<union> {x \<in> set xs. \<not> p x}"
  by (auto simp: update_where_def)

end
