(* ===== verification/Btc_Types.thy ===== *)
theory Btc_Types
  imports Via_Prelude
begin

text \<open>
  The data model of the Bitcoin client library (\<^verbatim>\<open>core/lib/via_btc_client/src/types.rs\<close>):
  the inscription messages with and without the fields common to every inscription, the
  inscriber's pending-inscription queue, the error types, and the names of the message types on
  the wire.  Values of \<^verbatim>\<open>rust-bitcoin\<close> that the code only passes around (addresses, keys,
  signatures, control blocks) are opaque handles; the functions of that library which the code
  calls are the fields of the record \<open>btc_lib\<close>, a parameter of every definition that uses them.
\<close>

section \<open>Values of the Bitcoin library\<close>

text \<open>An address handle has room for the payload of every kind of address.\<close>

datatype network = Bitcoin | Testnet | Signet | Regtest

datatype address = Address "512 word"
datatype public_key = PublicKey nat
datatype taproot_signature = TaprootSignature nat
datatype control_block = ControlBlock nat
datatype taproot_spend_info = TaprootSpendInfo nat
datatype ecdsa_signature = EcdsaSignature nat
datatype schnorr_signature = SchnorrSignature nat

type_synonym txid = bytes
type_synonym evm_address = bytes
type_synonym script = bytes
type_synonym amount = u64

record out_point =
  op_txid :: txid
  op_vout :: u32

record tx_out =
  txo_value :: amount
  script_pubkey :: script

record tx_in =
  previous_output :: out_point
  script_sig :: script
  sequence_no :: u32
  witness :: "bytes list"

record transaction =
  tx_version :: nat
  lock_time :: u32
  tx_input :: "tx_in list"
  tx_output :: "tx_out list"

text \<open>What \<^verbatim>\<open>ScriptBuf::instructions\<close> yields, and what a script builder is given.\<close>

datatype instruction = PushBytes bytes | Op u8

datatype script_item = PushSlice bytes | PushOpcode u8

fun push_bytes :: "instruction \<Rightarrow> bytes option" where
  "push_bytes (PushBytes b) = Some b"
| "push_bytes (Op c) = None"

section \<open>Functions of the Bitcoin library\<close>

text \<open>
  An option-valued field is a fallible call of the library (\<open>None\<close> its error).  The fields
  \<open>h256_from_slice\<close>, \<open>h160_from_slice\<close> and \<open>amount_add\<close> (the operator \<^verbatim>\<open>+\<close> on
  amounts) return \<open>None\<close> where the library panics.
\<close>

record btc_lib =
  script_instructions :: "script \<Rightarrow> instruction list"
  into_script :: "script_item list \<Rightarrow> script"
  push_bytes_buf :: "bytes \<Rightarrow> bytes option"
  address_parse :: "bytes \<Rightarrow> address option"
  address_to_string :: "address \<Rightarrow> bytes"
  address_is_valid_for :: "address \<Rightarrow> network \<Rightarrow> bool"
  address_script_pubkey :: "address \<Rightarrow> script"
  public_key_from_slice :: "bytes \<Rightarrow> public_key option"
  is_compressed :: "public_key \<Rightarrow> bool"
  address_p2wpkh :: "public_key \<Rightarrow> network \<Rightarrow> address"
  is_p2wpkh_script :: "script \<Rightarrow> bool"
  taproot_signature_from_slice :: "bytes \<Rightarrow> taproot_signature option"
  control_block_decode :: "bytes \<Rightarrow> control_block option"
  control_block_serialize :: "control_block \<Rightarrow> bytes"
  internal_key_bytes :: "control_block \<Rightarrow> bytes"
  xonly_from_slice :: "bytes \<Rightarrow> bytes option"
  h256_from_slice :: "bytes \<Rightarrow> h256 option"
  h160_from_slice :: "bytes \<Rightarrow> evm_address option"
  txid_from_slice :: "bytes \<Rightarrow> txid option"
  compute_txid :: "transaction \<Rightarrow> txid"
  compute_ntxid :: "transaction \<Rightarrow> txid"
  raw_hex :: "transaction \<Rightarrow> bytes"
  taproot_finalize :: "script \<Rightarrow> bytes \<Rightarrow> taproot_spend_info option"
  address_p2tr_tweaked :: "taproot_spend_info \<Rightarrow> network \<Rightarrow> address"
  taproot_control_block :: "taproot_spend_info \<Rightarrow> script \<Rightarrow> control_block option"
  amount_add :: "amount \<Rightarrow> amount \<Rightarrow> amount option"
  amount_checked_sub :: "amount \<Rightarrow> amount \<Rightarrow> amount option"
  p2wpkh_signature_hash :: "transaction \<Rightarrow> nat \<Rightarrow> script \<Rightarrow> amount \<Rightarrow> bytes option"
  taproot_script_spend_signature_hash ::
    "transaction \<Rightarrow> nat \<Rightarrow> tx_out list \<Rightarrow> script \<Rightarrow> bytes option"
  witness_p2wpkh :: "ecdsa_signature \<Rightarrow> public_key \<Rightarrow> bytes list"
  taproot_signature_all :: "schnorr_signature \<Rightarrow> taproot_signature"
  taproot_signature_to_vec :: "taproot_signature \<Rightarrow> bytes"

text \<open>\<^verbatim>\<open>Address::require_network\<close>: the address itself when it belongs to the network.\<close>

definition require_network :: "btc_lib \<Rightarrow> address \<Rightarrow> network \<Rightarrow> address option" where
  "require_network L a n = (if address_is_valid_for L a n then Some a else None)"

lemma require_network_Some [simp]:
  "require_network L a n = Some b \<longleftrightarrow> b = a \<and> address_is_valid_for L a n"
  by (auto simp: require_network_def)

lemma require_network_valid [simp]:
  "address_is_valid_for L a n \<Longrightarrow> require_network L a n = Some a"
  by simp

text \<open>\<^verbatim>\<open>H256::from_slice\<close> and \<^verbatim>\<open>Address::from_slice\<close>, which panic on a slice of another
  length.\<close>

definition h256_of_slice :: "btc_lib \<Rightarrow> bytes \<Rightarrow> ('e, h256) res" where
  "h256_of_slice L bs = unwrap (h256_from_slice L bs)"

definition h160_of_slice :: "btc_lib \<Rightarrow> bytes \<Rightarrow> ('e, evm_address) res" where
  "h160_of_slice L bs = unwrap (h160_from_slice L bs)"

subsection \<open>Documented behaviour the code relies on\<close>

text \<open>
  A push carries fewer than $2^{32}$ bytes.  A push opcode with data is not written by the builder's \<^verbatim>\<open>push_opcode\<close> in this code base;
  the zero byte (\<^verbatim>\<open>OP_0\<close>, \<^verbatim>\<open>OP_FALSE\<close>) is, and it reads back as a push of the empty
  string.
\<close>

fun item_plain :: "script_item \<Rightarrow> bool" where
  "item_plain (PushSlice b) = (length b < 2 ^ 32)"
| "item_plain (PushOpcode c) = (c = 0 \<or> 0x4E < c)"

fun item_instruction :: "script_item \<Rightarrow> instruction" where
  "item_instruction (PushSlice b) = PushBytes b"
| "item_instruction (PushOpcode c) = (if c = 0 then PushBytes [] else Op c)"

text \<open>Script encoding: a built script reads back as the instructions it was built from.\<close>

definition lib_script_codec :: "btc_lib \<Rightarrow> bool" where
  "lib_script_codec L \<longleftrightarrow>
     (\<forall>items. list_all item_plain items \<longrightarrow>
        script_instructions L (into_script L items) = map item_instruction items)"

text \<open>Data of fewer than $2^{32}$ bytes fits a push buffer.\<close>

definition lib_push_bytes :: "btc_lib \<Rightarrow> bool" where
  "lib_push_bytes L \<longleftrightarrow> (\<forall>bs. length bs < 2 ^ 32 \<longrightarrow> push_bytes_buf L bs = Some bs)"

text \<open>The fixed-size hash types accept exactly the slices of their size.\<close>

definition lib_hash_sizes :: "btc_lib \<Rightarrow> bool" where
  "lib_hash_sizes L \<longleftrightarrow>
     (\<forall>bs. h256_from_slice L bs = (if length bs = 32 then Some bs else None))
   \<and> (\<forall>bs. h160_from_slice L bs = (if length bs = 20 then Some bs else None))
   \<and> (\<forall>bs. txid_from_slice L bs = (if length bs = 32 then Some bs else None))"

text \<open>Address text form: ASCII, bounded, and parsed back to the same address.\<close>

definition lib_address_text :: "btc_lib \<Rightarrow> bool" where
  "lib_address_text L \<longleftrightarrow>
     (\<forall>a. address_parse L (address_to_string L a) = Some a
        \<and> list_all (\<lambda>b. b < 0x80) (address_to_string L a)
        \<and> length (address_to_string L a) < 2 ^ 32)"

text \<open>A control block decodes to itself from its serialization.\<close>

definition lib_control_block :: "btc_lib \<Rightarrow> bool" where
  "lib_control_block L \<longleftrightarrow> (\<forall>cb. control_block_decode L (control_block_serialize L cb) = Some cb)"

text \<open>Amounts are added with an overflow check and subtracted with an underflow check.\<close>

definition lib_amounts :: "btc_lib \<Rightarrow> bool" where
  "lib_amounts L \<longleftrightarrow>
     (\<forall>a b. amount_add L a b = (if unat a + unat b < 2 ^ 64 then Some (a + b) else None))
   \<and> (\<forall>a b. amount_checked_sub L a b = (if b \<le> a then Some (a - b) else None))"

text \<open>A signature with its sighash type decodes to itself from its byte form.\<close>

definition lib_taproot_signature :: "btc_lib \<Rightarrow> bool" where
  "lib_taproot_signature L \<longleftrightarrow>
     (\<forall>s. taproot_signature_from_slice L (taproot_signature_to_vec L s) = Some s)"

text \<open>The witness of a P2WPKH spend is the signature and the key, which reads back.\<close>

definition lib_p2wpkh_witness :: "btc_lib \<Rightarrow> bool" where
  "lib_p2wpkh_witness L \<longleftrightarrow>
     (\<forall>sig pk. \<exists>sig_bytes pk_bytes. witness_p2wpkh L sig pk = [sig_bytes, pk_bytes]
        \<and> public_key_from_slice L pk_bytes = Some pk)"

text \<open>A control block of a spend info carries the internal key the output was tweaked from.\<close>

definition lib_taproot_internal_key :: "btc_lib \<Rightarrow> bool" where
  "lib_taproot_internal_key L \<longleftrightarrow>
     (\<forall>scr key info cb. taproot_finalize L scr key = Some info \<longrightarrow>
        taproot_control_block L info scr = Some cb \<longrightarrow> internal_key_bytes L cb = key)"

section \<open>Inscription messages\<close>

datatype vote = Vote_Ok | Vote_NotOk

record common_fields =
  cf_schnorr_signature :: taproot_signature
  encoded_public_key :: bytes
  cf_block_height :: u32
  cf_tx_id :: txid
  p2wpkh_address :: address

record 'i full_message =
  common :: common_fields
  msg_input :: 'i

record l1_batch_da_reference_input =
  l1_batch_hash :: h256
  l1_batch_index :: u32
  da_identifier :: bytes
  blob_id :: bytes

type_synonym l1_batch_da_reference = "l1_batch_da_reference_input full_message"

record proof_da_reference_input =
  l1_batch_reveal_txid :: txid
  proof_da_identifier :: bytes
  proof_blob_id :: bytes

type_synonym proof_da_reference = "proof_da_reference_input full_message"

record validator_attestation_input =
  reference_txid :: txid
  attestation :: vote

type_synonym validator_attestation = "validator_attestation_input full_message"

record system_bootstrapping_input =
  start_block_height :: u32
  verifier_p2wpkh_addresses :: "address list"
  bridge_p2wpkh_mpc_address :: address
  sb_bootloader_hash :: h256
  sb_abstract_account_hash :: h256

type_synonym system_bootstrapping = "system_bootstrapping_input full_message"

record propose_sequencer_input =
  sequencer_new_p2wpkh_address :: address

type_synonym propose_sequencer = "propose_sequencer_input full_message"

record l1_to_l2_message_input =
  receiver_l2_address :: evm_address
  l2_contract_address :: evm_address
  call_data :: bytes

record l1_to_l2_message = "l1_to_l2_message_input full_message" +
  l1_amount :: amount
  tx_outputs :: "tx_out list"

datatype inscription_message =
    L1BatchDAReference l1_batch_da_reference_input
  | ProofDAReference proof_da_reference_input
  | ValidatorAttestation validator_attestation_input
  | SystemBootstrapping system_bootstrapping_input
  | ProposeSequencer propose_sequencer_input
  | L1ToL2Message l1_to_l2_message_input

datatype full_inscription_message =
    FullL1BatchDAReference l1_batch_da_reference
  | FullProofDAReference proof_da_reference
  | FullValidatorAttestation validator_attestation
  | FullSystemBootstrapping system_bootstrapping
  | FullProposeSequencer propose_sequencer
  | FullL1ToL2Message l1_to_l2_message

text \<open>The message content of a parsed inscription, and who inscribed it.\<close>

fun message_of_full :: "full_inscription_message \<Rightarrow> inscription_message" where
  "message_of_full (FullL1BatchDAReference m) = L1BatchDAReference (msg_input m)"
| "message_of_full (FullProofDAReference m) = ProofDAReference (msg_input m)"
| "message_of_full (FullValidatorAttestation m) = ValidatorAttestation (msg_input m)"
| "message_of_full (FullSystemBootstrapping m) = SystemBootstrapping (msg_input m)"
| "message_of_full (FullProposeSequencer m) = ProposeSequencer (msg_input m)"
| "message_of_full (FullL1ToL2Message m) = L1ToL2Message (msg_input m)"

fun common_of_full :: "full_inscription_message \<Rightarrow> common_fields" where
  "common_of_full (FullL1BatchDAReference m) = common m"
| "common_of_full (FullProofDAReference m) = common m"
| "common_of_full (FullValidatorAttestation m) = common m"
| "common_of_full (FullSystemBootstrapping m) = common m"
| "common_of_full (FullProposeSequencer m) = common m"
| "common_of_full (FullL1ToL2Message m) = common m"

section \<open>Message names on the wire\<close>

definition SYSTEM_BOOTSTRAPPING_MSG :: bytes where
  "SYSTEM_BOOTSTRAPPING_MSG = ascii ''SystemBootstrappingMessage''"

definition PROPOSE_SEQUENCER_MSG :: bytes where
  "PROPOSE_SEQUENCER_MSG = ascii ''ProposeSequencerMessage''"

definition VALIDATOR_ATTESTATION_MSG :: bytes where
  "VALIDATOR_ATTESTATION_MSG = ascii ''ValidatorAttestationMessage''"

definition L1_BATCH_DA_REFERENCE_MSG :: bytes where
  "L1_BATCH_DA_REFERENCE_MSG = ascii ''L1BatchDAReferenceMessage''"

definition PROOF_DA_REFERENCE_MSG :: bytes where
  "PROOF_DA_REFERENCE_MSG = ascii ''ProofDAReferenceMessage''"

definition L1_TO_L2_MSG :: bytes where
  "L1_TO_L2_MSG = ascii ''L1ToL2Message''"

definition VIA_INSCRIPTION_PROTOCOL :: bytes where
  "VIA_INSCRIPTION_PROTOCOL = ascii ''via_inscription_protocol''"

lemmas message_names =
  SYSTEM_BOOTSTRAPPING_MSG_def PROPOSE_SEQUENCER_MSG_def VALIDATOR_ATTESTATION_MSG_def
  L1_BATCH_DA_REFERENCE_MSG_def PROOF_DA_REFERENCE_MSG_def L1_TO_L2_MSG_def

lemma message_name_lengths [simp]:
  "length SYSTEM_BOOTSTRAPPING_MSG = 26"
  "length PROPOSE_SEQUENCER_MSG = 23"
  "length VALIDATOR_ATTESTATION_MSG = 27"
  "length L1_BATCH_DA_REFERENCE_MSG = 25"
  "length PROOF_DA_REFERENCE_MSG = 23"
  "length L1_TO_L2_MSG = 13"
  "length VIA_INSCRIPTION_PROTOCOL = 24"
  by (simp_all add: message_names VIA_INSCRIPTION_PROTOCOL_def)

lemma propose_proof_names_differ: "PROPOSE_SEQUENCER_MSG \<noteq> PROOF_DA_REFERENCE_MSG"
  by (simp add: message_names ascii_def of_char_def)

lemma message_names_distinct:
  "distinct [SYSTEM_BOOTSTRAPPING_MSG, PROPOSE_SEQUENCER_MSG, VALIDATOR_ATTESTATION_MSG,
     L1_BATCH_DA_REFERENCE_MSG, PROOF_DA_REFERENCE_MSG, L1_TO_L2_MSG]"
proof -
  have neq: "xs \<noteq> ys" if "length xs \<noteq> length ys" for xs ys :: bytes
    using that by auto
  show ?thesis
    by (simp add: neq propose_proof_names_differ)
qed

section \<open>The inscriber's queue\<close>

record fee_payer_ctx =
  fee_payer_utxo_txid :: txid
  fee_payer_utxo_vout :: u32
  fee_payer_utxo_value :: amount

record commit_tx_input =
  spent_utxo :: "tx_in list"

record inscriber_output =
  commit_txid :: txid
  commit_raw_tx :: bytes
  commit_tx_fee_rate :: u64
  reveal_txid :: txid
  reveal_raw_tx :: bytes
  reveal_tx_fee_rate :: u64
  is_broadcasted :: bool

record inscription_request =
  ir_message :: inscription_message
  inscriber_out :: inscriber_output
  fee_payer :: fee_payer_ctx
  commit_inputs :: commit_tx_input

record inscriber_context =
  fifo_queue :: "inscription_request list"

definition inscriber_context_new :: inscriber_context where
  "inscriber_context_new = \<lparr>fifo_queue = []\<rparr>"

record inscription_config =
  fee_multiplier :: u64

definition inscription_config_default :: inscription_config where
  "inscription_config_default = \<lparr>fee_multiplier = 1\<rparr>"

record recipient =
  rcpt_address :: address
  rcpt_amount :: amount

section \<open>Errors\<close>

datatype bitcoin_error =
    Rpc string
  | InvalidAddress string
  | InvalidTransaction string
  | SigningError string
  | InscriptionError string
  | IndexingError string
  | TransactionBuildingError string
  | FeeEstimationFailed string
  | InvalidNetwork string
  | InvalidOutpoint out_point
  | InvalidPrivateKey string
  | CompressedPublicKeyError string
  | UncompressedPublicKeyError string
  | OtherError string

datatype indexer_error =
    IncompleteBootstrap string
  | InvalidBlockHeight u32
  | BitcoinClientError bitcoin_error

end
