(* ===== verification/Script_Builder.thy ===== *)
theory Script_Builder
  imports Btc_Types
begin

text \<open>
  Inscription scripts (\<^verbatim>\<open>core/lib/via_btc_client/src/inscriber/script_builder.rs\<close>).  A script
  builder is the list of items pushed so far; \<open>into_script\<close> of the Bitcoin library turns it into
  bytes.  The errors of \<^verbatim>\<open>require_network\<close> and of the taproot builder are the only failures
  of this component.
\<close>

section \<open>Script construction\<close>

type_synonym script_builder = "script_item list"

datatype script_error = NetworkMismatch address | AddLeafFailed

definition OP_CHECKSIG :: u8 where "OP_CHECKSIG = 0xAC"
definition OP_FALSE :: u8 where "OP_FALSE = 0x00"
definition OP_0 :: u8 where "OP_0 = 0x00"
definition OP_IF :: u8 where "OP_IF = 0x63"
definition OP_ENDIF :: u8 where "OP_ENDIF = 0x68"
definition OP_PUSHNUM_1 :: u8 where "OP_PUSHNUM_1 = 0x51"

lemmas opcode_defs = OP_CHECKSIG_def OP_FALSE_def OP_0_def OP_IF_def OP_ENDIF_def OP_PUSHNUM_1_def

definition push_slice :: "script_builder \<Rightarrow> bytes \<Rightarrow> script_builder" where
  "push_slice b d = b @ [PushSlice d]"

definition push_opcode :: "script_builder \<Rightarrow> u8 \<Rightarrow> script_builder" where
  "push_opcode b c = b @ [PushOpcode c]"

text \<open>\<^verbatim>\<open>encoded.extend_from_slice(data).ok()\<close>: data that does not fit leaves the buffer
  empty.\<close>

definition encode_push_bytes :: "btc_lib \<Rightarrow> bytes \<Rightarrow> bytes" where
  "encode_push_bytes L d = (case push_bytes_buf L d of Some e \<Rightarrow> e | None \<Rightarrow> [])"

definition build_basic_inscription_script :: "btc_lib \<Rightarrow> bytes \<Rightarrow> script_builder" where
  "build_basic_inscription_script L encoded_pubkey =
     (let via_prefix_encoded = encode_push_bytes L VIA_INSCRIPTION_PROTOCOL in
      push_slice (push_opcode (push_opcode (push_opcode (push_slice [] encoded_pubkey)
        OP_CHECKSIG) OP_FALSE) OP_IF) via_prefix_encoded)"

definition build_l1_batch_da_reference_script ::
    "btc_lib \<Rightarrow> script_builder \<Rightarrow> l1_batch_da_reference_input \<Rightarrow> script_builder" where
  "build_l1_batch_da_reference_script L basic_script inp =
     (let l1_batch_hash_encoded = encode_push_bytes L (l1_batch_hash inp);
          l1_batch_index_encoded = encode_push_bytes L (u32_to_be_bytes (l1_batch_index inp));
          da_identifier_encoded = encode_push_bytes L (da_identifier inp);
          da_reference_encoded = encode_push_bytes L (blob_id inp)
      in push_slice (push_slice (push_slice (push_slice (push_slice basic_script
           L1_BATCH_DA_REFERENCE_MSG)
           l1_batch_hash_encoded)
           l1_batch_index_encoded)
           da_identifier_encoded)
           da_reference_encoded)"

definition build_proof_da_reference_script ::
    "btc_lib \<Rightarrow> script_builder \<Rightarrow> proof_da_reference_input \<Rightarrow> script_builder" where
  "build_proof_da_reference_script L basic_script inp =
     (let l1_batch_reveal_txid_encoded = encode_push_bytes L (l1_batch_reveal_txid inp);
          da_identifier_encoded = encode_push_bytes L (proof_da_identifier inp);
          da_reference_encoded = encode_push_bytes L (proof_blob_id inp)
      in push_slice (push_slice (push_slice (push_slice basic_script
           PROOF_DA_REFERENCE_MSG)
           l1_batch_reveal_txid_encoded)
           da_identifier_encoded)
           da_reference_encoded)"

definition build_validator_attestation_script ::
    "btc_lib \<Rightarrow> script_builder \<Rightarrow> validator_attestation_input \<Rightarrow> script_builder" where
  "build_validator_attestation_script L basic_script inp =
     (let reference_txid_encoded = encode_push_bytes L (reference_txid inp);
          scr = push_slice (push_slice basic_script VALIDATOR_ATTESTATION_MSG)
                  reference_txid_encoded
      in case attestation inp of
           Vote_Ok \<Rightarrow> push_opcode scr OP_PUSHNUM_1
         | Vote_NotOk \<Rightarrow> push_opcode scr OP_0)"

definition checked_address_text ::
    "btc_lib \<Rightarrow> network \<Rightarrow> address \<Rightarrow> (script_error, bytes) res" where
  "checked_address_text L network a =
     res_bind (res_of_option (NetworkMismatch a) (require_network L a network)) (\<lambda>checked.
       Ok (encode_push_bytes L (address_to_string L checked)))"

definition build_system_bootstrapping_script ::
    "btc_lib \<Rightarrow> script_builder \<Rightarrow> system_bootstrapping_input \<Rightarrow> network \<Rightarrow>
       (script_error, script_builder) res" where
  "build_system_bootstrapping_script L basic_script inp network =
     (let start_block_height_encoded =
            encode_push_bytes L (u32_to_be_bytes (start_block_height inp));
          scr = push_slice (push_slice basic_script SYSTEM_BOOTSTRAPPING_MSG)
                  start_block_height_encoded
      in res_bind (res_map (checked_address_text L network) (verifier_p2wpkh_addresses inp))
           (\<lambda>encoded_verifiers.
         let scr = foldl push_slice scr encoded_verifiers in
         res_bind (checked_address_text L network (bridge_p2wpkh_mpc_address inp))
           (\<lambda>bridge_address_encoded.
         Ok (push_slice (push_slice (push_slice scr bridge_address_encoded)
               (encode_push_bytes L (sb_bootloader_hash inp)))
               (encode_push_bytes L (sb_abstract_account_hash inp))))))"

definition build_propose_sequencer_script ::
    "btc_lib \<Rightarrow> script_builder \<Rightarrow> propose_sequencer_input \<Rightarrow> network \<Rightarrow>
       (script_error, script_builder) res" where
  "build_propose_sequencer_script L basic_script inp network =
     res_bind (checked_address_text L network (sequencer_new_p2wpkh_address inp))
       (\<lambda>address_encoded.
         Ok (push_slice (push_slice basic_script PROPOSE_SEQUENCER_MSG) address_encoded))"

definition build_l1_to_l2_message_script ::
    "btc_lib \<Rightarrow> script_builder \<Rightarrow> l1_to_l2_message_input \<Rightarrow> script_builder" where
  "build_l1_to_l2_message_script L basic_script inp =
     (let receiver_l2_address_encoded = encode_push_bytes L (receiver_l2_address inp);
          l2_contract_address_encoded = encode_push_bytes L (l2_contract_address inp);
          call_data_encoded = encode_push_bytes L (call_data inp)
      in push_slice (push_slice (push_slice (push_slice basic_script
           L1_TO_L2_MSG)
           receiver_l2_address_encoded)
           l2_contract_address_encoded)
           call_data_encoded)"

text \<open>The script of a message up to \<^verbatim>\<open>into_script\<close>.\<close>

definition inscription_items ::
    "btc_lib \<Rightarrow> script_builder \<Rightarrow> inscription_message \<Rightarrow> network \<Rightarrow>
       (script_error, script_builder) res" where
  "inscription_items L basic_script m network =
     res_bind (case m of
         L1BatchDAReference i \<Rightarrow> Ok (build_l1_batch_da_reference_script L basic_script i)
       | ProofDAReference i \<Rightarrow> Ok (build_proof_da_reference_script L basic_script i)
       | ValidatorAttestation i \<Rightarrow> Ok (build_validator_attestation_script L basic_script i)
       | SystemBootstrapping i \<Rightarrow> build_system_bootstrapping_script L basic_script i network
       | ProposeSequencer i \<Rightarrow> build_propose_sequencer_script L basic_script i network
       | L1ToL2Message i \<Rightarrow> Ok (build_l1_to_l2_message_script L basic_script i))
     (\<lambda>final_script_result. Ok (push_opcode final_script_result OP_ENDIF))"

definition complete_inscription ::
    "btc_lib \<Rightarrow> script_builder \<Rightarrow> inscription_message \<Rightarrow> network \<Rightarrow>
       (script_error, script \<times> nat) res" where
  "complete_inscription L basic_script m network =
     res_bind (inscription_items L basic_script m network) (\<lambda>items.
       let final_script = into_script L items in
       Ok (final_script, length final_script))"

definition construct_inscription_commitment_data ::
    "btc_lib \<Rightarrow> script \<Rightarrow> bytes \<Rightarrow> network \<Rightarrow>
       (script_error, script \<times> taproot_spend_info) res" where
  "construct_inscription_commitment_data L inscription_script internal_key network =
     res_bind (res_of_option AddLeafFailed (taproot_finalize L inscription_script internal_key))
       (\<lambda>taproot_spend_info.
         let taproot_address = address_p2tr_tweaked L taproot_spend_info network in
         Ok (address_script_pubkey L taproot_address, taproot_spend_info))"

record inscription_data =
  inscription_script :: script
  script_size :: nat
  id_script_pubkey :: script
  spend_info :: taproot_spend_info

definition inscription_data_new ::
    "btc_lib \<Rightarrow> inscription_message \<Rightarrow> bytes \<Rightarrow> network \<Rightarrow>
       (script_error, inscription_data) res" where
  "inscription_data_new L m internal_key network =
     (let encoded_pubkey = encode_push_bytes L internal_key;
          basic_script = build_basic_inscription_script L encoded_pubkey
      in res_bind (complete_inscription L basic_script m network) (\<lambda>(scr, size).
         res_bind (construct_inscription_commitment_data L scr internal_key network)
           (\<lambda>(spk, info).
         Ok \<lparr>inscription_script = scr, script_size = size, id_script_pubkey = spk,
              spend_info = info\<rparr>)))"

section \<open>Well-formed message contents\<close>

text \<open>
  What the Rust types guarantee of a message's fields: hashes and addresses have their fixed
  sizes, strings are UTF-8, and every field fits a push buffer.
\<close>

definition fits :: "bytes \<Rightarrow> bool" where
  "fits bs \<longleftrightarrow> length bs < 2 ^ 32"

definition wf_string :: "bytes \<Rightarrow> bool" where
  "wf_string s \<longleftrightarrow> utf8_valid s \<and> fits s"

fun wf_message :: "btc_lib \<Rightarrow> network \<Rightarrow> inscription_message \<Rightarrow> bool" where
  "wf_message L n (L1BatchDAReference i) \<longleftrightarrow>
     length (l1_batch_hash i) = 32 \<and> wf_string (da_identifier i) \<and> wf_string (blob_id i)"
| "wf_message L n (ProofDAReference i) \<longleftrightarrow>
     length (l1_batch_reveal_txid i) = 32 \<and> wf_string (proof_da_identifier i)
     \<and> wf_string (proof_blob_id i)"
| "wf_message L n (ValidatorAttestation i) \<longleftrightarrow> length (reference_txid i) = 32"
| "wf_message L n (SystemBootstrapping i) \<longleftrightarrow>
     length (sb_bootloader_hash i) = 32 \<and> length (sb_abstract_account_hash i) = 32
     \<and> address_is_valid_for L (bridge_p2wpkh_mpc_address i) n
     \<and> (\<forall>a \<in> set (verifier_p2wpkh_addresses i). address_is_valid_for L a n)"
| "wf_message L n (ProposeSequencer i) \<longleftrightarrow>
     address_is_valid_for L (sequencer_new_p2wpkh_address i) n"
| "wf_message L n (L1ToL2Message i) \<longleftrightarrow>
     length (receiver_l2_address i) = 20 \<and> length (l2_contract_address i) = 20
     \<and> fits (call_data i)"

section \<open>Shape of the built scripts\<close>

lemma encode_push_bytes_fits [simp]:
  "lib_push_bytes L \<Longrightarrow> fits d \<Longrightarrow> encode_push_bytes L d = d"
  by (simp add: encode_push_bytes_def lib_push_bytes_def fits_def)

lemma fits_small [simp]:
  "length d = 32 \<Longrightarrow> fits d"
  "length d = 20 \<Longrightarrow> fits d"
  "fits (u32_to_be_bytes w)"
  "fits VIA_INSCRIPTION_PROTOCOL"
  by (simp_all add: fits_def)

lemma wf_stringD [simp]:
  "wf_string s \<Longrightarrow> fits s"
  "wf_string s \<Longrightarrow> utf8_valid s"
  by (simp_all add: wf_string_def)

lemma address_text_fits [simp]: "lib_address_text L \<Longrightarrow> fits (address_to_string L a)"
  by (simp add: lib_address_text_def fits_def)

lemma foldl_push_slice: "foldl push_slice b ds = b @ map PushSlice ds"
  by (induction ds arbitrary: b) (simp_all add: push_slice_def)

definition basic_items :: "bytes \<Rightarrow> script_builder" where
  "basic_items pk =
     [PushSlice pk, PushOpcode OP_CHECKSIG, PushOpcode OP_FALSE, PushOpcode OP_IF,
      PushSlice VIA_INSCRIPTION_PROTOCOL]"

lemma basic_script_items:
  "lib_push_bytes L \<Longrightarrow> build_basic_inscription_script L pk = basic_items pk"
  by (simp add: build_basic_inscription_script_def basic_items_def push_slice_def push_opcode_def)

text \<open>The items a well-formed message adds to the common prefix.\<close>

fun message_items :: "btc_lib \<Rightarrow> inscription_message \<Rightarrow> script_item list" where
  "message_items L (L1BatchDAReference i) =
     [PushSlice L1_BATCH_DA_REFERENCE_MSG, PushSlice (l1_batch_hash i),
      PushSlice (u32_to_be_bytes (l1_batch_index i)), PushSlice (da_identifier i),
      PushSlice (blob_id i)]"
| "message_items L (ProofDAReference i) =
     [PushSlice PROOF_DA_REFERENCE_MSG, PushSlice (l1_batch_reveal_txid i),
      PushSlice (proof_da_identifier i), PushSlice (proof_blob_id i)]"
| "message_items L (ValidatorAttestation i) =
     [PushSlice VALIDATOR_ATTESTATION_MSG, PushSlice (reference_txid i),
      PushOpcode (case attestation i of Vote_Ok \<Rightarrow> OP_PUSHNUM_1 | Vote_NotOk \<Rightarrow> OP_0)]"
| "message_items L (SystemBootstrapping i) =
     [PushSlice SYSTEM_BOOTSTRAPPING_MSG, PushSlice (u32_to_be_bytes (start_block_height i))]
     @ map (\<lambda>a. PushSlice (address_to_string L a)) (verifier_p2wpkh_addresses i)
     @ [PushSlice (address_to_string L (bridge_p2wpkh_mpc_address i)),
        PushSlice (sb_bootloader_hash i), PushSlice (sb_abstract_account_hash i)]"
| "message_items L (ProposeSequencer i) =
     [PushSlice PROPOSE_SEQUENCER_MSG,
      PushSlice (address_to_string L (sequencer_new_p2wpkh_address i))]"
| "message_items L (L1ToL2Message i) =
     [PushSlice L1_TO_L2_MSG, PushSlice (receiver_l2_address i),
      PushSlice (l2_contract_address i), PushSlice (call_data i)]"

lemma checked_address_text_ok:
  assumes "lib_push_bytes L" "lib_address_text L" "address_is_valid_for L a n"
  shows "checked_address_text L n a = Ok (address_to_string L a)"
  using assms by (simp add: checked_address_text_def)

lemma inscription_items_shape:
  assumes "lib_push_bytes L" "lib_address_text L" "wf_message L n m"
  shows "inscription_items L basic m n = Ok (basic @ message_items L m @ [PushOpcode OP_ENDIF])"
proof (cases m)
  case (SystemBootstrapping i)
  have "res_map (checked_address_text L n) (verifier_p2wpkh_addresses i)
      = Ok (map (address_to_string L) (verifier_p2wpkh_addresses i))"
    using assms SystemBootstrapping
    by (intro res_map_Ok_all checked_address_text_ok) auto
  then show ?thesis
    using assms SystemBootstrapping
    by (simp add: inscription_items_def build_system_bootstrapping_script_def Let_def
        checked_address_text_ok foldl_push_slice push_slice_def push_opcode_def)
qed (use assms in \<open>simp_all add: inscription_items_def push_slice_def push_opcode_def Let_def
      build_l1_batch_da_reference_script_def build_proof_da_reference_script_def
      build_validator_attestation_script_def build_propose_sequencer_script_def
      build_l1_to_l2_message_script_def checked_address_text_ok split: vote.split\<close>)

lemma item_plain_fits: "item_plain (PushSlice b) = fits b"
  by (simp add: fits_def)

lemma names_fit [simp]:
  "fits SYSTEM_BOOTSTRAPPING_MSG" "fits PROPOSE_SEQUENCER_MSG" "fits VALIDATOR_ATTESTATION_MSG"
  "fits L1_BATCH_DA_REFERENCE_MSG" "fits PROOF_DA_REFERENCE_MSG" "fits L1_TO_L2_MSG"
  by (simp_all add: fits_def)

lemma message_items_plain:
  "lib_address_text L \<Longrightarrow> wf_message L n m \<Longrightarrow> list_all item_plain (message_items L m)"
  by (cases m) (auto simp: item_plain_fits list_all_iff opcode_defs
      simp del: item_plain.simps(1) split: vote.split)

lemma basic_items_plain: "fits pk \<Longrightarrow> list_all item_plain (basic_items pk)"
  by (simp add: basic_items_def opcode_defs item_plain_fits del: item_plain.simps(1))

lemma endif_plain: "item_plain (PushOpcode OP_ENDIF)"
  by (simp add: opcode_defs)

text \<open>What the library reads back from the script built for a message.\<close>

lemma built_script_instructions:
  assumes "lib_script_codec L" "lib_address_text L" "wf_message L n m" "fits pk"
  shows "script_instructions L
           (into_script L (basic_items pk @ message_items L m @ [PushOpcode OP_ENDIF]))
       = map item_instruction (basic_items pk @ message_items L m @ [PushOpcode OP_ENDIF])"
proof -
  have "list_all item_plain (basic_items pk @ message_items L m @ [PushOpcode OP_ENDIF])"
    using message_items_plain [OF assms(2,3)] basic_items_plain [OF assms(4)] endif_plain
    by simp
  then show ?thesis using assms(1) by (simp add: lib_script_codec_def del: list_all_append)
qed

end
