(* ===== verification/Message_Parser.thy ===== *)
theory Message_Parser
  imports Script_Builder
begin

text \<open>
  Inscription parsing (\<^verbatim>\<open>core/lib/via_btc_client/src/indexer/parser.rs\<close>).  The parser's
  mutable state is the network and the bridge address it last saw in a system bootstrapping
  message.  A parsing function returns \<open>Ok\<close> where the Rust code returns \<^verbatim>\<open>Some\<close>, \<open>Err ()\<close>
  where it returns \<^verbatim>\<open>None\<close>, and \<open>Panic\<close> where a fixed-size conversion panics.
\<close>

section \<open>The parser\<close>

definition MIN_WITNESS_LENGTH :: nat where "MIN_WITNESS_LENGTH = 3"
definition MIN_SYSTEM_BOOTSTRAPPING_INSTRUCTIONS :: nat where
  "MIN_SYSTEM_BOOTSTRAPPING_INSTRUCTIONS = 7"
definition MIN_PROPOSE_SEQUENCER_INSTRUCTIONS :: nat where
  "MIN_PROPOSE_SEQUENCER_INSTRUCTIONS = 3"
definition MIN_VALIDATOR_ATTESTATION_INSTRUCTIONS :: nat where
  "MIN_VALIDATOR_ATTESTATION_INSTRUCTIONS = 4"
definition MIN_L1_BATCH_DA_REFERENCE_INSTRUCTIONS :: nat where
  "MIN_L1_BATCH_DA_REFERENCE_INSTRUCTIONS = 6"
definition MIN_PROOF_DA_REFERENCE_INSTRUCTIONS :: nat where
  "MIN_PROOF_DA_REFERENCE_INSTRUCTIONS = 5"
definition MIN_L1_TO_L2_MESSAGE_INSTRUCTIONS :: nat where
  "MIN_L1_TO_L2_MESSAGE_INSTRUCTIONS = 5"

lemmas min_instructions_defs =
  MIN_WITNESS_LENGTH_def MIN_SYSTEM_BOOTSTRAPPING_INSTRUCTIONS_def
  MIN_PROPOSE_SEQUENCER_INSTRUCTIONS_def MIN_VALIDATOR_ATTESTATION_INSTRUCTIONS_def
  MIN_L1_BATCH_DA_REFERENCE_INSTRUCTIONS_def MIN_PROOF_DA_REFERENCE_INSTRUCTIONS_def
  MIN_L1_TO_L2_MESSAGE_INSTRUCTIONS_def

record message_parser =
  mp_network :: network
  mp_bridge_address :: "address option"

definition message_parser_new :: "network \<Rightarrow> message_parser" where
  "message_parser_new n = \<lparr>mp_network = n, mp_bridge_address = None\<rparr>"

type_synonym 'a parse = "(message_parser, unit, 'a) io"

text \<open>\<^verbatim>\<open>option?\<close> in a function that returns an \<^verbatim>\<open>Option\<close>.\<close>

definition opt :: "'a option \<Rightarrow> 'a parse" where
  "opt x = io_lift (res_of_option () x)"

lemma opt_simps [simp]:
  "opt None = io_err ()"
  "opt (Some a) = io_return a"
  by (rule ext, simp add: opt_def)+

lemma opt_Ok_iff [io_ok]: "opt x p = (Ok a, p') \<longleftrightarrow> x = Some a \<and> p' = p"
  by (cases x) auto

text \<open>\<^verbatim>\<open>instructions.get(i)?.push_bytes()?.as_bytes()\<close>.\<close>

definition nth_push :: "instruction list \<Rightarrow> nat \<Rightarrow> bytes option" where
  "nth_push is i = Option.bind (get_at is i) push_bytes"

text \<open>The address in a pushed UTF-8 string, network unchecked.\<close>

fun parse_address :: "btc_lib \<Rightarrow> instruction \<Rightarrow> address option" where
  "parse_address L (PushBytes b) = Option.bind (from_utf8 b) (address_parse L)"
| "parse_address L (Op c) = None"

definition parse_p2wpkh :: "btc_lib \<Rightarrow> network \<Rightarrow> bytes list \<Rightarrow> address option" where
  "parse_p2wpkh L n w =
     (if length w = 2 then
        Option.bind (public_key_from_slice L (w ! 1)) (\<lambda>public_key.
          if is_compressed L public_key then Some (address_p2wpkh L public_key n) else None)
      else None)"

definition parse_system_bootstrapping ::
    "btc_lib \<Rightarrow> instruction list \<Rightarrow> common_fields \<Rightarrow> full_inscription_message parse" where
  "parse_system_bootstrapping L is cf =
     (if length is < MIN_SYSTEM_BOOTSTRAPPING_INSTRUCTIONS then io_err ()
      else
       io_bind (opt (Option.bind (nth_push is 2) u32_from_be_slice)) (\<lambda>height.
       let verifiers = list_filter_map (parse_address L) (take (length is - 7) (drop 3 is)) in
       io_bind (opt (Option.bind (get_at is (length is - 4)) (parse_address L))) (\<lambda>bridge.
       io_bind (io_get mp_network) (\<lambda>network.
       io_bind (opt (require_network L bridge network)) (\<lambda>checked_bridge.
       io_bind (io_modify (\<lambda>p. p\<lparr>mp_bridge_address := Some checked_bridge\<rparr>)) (\<lambda>_.
       io_bind (opt (nth_push is (length is - 3))) (\<lambda>bootloader_bytes.
       io_bind (io_lift (h256_of_slice L bootloader_bytes)) (\<lambda>bootloader_hash.
       io_bind (opt (nth_push is (length is - 2))) (\<lambda>aa_bytes.
       io_bind (io_lift (h256_of_slice L aa_bytes)) (\<lambda>abstract_account_hash.
       io_return (FullSystemBootstrapping
         \<lparr>common = cf,
          msg_input = \<lparr>start_block_height = height,
            verifier_p2wpkh_addresses = verifiers,
            bridge_p2wpkh_mpc_address = bridge,
            sb_bootloader_hash = bootloader_hash,
            sb_abstract_account_hash = abstract_account_hash\<rparr>\<rparr>)))))))))))"

definition parse_propose_sequencer ::
    "btc_lib \<Rightarrow> instruction list \<Rightarrow> common_fields \<Rightarrow> full_inscription_message parse" where
  "parse_propose_sequencer L is cf =
     (if length is < MIN_PROPOSE_SEQUENCER_INSTRUCTIONS then io_err ()
      else
       io_bind (io_get mp_network) (\<lambda>network.
       io_bind (opt (Option.bind (get_at is 2) (\<lambda>instr.
           Option.bind (parse_address L instr) (\<lambda>a. require_network L a network))))
         (\<lambda>sequencer_address.
       io_return (FullProposeSequencer
         \<lparr>common = cf,
          msg_input = \<lparr>sequencer_new_p2wpkh_address = sequencer_address\<rparr>\<rparr>))))"

text \<open>The vote: a pushed \<^verbatim>\<open>OP_1\<close>/\<^verbatim>\<open>OP_0\<close> string, or the opcode 0x51 or 0x50.\<close>

fun parse_vote :: "instruction \<Rightarrow> vote option" where
  "parse_vote (PushBytes b) =
     (if b = ascii ''OP_1'' then Some Vote_Ok
      else if b = ascii ''OP_0'' then Some Vote_NotOk
      else None)"
| "parse_vote (Op c) =
     (if c = 0x51 then Some Vote_Ok
      else if c = 0x50 then Some Vote_NotOk
      else None)"

definition parse_validator_attestation ::
    "btc_lib \<Rightarrow> instruction list \<Rightarrow> common_fields \<Rightarrow> full_inscription_message parse" where
  "parse_validator_attestation L is cf =
     (if length is < MIN_VALIDATOR_ATTESTATION_INSTRUCTIONS then io_err ()
      else
       io_bind (opt (Option.bind (nth_push is 2) (txid_from_slice L))) (\<lambda>txid.
       io_bind (opt (Option.bind (get_at is 3) parse_vote)) (\<lambda>att.
       io_return (FullValidatorAttestation
         \<lparr>common = cf, msg_input = \<lparr>reference_txid = txid, attestation = att\<rparr>\<rparr>))))"

definition parse_l1_batch_da_reference ::
    "btc_lib \<Rightarrow> instruction list \<Rightarrow> common_fields \<Rightarrow> full_inscription_message parse" where
  "parse_l1_batch_da_reference L is cf =
     (if length is < MIN_L1_BATCH_DA_REFERENCE_INSTRUCTIONS then io_err ()
      else
       io_bind (opt (nth_push is 2)) (\<lambda>hash_bytes.
       io_bind (io_lift (h256_of_slice L hash_bytes)) (\<lambda>hash.
       io_bind (opt (Option.bind (nth_push is 3) u32_from_be_slice)) (\<lambda>index.
       io_bind (opt (Option.bind (nth_push is 4) from_utf8)) (\<lambda>da_id.
       io_bind (opt (Option.bind (nth_push is 5) from_utf8)) (\<lambda>blob.
       io_return (FullL1BatchDAReference
         \<lparr>common = cf,
          msg_input = \<lparr>l1_batch_hash = hash, l1_batch_index = index,
            da_identifier = da_id, blob_id = blob\<rparr>\<rparr>)))))))"

definition parse_proof_da_reference ::
    "btc_lib \<Rightarrow> instruction list \<Rightarrow> common_fields \<Rightarrow> full_inscription_message parse" where
  "parse_proof_da_reference L is cf =
     (if length is < MIN_PROOF_DA_REFERENCE_INSTRUCTIONS then io_err ()
      else
       io_bind (opt (Option.bind (nth_push is 2) (txid_from_slice L))) (\<lambda>txid.
       io_bind (opt (Option.bind (nth_push is 3) from_utf8)) (\<lambda>da_id.
       io_bind (opt (Option.bind (nth_push is 4) from_utf8)) (\<lambda>blob.
       io_return (FullProofDAReference
         \<lparr>common = cf,
          msg_input = \<lparr>l1_batch_reveal_txid = txid, proof_da_identifier = da_id,
            proof_blob_id = blob\<rparr>\<rparr>)))))"

text \<open>The value of the first P2WPKH output that pays the given bridge address.\<close>

definition pays_bridge :: "btc_lib \<Rightarrow> address option \<Rightarrow> tx_out \<Rightarrow> bool" where
  "pays_bridge L bridge output = (case bridge of
       Some a \<Rightarrow> is_p2wpkh_script L (script_pubkey output)
                 \<and> script_pubkey output = address_script_pubkey L a
     | None \<Rightarrow> False)"

definition bridge_amount :: "btc_lib \<Rightarrow> address option \<Rightarrow> tx_out list \<Rightarrow> amount" where
  "bridge_amount L bridge outputs =
     (case find (pays_bridge L bridge) outputs of Some out \<Rightarrow> txo_value out | None \<Rightarrow> 0)"

definition parse_l1_to_l2_message ::
    "btc_lib \<Rightarrow> transaction \<Rightarrow> instruction list \<Rightarrow> common_fields \<Rightarrow>
       full_inscription_message parse" where
  "parse_l1_to_l2_message L tx is cf =
     (if length is < MIN_L1_TO_L2_MESSAGE_INSTRUCTIONS then io_err ()
      else
       io_bind (opt (nth_push is 2)) (\<lambda>receiver_bytes.
       io_bind (io_lift (h160_of_slice L receiver_bytes)) (\<lambda>receiver.
       io_bind (opt (nth_push is 3)) (\<lambda>contract_bytes.
       io_bind (io_lift (h160_of_slice L contract_bytes)) (\<lambda>contract.
       io_bind (opt (nth_push is 4)) (\<lambda>calldata.
       io_bind (io_get mp_bridge_address) (\<lambda>bridge.
       io_return (FullL1ToL2Message
         \<lparr>common = cf,
          msg_input = \<lparr>receiver_l2_address = receiver, l2_contract_address = contract,
            call_data = calldata\<rparr>,
          l1_amount = bridge_amount L bridge (tx_output tx),
          tx_outputs = tx_output tx\<rparr>))))))))"

fun parse_typed_message ::
    "btc_lib \<Rightarrow> transaction \<Rightarrow> instruction list \<Rightarrow> common_fields \<Rightarrow> instruction \<Rightarrow>
       full_inscription_message parse" where
  "parse_typed_message L tx is cf (PushBytes b) =
     (if b = SYSTEM_BOOTSTRAPPING_MSG then parse_system_bootstrapping L is cf
      else if b = PROPOSE_SEQUENCER_MSG then parse_propose_sequencer L is cf
      else if b = VALIDATOR_ATTESTATION_MSG then parse_validator_attestation L is cf
      else if b = L1_BATCH_DA_REFERENCE_MSG then parse_l1_batch_da_reference L is cf
      else if b = PROOF_DA_REFERENCE_MSG then parse_proof_da_reference L is cf
      else if b = L1_TO_L2_MSG then parse_l1_to_l2_message L tx is cf
      else io_err ())"
| "parse_typed_message L tx is cf (Op c) = io_err ()"

definition parse_message ::
    "btc_lib \<Rightarrow> transaction \<Rightarrow> instruction list \<Rightarrow> common_fields \<Rightarrow>
       full_inscription_message parse" where
  "parse_message L tx is cf =
     io_bind (opt (get_at is 1)) (\<lambda>message_type. parse_typed_message L tx is cf message_type)"

fun is_via_prefix :: "instruction \<Rightarrow> bool" where
  "is_via_prefix (PushBytes b) = (b = VIA_INSCRIPTION_PROTOCOL)"
| "is_via_prefix (Op c) = False"

definition find_via_inscription_protocol :: "instruction list \<Rightarrow> nat option" where
  "find_via_inscription_protocol is = position is_via_prefix is"

definition parse_input ::
    "btc_lib \<Rightarrow> tx_in \<Rightarrow> transaction \<Rightarrow> u32 \<Rightarrow> address \<Rightarrow> full_inscription_message parse" where
  "parse_input L inp tx block_height sender =
     (let w = witness inp in
      if length w < MIN_WITNESS_LENGTH then io_err ()
      else
       io_bind (opt (taproot_signature_from_slice L (w ! 0))) (\<lambda>sig.
       io_bind (opt (control_block_decode L (w ! 2))) (\<lambda>cb.
       let is = script_instructions L (w ! 1) in
       io_bind (opt (find_via_inscription_protocol is)) (\<lambda>via_index.
       parse_message L tx (drop via_index is)
         \<lparr>cf_schnorr_signature = sig,
          encoded_public_key = internal_key_bytes L cb,
          cf_block_height = block_height,
          cf_tx_id = compute_ntxid L tx,
          p2wpkh_address = sender\<rparr>))))"

text \<open>The sender: the address of the last input whose witness is a P2WPKH one.\<close>

definition sender_address :: "btc_lib \<Rightarrow> network \<Rightarrow> tx_in list \<Rightarrow> address option" where
  "sender_address L n inputs =
     foldl (\<lambda>acc i. case parse_p2wpkh L n (witness i) of Some a \<Rightarrow> Some a | None \<Rightarrow> acc)
       None inputs"

definition parse_transaction ::
    "btc_lib \<Rightarrow> transaction \<Rightarrow> u32 \<Rightarrow> full_inscription_message list parse" where
  "parse_transaction L tx block_height =
     io_bind (io_get mp_network) (\<lambda>network.
       case sender_address L network (tx_input tx) of
         Some sender \<Rightarrow>
           io_filter_map (\<lambda>i. parse_input L i tx block_height sender) (tx_input tx)
       | None \<Rightarrow> io_return [])"

definition get_eth_address :: "btc_lib \<Rightarrow> common_fields \<Rightarrow> evm_address option" where
  "get_eth_address L cf =
     map_option (take 20) (xonly_from_slice L (encoded_public_key cf))"

section \<open>The parser's state\<close>

text \<open>The network never changes, and a stored bridge address belongs to it.\<close>

definition parser_inv :: "btc_lib \<Rightarrow> network \<Rightarrow> message_parser \<Rightarrow> bool" where
  "parser_inv L n p \<longleftrightarrow>
     mp_network p = n \<and> (\<forall>a. mp_bridge_address p = Some a \<longrightarrow> address_is_valid_for L a n)"

lemma parser_inv_new: "parser_inv L n (message_parser_new n)"
  by (simp add: parser_inv_def message_parser_new_def)

lemma io_pres_opt [io_pres_intro]: "io_pres I (opt x)"
  by (simp add: opt_def io_pres_intro)

lemmas pure_parser_defs =
  parse_propose_sequencer_def parse_validator_attestation_def parse_l1_batch_da_reference_def
  parse_proof_da_reference_def parse_l1_to_l2_message_def

text \<open>Every message but a system bootstrapping one leaves the whole parser as it was.\<close>

lemma pure_parsers_keep:
  "io_pres I (parse_propose_sequencer L is cf)"
  "io_pres I (parse_validator_attestation L is cf)"
  "io_pres I (parse_l1_batch_da_reference L is cf)"
  "io_pres I (parse_proof_da_reference L is cf)"
  "io_pres I (parse_l1_to_l2_message L tx is cf)"
  unfolding pure_parser_defs by (intro io_pres_intro)+

lemma parse_system_bootstrapping_inv: "io_pres (parser_inv L n) (parse_system_bootstrapping L is cf)"
proof (rule io_presI)
  fix p
  assume "parser_inv L n p"
  then show "parser_inv L n (snd (parse_system_bootstrapping L is cf p))"
    unfolding parse_system_bootstrapping_def Let_def opt_def io_bind_def
    by (auto simp: parser_inv_def res_of_option_def require_network_def
        split: option.splits res.splits prod.splits if_splits)
qed

lemma parse_typed_message_inv: "io_pres (parser_inv L n) (parse_typed_message L tx is cf t)"
  by (cases t) (simp_all add: pure_parsers_keep parse_system_bootstrapping_inv io_pres_intro)

lemma parse_input_inv: "io_pres (parser_inv L n) (parse_input L i tx h sender)"
  unfolding parse_input_def parse_message_def Let_def
  by (intro io_pres_intro parse_typed_message_inv)

lemma parse_transaction_inv: "io_pres (parser_inv L n) (parse_transaction L tx h)"
  unfolding parse_transaction_def by (intro io_pres_intro parse_input_inv)

section \<open>The common fields of a parsed message\<close>

lemma parse_typed_message_common:
  "parse_typed_message L tx is cf t p = (Ok m, p') \<Longrightarrow> common_of_full m = cf"
  by (cases t) (auto simp: io_ok parse_system_bootstrapping_def pure_parser_defs Let_def
      split: if_splits)

lemma parse_input_common:
  assumes "parse_input L i tx h sender p = (Ok m, p')"
  shows "cf_block_height (common_of_full m) = h"
    and "cf_tx_id (common_of_full m) = compute_ntxid L tx"
    and "p2wpkh_address (common_of_full m) = sender"
  using assms
  by (auto simp: parse_input_def parse_message_def Let_def io_ok split: if_splits
      dest!: parse_typed_message_common)

lemma io_filter_map_Ok_set:
  "io_filter_map f xs s = (Ok ys, s') \<Longrightarrow> y \<in> set ys \<Longrightarrow> \<exists>x \<in> set xs. \<exists>u v. f x u = (Ok y, v)"
proof (induction xs arbitrary: s ys)
  case (Cons x xs)
  then show ?case by (fastforce simp: io_ok split: option.splits)
qed simp

lemma parse_transaction_common:
  assumes "parse_transaction L tx h p = (Ok ms, p')" and "m \<in> set ms"
  shows "cf_block_height (common_of_full m) = h"
    and "cf_tx_id (common_of_full m) = compute_ntxid L tx"
    and "sender_address L (mp_network p) (tx_input tx) = Some (p2wpkh_address (common_of_full m))"
  using assms
  by (auto simp: parse_transaction_def split: option.splits
      dest!: io_filter_map_Ok_set dest: parse_input_common)

lemma io_filter_map_not_Err: "io_filter_map f xs s \<noteq> (Err e, s')"
proof (induction xs arbitrary: s)
  case (Cons x xs)
  then show ?case
    by (auto simp: io_bind_def io_try_def split: prod.splits res.splits)
qed simp

lemma parse_transaction_not_Err: "parse_transaction L tx h p \<noteq> (Err e, p')"
  by (auto simp: parse_transaction_def io_filter_map_not_Err split: option.splits)

section \<open>Reading back what the script builder writes\<close>

text \<open>The instructions of a built script, from the protocol marker on.\<close>

definition message_instructions :: "btc_lib \<Rightarrow> inscription_message \<Rightarrow> instruction list" where
  "message_instructions L m =
     map item_instruction
       (PushSlice VIA_INSCRIPTION_PROTOCOL # message_items L m @ [PushOpcode OP_ENDIF])"

text \<open>The full message a transaction's inscription denotes, with the amount its outputs pay the
  bridge address the parser knows.\<close>

fun full_of_message ::
    "btc_lib \<Rightarrow> message_parser \<Rightarrow> transaction \<Rightarrow> common_fields \<Rightarrow> inscription_message \<Rightarrow>
       full_inscription_message" where
  "full_of_message L p tx cf (L1BatchDAReference i) =
     FullL1BatchDAReference \<lparr>common = cf, msg_input = i\<rparr>"
| "full_of_message L p tx cf (ProofDAReference i) =
     FullProofDAReference \<lparr>common = cf, msg_input = i\<rparr>"
| "full_of_message L p tx cf (ValidatorAttestation i) =
     FullValidatorAttestation \<lparr>common = cf, msg_input = i\<rparr>"
| "full_of_message L p tx cf (SystemBootstrapping i) =
     FullSystemBootstrapping \<lparr>common = cf, msg_input = i\<rparr>"
| "full_of_message L p tx cf (ProposeSequencer i) =
     FullProposeSequencer \<lparr>common = cf, msg_input = i\<rparr>"
| "full_of_message L p tx cf (L1ToL2Message i) =
     FullL1ToL2Message \<lparr>common = cf, msg_input = i,
       l1_amount = bridge_amount L (mp_bridge_address p) (tx_output tx),
       tx_outputs = tx_output tx\<rparr>"

lemma message_of_full_of_message [simp]:
  "message_of_full (full_of_message L p tx cf m) = m"
  "common_of_full (full_of_message L p tx cf m) = cf"
  by (cases m; simp)+

text \<open>The parser after reading a message: a system bootstrapping message installs its bridge.\<close>

fun parser_after :: "inscription_message \<Rightarrow> message_parser \<Rightarrow> message_parser" where
  "parser_after (SystemBootstrapping i) p =
     p\<lparr>mp_bridge_address := Some (bridge_p2wpkh_mpc_address i)\<rparr>"
| "parser_after m p = p"

fun is_no_vote :: "inscription_message \<Rightarrow> bool" where
  "is_no_vote (ValidatorAttestation i) = (attestation i = Vote_NotOk)"
| "is_no_vote m = False"

lemma h_of_slice_ok [simp]:
  "lib_hash_sizes L \<Longrightarrow> length bs = 32 \<Longrightarrow> h256_of_slice L bs = Ok bs"
  "lib_hash_sizes L \<Longrightarrow> length bs = 20 \<Longrightarrow> h160_of_slice L bs = Ok bs"
  "lib_hash_sizes L \<Longrightarrow> length bs = 32 \<Longrightarrow> txid_from_slice L bs = Some bs"
  by (simp_all add: lib_hash_sizes_def h256_of_slice_def h160_of_slice_def)

lemma nth_push_simps [simp]:
  "nth_push (PushBytes b # is) 0 = Some b"
  "nth_push (Op c # is) 0 = None"
  "nth_push (i # is) (Suc k) = nth_push is k"
  "nth_push (i # is) (numeral n) = nth_push is (pred_numeral n)"
  by (simp_all add: nth_push_def)

lemma address_text_parses [simp]:
  "lib_address_text L \<Longrightarrow> from_utf8 (address_to_string L a) = Some (address_to_string L a)"
  "lib_address_text L \<Longrightarrow> address_parse L (address_to_string L a) = Some a"
  by (simp_all add: lib_address_text_def utf8_valid_ascii)

lemma names_neq [simp]:
  "PROPOSE_SEQUENCER_MSG \<noteq> SYSTEM_BOOTSTRAPPING_MSG"
  "VALIDATOR_ATTESTATION_MSG \<noteq> SYSTEM_BOOTSTRAPPING_MSG"
  "VALIDATOR_ATTESTATION_MSG \<noteq> PROPOSE_SEQUENCER_MSG"
  "L1_BATCH_DA_REFERENCE_MSG \<noteq> SYSTEM_BOOTSTRAPPING_MSG"
  "L1_BATCH_DA_REFERENCE_MSG \<noteq> PROPOSE_SEQUENCER_MSG"
  "L1_BATCH_DA_REFERENCE_MSG \<noteq> VALIDATOR_ATTESTATION_MSG"
  "PROOF_DA_REFERENCE_MSG \<noteq> SYSTEM_BOOTSTRAPPING_MSG"
  "PROOF_DA_REFERENCE_MSG \<noteq> PROPOSE_SEQUENCER_MSG"
  "PROOF_DA_REFERENCE_MSG \<noteq> VALIDATOR_ATTESTATION_MSG"
  "PROOF_DA_REFERENCE_MSG \<noteq> L1_BATCH_DA_REFERENCE_MSG"
  "L1_TO_L2_MSG \<noteq> SYSTEM_BOOTSTRAPPING_MSG"
  "L1_TO_L2_MSG \<noteq> PROPOSE_SEQUENCER_MSG"
  "L1_TO_L2_MSG \<noteq> VALIDATOR_ATTESTATION_MSG"
  "L1_TO_L2_MSG \<noteq> L1_BATCH_DA_REFERENCE_MSG"
  "L1_TO_L2_MSG \<noteq> PROOF_DA_REFERENCE_MSG"
  using message_names_distinct by auto

lemma system_bootstrapping_layout:
  fixes pre mid :: "instruction list"
  assumes "length pre = 3" and "is = pre @ mid @ [a, b, c, e]"
  shows "length is = length mid + 7"
    and "take (length is - 7) (drop 3 is) = mid"
    and "get_at is (length is - 4) = Some a"
    and "get_at is (length is - 3) = Some b"
    and "get_at is (length is - 2) = Some c"
    and "get_at is 2 = get_at pre 2"
  using assms by (simp_all add: get_at_def nth_append)

lemma parse_built_system_bootstrapping:
  assumes lib: "lib_address_text L" "lib_hash_sizes L"
    and wf: "wf_message L (mp_network p) (SystemBootstrapping i)"
  shows "parse_system_bootstrapping L (message_instructions L (SystemBootstrapping i)) cf p
       = (Ok (full_of_message L p tx cf (SystemBootstrapping i)),
          parser_after (SystemBootstrapping i) p)"
proof -
  let ?pre = "[PushBytes VIA_INSCRIPTION_PROTOCOL, PushBytes SYSTEM_BOOTSTRAPPING_MSG,
      PushBytes (u32_to_be_bytes (start_block_height i))]"
  let ?mid = "map (\<lambda>a. PushBytes (address_to_string L a)) (verifier_p2wpkh_addresses i)"
  let ?suf = "[PushBytes (address_to_string L (bridge_p2wpkh_mpc_address i)),
      PushBytes (sb_bootloader_hash i), PushBytes (sb_abstract_account_hash i), Op OP_ENDIF]"
  define "is" where "is = message_instructions L (SystemBootstrapping i)"
  have layout: "is = ?pre @ ?mid @ ?suf"
    by (simp add: is_def message_instructions_def opcode_defs)
  have "length ?pre = 3" by simp
  note parts = system_bootstrapping_layout [OF this layout]
  have len: "\<not> length is < 7" by (simp add: parts(1))
  have verifiers: "list_filter_map (parse_address L) ?mid = verifier_p2wpkh_addresses i"
    using lib(1) by (simp add: list_filter_map_map list_filter_map_all [where g = id])
  have "parse_system_bootstrapping L is cf p
      = (Ok (full_of_message L p tx cf (SystemBootstrapping i)),
         parser_after (SystemBootstrapping i) p)"
    unfolding parse_system_bootstrapping_def nth_push_def
    using lib wf verifiers by (simp add: len parts(2-) min_instructions_defs)
  then show ?thesis by (simp add: is_def)
qed

text \<open>The votes: a positive one is written as the opcode the parser reads; a negative one is
  written as \<^verbatim>\<open>OP_0\<close>, which reads back as an empty push and is none of the forms the parser
  accepts.\<close>

lemma parse_built_vote:
  "parse_vote (item_instruction (PushOpcode OP_PUSHNUM_1)) = Some Vote_Ok"
  "parse_vote (item_instruction (PushOpcode OP_0)) = None"
  by (simp_all add: opcode_defs ascii_def)

lemma parse_built_message:
  assumes lib: "lib_address_text L" "lib_hash_sizes L"
    and wf: "wf_message L (mp_network p) m" and vote: "\<not> is_no_vote m"
  shows "parse_message L tx (message_instructions L m) cf p
       = (Ok (full_of_message L p tx cf m), parser_after m p)"
proof (cases m)
  case (SystemBootstrapping i)
  have "get_at (message_instructions L m) (Suc 0) = Some (PushBytes SYSTEM_BOOTSTRAPPING_MSG)"
    by (simp add: SystemBootstrapping message_instructions_def)
  then show ?thesis
    using parse_built_system_bootstrapping [OF lib, of p i cf tx] wf
    by (simp add: parse_message_def SystemBootstrapping)
next
  case (ValidatorAttestation i)
  then have "attestation i = Vote_Ok" using vote by (cases "attestation i") simp_all
  then show ?thesis
    using lib wf parse_built_vote ValidatorAttestation
    by (simp add: parse_message_def message_instructions_def min_instructions_defs
        parse_validator_attestation_def del: parse_vote.simps item_instruction.simps(2))
qed (use lib wf in \<open>simp_all add: parse_message_def message_instructions_def
      min_instructions_defs pure_parser_defs\<close>)

lemma parse_built_no_vote:
  assumes lib: "lib_hash_sizes L" and wf: "wf_message L n m" and vote: "is_no_vote m"
  shows "parse_message L tx (message_instructions L m) cf p = (Err (), p)"
proof (cases m)
  case (ValidatorAttestation i)
  then have "attestation i = Vote_NotOk" using vote by simp
  then show ?thesis
    using lib wf parse_built_vote ValidatorAttestation
    by (simp add: parse_message_def message_instructions_def min_instructions_defs
        parse_validator_attestation_def del: parse_vote.simps item_instruction.simps(2))
qed (use vote in simp_all)

section \<open>Inscription transactions\<close>

text \<open>The witness of an input that reveals the inscription of a message.\<close>

definition reveals :: "btc_lib \<Rightarrow> tx_in \<Rightarrow> bytes \<Rightarrow> inscription_message \<Rightarrow>
    taproot_signature \<Rightarrow> control_block \<Rightarrow> bool" where
  "reveals L inp pk m sig cb \<longleftrightarrow>
     (\<exists>sig_bytes. taproot_signature_from_slice L sig_bytes = Some sig
        \<and> witness inp = [sig_bytes,
            into_script L (basic_items pk @ message_items L m @ [PushOpcode OP_ENDIF]),
            control_block_serialize L cb])"

definition inscription_common ::
    "btc_lib \<Rightarrow> transaction \<Rightarrow> u32 \<Rightarrow> address \<Rightarrow> taproot_signature \<Rightarrow> control_block \<Rightarrow>
       common_fields" where
  "inscription_common L tx h sender sig cb =
     \<lparr>cf_schnorr_signature = sig, encoded_public_key = internal_key_bytes L cb,
      cf_block_height = h, cf_tx_id = compute_ntxid L tx, p2wpkh_address = sender\<rparr>"

lemma find_via_in_built_script:
  assumes "length pk = 32"
  shows "find_via_inscription_protocol
           (map item_instruction (basic_items pk @ message_items L m @ [PushOpcode OP_ENDIF]))
         = Some 4"
proof -
  have "[] \<noteq> VIA_INSCRIPTION_PROTOCOL"
    using message_name_lengths(7) by (metis list.size(3) zero_neq_numeral)
  moreover have "pk \<noteq> VIA_INSCRIPTION_PROTOCOL" using assms by auto
  ultimately show ?thesis
    by (simp add: find_via_inscription_protocol_def basic_items_def opcode_defs)
qed

lemma parse_revealing_input:
  assumes lib: "lib_script_codec L" "lib_control_block L" "lib_address_text L"
    and wf: "wf_message L n m" and pk: "length pk = 32" and rev: "reveals L inp pk m sig cb"
  shows "parse_input L inp tx h sender p
       = parse_message L tx (message_instructions L m)
           (inscription_common L tx h sender sig cb) p"
proof -
  obtain sig_bytes where sig: "taproot_signature_from_slice L sig_bytes = Some sig"
    and w: "witness inp = [sig_bytes,
      into_script L (basic_items pk @ message_items L m @ [PushOpcode OP_ENDIF]),
      control_block_serialize L cb]"
    using rev by (auto simp: reveals_def)
  have drop4: "drop 4 (map item_instruction
      (basic_items pk @ message_items L m @ [PushOpcode OP_ENDIF])) = message_instructions L m"
    by (simp add: basic_items_def message_instructions_def)
  show ?thesis
    using lib sig find_via_in_built_script [OF pk, of L m] drop4
      built_script_instructions [OF lib(1,3) wf fits_small(1) [OF pk]]
    by (simp add: parse_input_def w lib_control_block_def
        inscription_common_def min_instructions_defs del: map_append drop_map)
qed

text \<open>
  A transaction whose first input spends a P2WPKH output of the sender and whose second input
  reveals an inscription: the shape the inscriber produces.
\<close>

lemma parse_reveal_transaction:
  assumes lib: "lib_script_codec L" "lib_control_block L" "lib_address_text L" "lib_hash_sizes L"
    and pk: "length pk = 32"
    and inputs: "tx_input tx = [fee_in, tap_in]"
    and fee: "parse_p2wpkh L (mp_network p) (witness fee_in) = Some sender"
    and rev: "reveals L tap_in pk m sig cb"
    and wf: "wf_message L (mp_network p) m"
  shows "parse_transaction L tx h p
       = (if is_no_vote m then (Ok [], p)
          else (Ok [full_of_message L p tx (inscription_common L tx h sender sig cb) m],
                parser_after m p))"
proof -
  have fee_len: "length (witness fee_in) = 2"
    using fee by (auto simp: parse_p2wpkh_def split: if_splits)
  have tap_len: "length (witness tap_in) = 3" using rev by (auto simp: reveals_def)
  have sender: "sender_address L (mp_network p) (tx_input tx) = Some sender"
    using fee tap_len by (simp add: sender_address_def inputs parse_p2wpkh_def)
  have skip: "io_try (parse_input L fee_in tx h sender) p = (Ok None, p)"
    by (simp add: io_try_def parse_input_def fee_len min_instructions_defs)
  have tap: "io_try (parse_input L tap_in tx h sender) p
      = (if is_no_vote m then (Ok None, p)
         else (Ok (Some (full_of_message L p tx (inscription_common L tx h sender sig cb) m)),
               parser_after m p))"
    using parse_built_message [OF lib(3,4) wf] parse_built_no_vote [OF lib(4) wf]
    by (simp add: io_try_def parse_revealing_input [OF lib(1-3) wf pk rev])
  show ?thesis
    using sender by (simp add: parse_transaction_def inputs io_bind_def skip tap)
qed

end
