(* ===== verification/Btc_Client.thy ===== *)
theory Btc_Client
  imports Btc_Types
begin

text \<open>
  The Bitcoin client (\<^verbatim>\<open>core/lib/via_btc_client/src/traits.rs\<close>, \<^verbatim>\<open>client/mod.rs\<close>,
  \<^verbatim>\<open>client/rpc_client.rs\<close>, \<^verbatim>\<open>utils.rs\<close>).  The Bitcoin node is an environment state \<open>'w\<close>
  behind the calls of the \<^verbatim>\<open>bitcoincore_rpc\<close> crate, the record \<open>core_rpc\<close>; a call may change
  it and may answer differently each time.  \<open>bitcoin_rpc_client\<close> implements the trait
  \<^verbatim>\<open>BitcoinRpc\<close> over those calls with retries, and \<open>bitcoin_client\<close> implements the trait
  \<^verbatim>\<open>BitcoinOps\<close> over \<^verbatim>\<open>BitcoinRpc\<close>.
\<close>

section \<open>Interfaces\<close>

type_synonym u128 = "128 word"

record block =
  prev_blockhash :: bytes
  txdata :: "transaction list"

record unspent_entry =
  us_txid :: txid
  us_vout :: u32
  us_amount :: amount

record raw_tx_info =
  confirmations :: "u32 option"

record smart_fee =
  sf_fee_rate :: "amount option"
  sf_errors :: "string list option"

text \<open>The calls of the \<^verbatim>\<open>bitcoincore_rpc\<close> client.\<close>

record 'w core_rpc =
  core_list_unspent :: "u64 \<Rightarrow> address \<Rightarrow> ('w, string, unspent_entry list) io"
  core_scan_tx_out_set :: "address \<Rightarrow> ('w, string, unspent_entry list) io"
  core_send_raw_transaction :: "bytes \<Rightarrow> ('w, string, txid) io"
  core_get_raw_transaction :: "txid \<Rightarrow> ('w, string, transaction) io"
  core_get_block_count :: "('w, string, u64) io"
  core_get_block_hash :: "u64 \<Rightarrow> ('w, string, bytes) io"
  core_get_block :: "bytes \<Rightarrow> ('w, string, block) io"
  core_get_best_block_hash :: "('w, string, bytes) io"
  core_get_raw_transaction_info :: "txid \<Rightarrow> ('w, string, raw_tx_info) io"
  core_estimate_smart_fee :: "u16 \<Rightarrow> ('w, string, smart_fee) io"

text \<open>The trait \<^verbatim>\<open>BitcoinRpc\<close>.\<close>

record 'w btc_rpc =
  rpc_get_balance :: "address \<Rightarrow> ('w, bitcoin_error, u64) io"
  rpc_get_balance_scan :: "address \<Rightarrow> ('w, bitcoin_error, u64) io"
  rpc_send_raw_transaction :: "bytes \<Rightarrow> ('w, bitcoin_error, txid) io"
  rpc_list_unspent_based_on_node_wallet :: "address \<Rightarrow> ('w, bitcoin_error, out_point list) io"
  rpc_list_unspent :: "address \<Rightarrow> ('w, bitcoin_error, out_point list) io"
  rpc_get_transaction :: "txid \<Rightarrow> ('w, bitcoin_error, transaction) io"
  rpc_get_block_count :: "('w, bitcoin_error, u64) io"
  rpc_get_block_by_height :: "u128 \<Rightarrow> ('w, bitcoin_error, block) io"
  rpc_get_block_by_hash :: "bytes \<Rightarrow> ('w, bitcoin_error, block) io"
  rpc_get_best_block_hash :: "('w, bitcoin_error, bytes) io"
  rpc_get_raw_transaction_info :: "txid \<Rightarrow> ('w, bitcoin_error, raw_tx_info) io"
  rpc_estimate_smart_fee :: "u16 \<Rightarrow> ('w, bitcoin_error, smart_fee) io"

text \<open>The trait \<^verbatim>\<open>BitcoinOps\<close>.\<close>

record 'w btc_ops =
  ops_get_balance :: "address \<Rightarrow> ('w, bitcoin_error, u128) io"
  ops_broadcast_signed_transaction :: "bytes \<Rightarrow> ('w, bitcoin_error, txid) io"
  ops_fetch_utxos :: "address \<Rightarrow> ('w, bitcoin_error, (out_point \<times> tx_out) list) io"
  ops_check_tx_confirmation :: "txid \<Rightarrow> u32 \<Rightarrow> ('w, bitcoin_error, bool) io"
  ops_fetch_block_height :: "('w, bitcoin_error, u128) io"
  ops_get_fee_rate :: "u16 \<Rightarrow> ('w, bitcoin_error, u64) io"
  ops_get_network :: network
  ops_fetch_block :: "u128 \<Rightarrow> ('w, bitcoin_error, block) io"
  ops_get_transaction :: "txid \<Rightarrow> ('w, bitcoin_error, transaction) io"
  ops_fetch_block_by_hash :: "bytes \<Rightarrow> ('w, bitcoin_error, block) io"

section \<open>Retries\<close>

text \<open>
  \<^verbatim>\<open>with_retry\<close>: the argument is the number of retries left; the code counts the retries made
  up to \<^verbatim>\<open>max_retries\<close>.
\<close>

fun with_retry :: "nat \<Rightarrow> ('w, 'e, 'a) io \<Rightarrow> ('w, 'e, 'a) io" where
  "with_retry n f w = (case f w of
      (Ok result, w') \<Rightarrow> (Ok result, w')
    | (Err e, w') \<Rightarrow> (case n of Suc k \<Rightarrow> with_retry k f w' | 0 \<Rightarrow> (Err e, w'))
    | (Panic, w') \<Rightarrow> (Panic, w'))"

declare with_retry.simps [simp del]

definition RPC_MAX_RETRIES :: nat where "RPC_MAX_RETRIES = 3"

definition retry_rpc :: "('w, string, 'a) io \<Rightarrow> ('w, bitcoin_error, 'a) io" where
  "retry_rpc f = with_retry RPC_MAX_RETRIES (io_map_err Rpc f)"

section \<open>The RPC client\<close>

definition outpoint_of_unspent :: "unspent_entry \<Rightarrow> out_point" where
  "outpoint_of_unspent u = \<lparr>op_txid = us_txid u, op_vout = us_vout u\<rparr>"

definition rpc_client_get_balance :: "'w core_rpc \<Rightarrow> address \<Rightarrow> ('w, bitcoin_error, u64) io" where
  "rpc_client_get_balance c a =
     retry_rpc (io_bind (core_list_unspent c 1 a) (\<lambda>result.
       io_return (sum_list (map us_amount result))))"

definition rpc_client_list_unspent_wallet ::
    "'w core_rpc \<Rightarrow> address \<Rightarrow> ('w, bitcoin_error, out_point list) io" where
  "rpc_client_list_unspent_wallet c a =
     retry_rpc (io_bind (core_list_unspent c 1 a) (\<lambda>result.
       io_return (map outpoint_of_unspent result)))"

definition rpc_client_list_unspent ::
    "'w core_rpc \<Rightarrow> address \<Rightarrow> ('w, bitcoin_error, out_point list) io" where
  "rpc_client_list_unspent c a =
     retry_rpc (io_bind (core_scan_tx_out_set c a) (\<lambda>result.
       io_return (map outpoint_of_unspent result)))"

definition rpc_client_get_transaction ::
    "'w core_rpc \<Rightarrow> txid \<Rightarrow> ('w, bitcoin_error, transaction) io" where
  "rpc_client_get_transaction c t = retry_rpc (core_get_raw_transaction c t)"

text \<open>The outputs are indexed without a check: an index out of range panics.\<close>

fun sum_outputs :: "'w core_rpc \<Rightarrow> out_point list \<Rightarrow> u64 \<Rightarrow> ('w, bitcoin_error, u64) io" where
  "sum_outputs c [] acc = io_return acc"
| "sum_outputs c (u # us) acc =
     io_bind (rpc_client_get_transaction c (op_txid u)) (\<lambda>tx.
     io_bind (io_lift (unwrap (get_at (tx_output tx) (unat (op_vout u))))) (\<lambda>out.
     sum_outputs c us (acc + txo_value out)))"

definition rpc_client_get_balance_scan ::
    "'w core_rpc \<Rightarrow> address \<Rightarrow> ('w, bitcoin_error, u64) io" where
  "rpc_client_get_balance_scan c a =
     io_bind (rpc_client_list_unspent c a) (\<lambda>result. sum_outputs c result 0)"

definition rpc_client_get_block_by_height ::
    "'w core_rpc \<Rightarrow> u128 \<Rightarrow> ('w, bitcoin_error, block) io" where
  "rpc_client_get_block_by_height c h =
     retry_rpc (io_bind (core_get_block_hash c (ucast h)) (\<lambda>block_hash.
       core_get_block c block_hash))"

definition bitcoin_rpc_client :: "'w core_rpc \<Rightarrow> 'w btc_rpc" where
  "bitcoin_rpc_client c =
     \<lparr>rpc_get_balance = rpc_client_get_balance c,
      rpc_get_balance_scan = rpc_client_get_balance_scan c,
      rpc_send_raw_transaction = (\<lambda>tx_hex. retry_rpc (core_send_raw_transaction c tx_hex)),
      rpc_list_unspent_based_on_node_wallet = rpc_client_list_unspent_wallet c,
      rpc_list_unspent = rpc_client_list_unspent c,
      rpc_get_transaction = rpc_client_get_transaction c,
      rpc_get_block_count = retry_rpc (core_get_block_count c),
      rpc_get_block_by_height = rpc_client_get_block_by_height c,
      rpc_get_block_by_hash = (\<lambda>h. retry_rpc (core_get_block c h)),
      rpc_get_best_block_hash = retry_rpc (core_get_best_block_hash c),
      rpc_get_raw_transaction_info = (\<lambda>t. retry_rpc (core_get_raw_transaction_info c t)),
      rpc_estimate_smart_fee = (\<lambda>t. retry_rpc (core_estimate_smart_fee c t))\<rparr>"

section \<open>The client\<close>

definition client_get_balance ::
    "'w btc_rpc \<Rightarrow> network \<Rightarrow> address \<Rightarrow> ('w, bitcoin_error, u128) io" where
  "client_get_balance rpc n a =
     io_bind (case n of
         Regtest \<Rightarrow> rpc_get_balance_scan rpc a
       | _ \<Rightarrow> rpc_get_balance rpc a) (\<lambda>balance. io_return (ucast balance))"

definition fetch_utxo :: "'w btc_rpc \<Rightarrow> out_point \<Rightarrow> ('w, bitcoin_error, out_point \<times> tx_out) io" where
  "fetch_utxo rpc outpoint =
     io_bind (rpc_get_transaction rpc (op_txid outpoint)) (\<lambda>tx.
     io_bind (io_lift (res_of_option (InvalidOutpoint outpoint)
         (get_at (tx_output tx) (unat (op_vout outpoint))))) (\<lambda>txout.
     io_return (outpoint, txout)))"

definition client_fetch_utxos ::
    "'w btc_rpc \<Rightarrow> network \<Rightarrow> address \<Rightarrow> ('w, bitcoin_error, (out_point \<times> tx_out) list) io" where
  "client_fetch_utxos rpc n a =
     io_bind (case n of
         Regtest \<Rightarrow> rpc_list_unspent rpc a
       | _ \<Rightarrow> rpc_list_unspent_based_on_node_wallet rpc a) (\<lambda>outpoints.
     io_map (fetch_utxo rpc) outpoints)"

definition client_check_tx_confirmation ::
    "'w btc_rpc \<Rightarrow> txid \<Rightarrow> u32 \<Rightarrow> ('w, bitcoin_error, bool) io" where
  "client_check_tx_confirmation rpc t conf_num =
     io_bind (rpc_get_raw_transaction_info rpc t) (\<lambda>tx_info.
     io_return (case confirmations tx_info of
         Some n \<Rightarrow> conf_num \<le> n
       | None \<Rightarrow> False))"

fun join_strings :: "string \<Rightarrow> string list \<Rightarrow> string" where
  "join_strings sep [] = []"
| "join_strings sep [x] = x"
| "join_strings sep (x # y # xs) = x @ sep @ join_strings sep (y # xs)"

text \<open>Satoshi per kilobyte to satoshi per byte.  \<^verbatim>\<open>checked_div(1000)\<close> cannot fail.\<close>

definition client_get_fee_rate :: "'w btc_rpc \<Rightarrow> u16 \<Rightarrow> ('w, bitcoin_error, u64) io" where
  "client_get_fee_rate rpc conf_target =
     io_bind (rpc_estimate_smart_fee rpc conf_target) (\<lambda>estimation.
       case sf_fee_rate estimation of
         Some fee_rate \<Rightarrow> io_return (fee_rate div 1000)
       | None \<Rightarrow> io_err (FeeEstimationFailed (case sf_errors estimation of
             Some errors \<Rightarrow> join_strings '', '' errors
           | None \<Rightarrow> ''Unknown error during fee estimation'')))"

definition bitcoin_client :: "'w btc_rpc \<Rightarrow> network \<Rightarrow> 'w btc_ops" where
  "bitcoin_client rpc n =
     \<lparr>ops_get_balance = client_get_balance rpc n,
      ops_broadcast_signed_transaction = rpc_send_raw_transaction rpc,
      ops_fetch_utxos = client_fetch_utxos rpc n,
      ops_check_tx_confirmation = client_check_tx_confirmation rpc,
      ops_fetch_block_height =
        io_bind (rpc_get_block_count rpc) (\<lambda>height. io_return (ucast height)),
      ops_get_fee_rate = client_get_fee_rate rpc,
      ops_get_network = n,
      ops_fetch_block = rpc_get_block_by_height rpc,
      ops_get_transaction = rpc_get_transaction rpc,
      ops_fetch_block_by_hash = rpc_get_block_by_hash rpc\<rparr>"

section \<open>Behaviour\<close>

text \<open>The number of failed attempts a retried call makes before its answer.\<close>

fun failed_attempts :: "nat \<Rightarrow> ('w, 'e, 'a) io \<Rightarrow> 'w \<Rightarrow> nat" where
  "failed_attempts n f w = (case f w of
      (Err e, w') \<Rightarrow> (case n of Suc k \<Rightarrow> Suc (failed_attempts k f w') | 0 \<Rightarrow> 1)
    | _ \<Rightarrow> 0)"

declare failed_attempts.simps [simp del]

lemma failed_attempts_le: "failed_attempts n f w \<le> Suc n"
proof (induction n arbitrary: w)
  case 0
  then show ?case by (simp add: failed_attempts.simps [of 0] split: res.split prod.split)
next
  case (Suc n)
  then show ?case
    by (simp add: failed_attempts.simps [of "Suc n"] split: res.split prod.split)
qed

lemma with_retry_Err:
  "with_retry n f w = (Err e, w') \<Longrightarrow> failed_attempts n f w = Suc n"
proof (induction n arbitrary: w)
  case 0
  then show ?case
    by (simp add: with_retry.simps [of 0] failed_attempts.simps [of 0]
        split: res.splits prod.splits)
next
  case (Suc n)
  then show ?case
    by (auto simp: with_retry.simps [of "Suc n"] failed_attempts.simps [of "Suc n"]
        split: res.splits prod.splits)
qed

lemma with_retry_Ok:
  "with_retry n f w = (Ok a, w') \<Longrightarrow> \<exists>v. f v = (Ok a, w') \<and> failed_attempts n f w \<le> n"
proof (induction n arbitrary: w)
  case 0
  then show ?case
    by (auto simp: with_retry.simps [of 0] failed_attempts.simps [of 0]
        split: res.splits prod.splits)
next
  case (Suc n)
  then show ?case
    by (fastforce simp: with_retry.simps [of "Suc n"] failed_attempts.simps [of "Suc n"]
        split: res.splits prod.splits)
qed

lemma io_pres_with_retry [io_pres_intro]: "io_pres I f \<Longrightarrow> io_pres I (with_retry n f)"
proof (induction n)
  case 0
  then show ?case
    unfolding io_pres_def with_retry.simps [of 0] by (fastforce split: res.split prod.split)
next
  case (Suc n)
  then show ?case
    unfolding io_pres_def with_retry.simps [of "Suc n"]
    by (fastforce split: res.split prod.split)
qed

lemma io_map_Ok_list_all2:
  "io_map f xs s = (Ok ys, s') \<Longrightarrow> list_all2 (\<lambda>x y. \<exists>u v. f x u = (Ok y, v)) xs ys"
  by (induction xs arbitrary: s ys) (fastforce simp: io_ok)+

end
