(* ===== verification/Indexer.thy ===== *)
theory Indexer
  imports Message_Parser Btc_Client
begin

text \<open>
  The inscription indexer (\<^verbatim>\<open>core/lib/via_btc_client/src/indexer/mod.rs\<close>): the bootstrap of the
  network's parameters from the bootstrap transactions, the processing of blocks, and the
  validity rules of messages.  A \<^verbatim>\<open>HashMap<Address, Vote>\<close> is an association list with
  distinct keys, updated with \<open>AList.update\<close>.
\<close>

section \<open>Bootstrap state\<close>

record bootstrap_state =
  bs_verifier_addresses :: "address list"
  proposed_sequencer :: "address option"
  proposed_sequencer_txid :: "txid option"
  sequencer_votes :: "(address \<times> vote) list"
  bs_bridge_address :: "address option"
  bs_starting_block_number :: u32
  bs_bootloader_hash :: "h256 option"
  bs_abstract_account_hash :: "h256 option"

definition bootstrap_state_new :: bootstrap_state where
  "bootstrap_state_new =
     \<lparr>bs_verifier_addresses = [], proposed_sequencer = None, proposed_sequencer_txid = None,
      sequencer_votes = [], bs_bridge_address = None, bs_starting_block_number = 0,
      bs_bootloader_hash = None, bs_abstract_account_hash = None\<rparr>"

definition has_majority_votes :: "bootstrap_state \<Rightarrow> bool" where
  "has_majority_votes st =
     (let total_votes = length (sequencer_votes st);
          positive_votes = length (filter (\<lambda>v. v = Vote_Ok) (map snd (sequencer_votes st)))
      in positive_votes * 2 > total_votes
         \<and> total_votes = length (bs_verifier_addresses st))"

definition is_complete :: "bootstrap_state \<Rightarrow> bool" where
  "is_complete st \<longleftrightarrow>
     bs_verifier_addresses st \<noteq> []
   \<and> proposed_sequencer st \<noteq> None
   \<and> bs_bridge_address st \<noteq> None
   \<and> bs_starting_block_number st > 0
   \<and> has_majority_votes st
   \<and> bs_bootloader_hash st \<noteq> None
   \<and> bs_abstract_account_hash st \<noteq> None"

text \<open>An address of another network panics (\<^verbatim>\<open>require_network(network).unwrap()\<close>); the
  verifier addresses are replaced before the bridge address is checked.\<close>

fun process_bootstrap_message ::
    "btc_lib \<Rightarrow> network \<Rightarrow> full_inscription_message \<Rightarrow> txid \<Rightarrow> (bootstrap_state, unit, unit) io" where
  "process_bootstrap_message L n (FullSystemBootstrapping sb) txid =
     io_bind (io_lift (res_map (\<lambda>a. unwrap (require_network L a n))
         (verifier_p2wpkh_addresses (msg_input sb)))) (\<lambda>verifier_addresses.
     io_bind (io_modify (\<lambda>st. st\<lparr>bs_verifier_addresses := verifier_addresses\<rparr>)) (\<lambda>_.
     io_bind (io_lift (unwrap (require_network L
         (bridge_p2wpkh_mpc_address (msg_input sb)) n))) (\<lambda>bridge_address.
     io_modify (\<lambda>st. st\<lparr>bs_bridge_address := Some bridge_address,
       bs_starting_block_number := start_block_height (msg_input sb),
       bs_bootloader_hash := Some (sb_bootloader_hash (msg_input sb)),
       bs_abstract_account_hash := Some (sb_abstract_account_hash (msg_input sb))\<rparr>))))"
| "process_bootstrap_message L n (FullProposeSequencer ps) txid =
     io_bind (io_get bs_verifier_addresses) (\<lambda>verifiers.
     if p2wpkh_address (common ps) \<in> set verifiers then
       io_bind (io_lift (unwrap (require_network L
           (sequencer_new_p2wpkh_address (msg_input ps)) n))) (\<lambda>sequencer_address.
       io_modify (\<lambda>st. st\<lparr>proposed_sequencer := Some sequencer_address,
         proposed_sequencer_txid := Some txid\<rparr>))
     else io_return ())"
| "process_bootstrap_message L n (FullValidatorAttestation va) txid =
     io_modify (\<lambda>st.
       if p2wpkh_address (common va) \<in> set (bs_verifier_addresses st)
          \<and> proposed_sequencer st \<noteq> None then
         (case proposed_sequencer_txid st of
            Some proposed_txid \<Rightarrow>
              if reference_txid (msg_input va) = proposed_txid then
                st\<lparr>sequencer_votes := AList.update (p2wpkh_address (common va))
                  (attestation (msg_input va)) (sequencer_votes st)\<rparr>
              else st
          | None \<Rightarrow> st)
       else st)"
| "process_bootstrap_message L n m txid = io_return ()"

section \<open>The indexer\<close>

record indexer =
  ix_parser :: message_parser
  ix_bridge_address :: address
  sequencer_address :: address
  ix_verifier_addresses :: "address list"
  starting_block_number :: u32

definition create_indexer :: "bootstrap_state \<Rightarrow> message_parser \<Rightarrow> (indexer_error, indexer) res" where
  "create_indexer st parser =
     (if is_complete st then
        (case (bs_bridge_address st, proposed_sequencer st) of
           (Some bridge, Some sequencer) \<Rightarrow>
             Ok \<lparr>ix_parser = parser, ix_bridge_address = bridge, sequencer_address = sequencer,
                  ix_verifier_addresses = bs_verifier_addresses st,
                  starting_block_number = bs_starting_block_number st\<rparr>
         | _ \<Rightarrow> Err (IncompleteBootstrap
             ''Incomplete bootstrap process despite state being marked as complete''))
      else Err (IncompleteBootstrap
             ''Bootstrap process did not complete with provided transactions''))"

text \<open>
  The bootstrap loop runs over the parser, the bootstrap state and the Bitcoin node together.
\<close>

record 'w bootstrap_run =
  br_parser :: message_parser
  br_state :: bootstrap_state
  br_world :: 'w

abbreviation on_world :: "('w, bitcoin_error, 'a) io \<Rightarrow> ('w bootstrap_run, indexer_error, 'a) io" where
  "on_world m \<equiv> io_zoom br_world (\<lambda>w s. s\<lparr>br_world := w\<rparr>) (io_map_err BitcoinClientError m)"

abbreviation never_err :: "unit \<Rightarrow> indexer_error" where
  "never_err \<equiv> \<lambda>_. IncompleteBootstrap []"

definition process_bootstrap_messages ::
    "btc_lib \<Rightarrow> network \<Rightarrow> full_inscription_message list \<Rightarrow> txid \<Rightarrow>
       (bootstrap_state, unit, unit) io" where
  "process_bootstrap_messages L n messages txid =
     io_for messages (\<lambda>m. process_bootstrap_message L n m txid)"

fun bootstrap_loop ::
    "btc_lib \<Rightarrow> 'w btc_ops \<Rightarrow> network \<Rightarrow> txid list \<Rightarrow>
       ('w bootstrap_run, indexer_error, unit) io" where
  "bootstrap_loop L ops n [] = io_return ()"
| "bootstrap_loop L ops n (txid # txids) =
     io_bind (on_world (ops_get_transaction ops txid)) (\<lambda>tx.
     io_bind (io_zoom br_parser (\<lambda>p s. s\<lparr>br_parser := p\<rparr>)
         (io_map_err never_err (parse_transaction L tx 0))) (\<lambda>messages.
     io_bind (io_zoom br_state (\<lambda>b s. s\<lparr>br_state := b\<rparr>)
         (io_map_err never_err (process_bootstrap_messages L n messages txid))) (\<lambda>_.
     io_bind (io_get (\<lambda>s. is_complete (br_state s))) (\<lambda>complete.
     if complete then io_return () else bootstrap_loop L ops n txids))))"

definition indexer_new ::
    "btc_lib \<Rightarrow> 'w btc_ops \<Rightarrow> network \<Rightarrow> txid list \<Rightarrow> 'w \<Rightarrow> (indexer_error, indexer) res \<times> 'w" where
  "indexer_new L ops n bootstrap_txids w =
     (case bootstrap_loop L ops n bootstrap_txids
         \<lparr>br_parser = message_parser_new n, br_state = bootstrap_state_new, br_world = w\<rparr> of
        (Ok _, s) \<Rightarrow> (create_indexer (br_state s) (br_parser s), br_world s)
      | (Err e, s) \<Rightarrow> (Err e, br_world s)
      | (Panic, s) \<Rightarrow> (Panic, br_world s))"

section \<open>Block processing\<close>

text \<open>\<^verbatim>\<open>txdata.iter().flat_map(|tx| self.parser.parse_transaction(tx, height)).collect()\<close>.\<close>

definition parse_block ::
    "btc_lib \<Rightarrow> transaction list \<Rightarrow> u32 \<Rightarrow> full_inscription_message list parse" where
  "parse_block L txs h =
     io_bind (io_map (\<lambda>tx. parse_transaction L tx h) txs) (\<lambda>ms. io_return (concat ms))"

type_synonym 'w indexer_state = "indexer \<times> 'w"

definition process_block ::
    "btc_lib \<Rightarrow> 'w btc_ops \<Rightarrow> u32 \<Rightarrow>
       ('w indexer_state, indexer_error, full_inscription_message list) io" where
  "process_block L ops block_height =
     io_bind (io_get (starting_block_number \<circ> fst)) (\<lambda>start.
     if block_height < start then io_err (InvalidBlockHeight block_height)
     else
       io_bind (io_zoom snd (\<lambda>w s. (fst s, w))
         (io_map_err BitcoinClientError (ops_fetch_block ops (ucast block_height)))) (\<lambda>block.
       io_zoom (ix_parser \<circ> fst) (\<lambda>p s. ((fst s)\<lparr>ix_parser := p\<rparr>, snd s))
         (io_map_err never_err (parse_block L (txdata block) block_height))))"

text \<open>The heights \<^verbatim>\<open>starting_block..=ending_block\<close>.  The capacity that \<^verbatim>\<open>process_blocks\<close> reserves for
  the messages, \<^verbatim>\<open>ending_block - starting_block + 1\<close>, only sizes an allocation and is not part of the
  result; it leaves 32 bits only for an empty range, which the watcher never asks for, or for the
  range of all heights.\<close>

definition block_range :: "u32 \<Rightarrow> u32 \<Rightarrow> u32 list" where
  "block_range a b = map of_nat [unat a ..< Suc (unat b)]"

definition process_blocks ::
    "btc_lib \<Rightarrow> 'w btc_ops \<Rightarrow> u32 \<Rightarrow> u32 \<Rightarrow>
       ('w indexer_state, indexer_error, full_inscription_message list) io" where
  "process_blocks L ops starting_block ending_block =
     io_bind (io_map (process_block L ops) (block_range starting_block ending_block)) (\<lambda>res.
       io_return (concat res))"

definition are_blocks_connected ::
    "'w btc_ops \<Rightarrow> bytes \<Rightarrow> bytes \<Rightarrow> ('w indexer_state, indexer_error, bool) io" where
  "are_blocks_connected ops parent_hash child_hash =
     io_bind (io_zoom snd (\<lambda>w s. (fst s, w))
       (io_map_err BitcoinClientError (ops_fetch_block_by_hash ops child_hash))) (\<lambda>child_block.
     io_return (prev_blockhash child_block = parent_hash))"

definition indexer_fetch_block_height ::
    "'w btc_ops \<Rightarrow> ('w indexer_state, indexer_error, u128) io" where
  "indexer_fetch_block_height ops =
     io_zoom snd (\<lambda>w s. (fst s, w)) (io_map_err BitcoinClientError (ops_fetch_block_height ops))"

definition get_state :: "indexer \<Rightarrow> address \<times> address \<times> address list \<times> u32" where
  "get_state ix = (ix_bridge_address ix, sequencer_address ix, ix_verifier_addresses ix,
     starting_block_number ix)"

section \<open>Message validity\<close>

definition is_valid_l1_to_l2_transfer :: "btc_lib \<Rightarrow> indexer \<Rightarrow> l1_to_l2_message \<Rightarrow> bool" where
  "is_valid_l1_to_l2_transfer L ix m \<longleftrightarrow>
     list_ex (\<lambda>out. script_pubkey out = address_script_pubkey L (ix_bridge_address ix))
       (tx_outputs m)"

fun is_valid_message :: "btc_lib \<Rightarrow> indexer \<Rightarrow> full_inscription_message \<Rightarrow> bool" where
  "is_valid_message L ix (FullProposeSequencer m) =
     (p2wpkh_address (common m) \<in> set (ix_verifier_addresses ix))"
| "is_valid_message L ix (FullValidatorAttestation m) =
     (p2wpkh_address (common m) \<in> set (ix_verifier_addresses ix))"
| "is_valid_message L ix (FullL1BatchDAReference m) =
     (p2wpkh_address (common m) = sequencer_address ix)"
| "is_valid_message L ix (FullProofDAReference m) =
     (p2wpkh_address (common m) = sequencer_address ix)"
| "is_valid_message L ix (FullL1ToL2Message m) =
     (l1_amount m > 0 \<and> is_valid_l1_to_l2_transfer L ix m)"
| "is_valid_message L ix (FullSystemBootstrapping m) = True"

section \<open>Correctness of the bootstrap\<close>

text \<open>The messages of a bootstrap run with the transactions they come from.\<close>

definition run_bootstrap ::
    "btc_lib \<Rightarrow> network \<Rightarrow> (full_inscription_message \<times> txid) list \<Rightarrow>
       (bootstrap_state, unit, unit) io" where
  "run_bootstrap L n events =
     io_for events (\<lambda>(m, txid). process_bootstrap_message L n m txid)"

lemma run_bootstrap_append:
  "run_bootstrap L n (es @ es') = io_bind (run_bootstrap L n es) (\<lambda>_. run_bootstrap L n es')"
  by (simp add: run_bootstrap_def io_for_append)

lemma process_bootstrap_messages_run:
  "process_bootstrap_messages L n ms t = run_bootstrap L n (map (\<lambda>m. (m, t)) ms)"
  by (induction ms) (simp_all add: process_bootstrap_messages_def run_bootstrap_def)

text \<open>
  What a state reached through the events records: each vote was cast by an attestation of its
  sender that refers to a proposal made before; the proposal is that of a proposing message; the
  installed addresses belong to the network.
\<close>

definition voted :: "(full_inscription_message \<times> txid) list \<Rightarrow> address \<Rightarrow> vote \<Rightarrow> bool" where
  "voted es a v \<longleftrightarrow> (\<exists>va t ps. (FullValidatorAttestation va, t) \<in> set es
     \<and> p2wpkh_address (common va) = a \<and> attestation (msg_input va) = v
     \<and> (FullProposeSequencer ps, reference_txid (msg_input va)) \<in> set es)"

definition proposed :: "(full_inscription_message \<times> txid) list \<Rightarrow> address \<Rightarrow> txid \<Rightarrow> bool" where
  "proposed es a t \<longleftrightarrow> (\<exists>ps. (FullProposeSequencer ps, t) \<in> set es
     \<and> sequencer_new_p2wpkh_address (msg_input ps) = a)"

definition bootstrap_inv ::
    "btc_lib \<Rightarrow> network \<Rightarrow> (full_inscription_message \<times> txid) list \<Rightarrow> bootstrap_state \<Rightarrow> bool" where
  "bootstrap_inv L n es st \<longleftrightarrow>
     distinct (map fst (sequencer_votes st))
   \<and> (\<forall>(a, v) \<in> set (sequencer_votes st). voted es a v)
   \<and> (case (proposed_sequencer st, proposed_sequencer_txid st) of
        (None, None) \<Rightarrow> True
      | (Some a, Some t) \<Rightarrow> proposed es a t \<and> address_is_valid_for L a n
      | _ \<Rightarrow> False)
   \<and> (\<forall>a. bs_bridge_address st = Some a \<longrightarrow> address_is_valid_for L a n)
   \<and> (\<forall>a \<in> set (bs_verifier_addresses st). address_is_valid_for L a n)"

lemma bootstrap_inv_new: "bootstrap_inv L n [] bootstrap_state_new"
  by (simp add: bootstrap_inv_def bootstrap_state_new_def)

lemma bootstrap_inv_more_events:
  "bootstrap_inv L n es st \<Longrightarrow> bootstrap_inv L n (es @ es') st"
  by (fastforce simp: bootstrap_inv_def voted_def proposed_def split: option.splits)

lemma checked_verifiers:
  "res_map (\<lambda>a. unwrap (require_network L a n)) as = Ok bs \<Longrightarrow>
     bs = as \<and> (\<forall>a \<in> set as. address_is_valid_for L a n)"
  by (induction as arbitrary: bs) (auto simp: res_bind_Ok_iff)

lemma set_update_subset: "set (AList.update k v xs) \<subseteq> insert (k, v) (set xs)"
  by (induction xs) auto

lemma process_bootstrap_message_inv:
  assumes inv: "bootstrap_inv L n es st"
    and run: "process_bootstrap_message L n m t st = (Ok (), st')"
  shows "bootstrap_inv L n (es @ [(m, t)]) st'"
proof -
  note inv' = bootstrap_inv_more_events [OF inv, of "[(m, t)]"]
  show ?thesis
  proof (cases m)
    case (FullSystemBootstrapping sb)
    with run inv' show ?thesis
      by (auto simp: io_ok bootstrap_inv_def dest!: checked_verifiers split: option.splits)
  next
    case (FullProposeSequencer ps)
    with run inv' show ?thesis
      by (auto simp: io_ok bootstrap_inv_def proposed_def split: if_splits)
  next
    case (FullValidatorAttestation va)
    show ?thesis
    proof (cases "p2wpkh_address (common va) \<in> set (bs_verifier_addresses st)
        \<and> proposed_sequencer st \<noteq> None
        \<and> proposed_sequencer_txid st = Some (reference_txid (msg_input va))")
      case True
      then have st': "st' = st\<lparr>sequencer_votes := AList.update (p2wpkh_address (common va))
          (attestation (msg_input va)) (sequencer_votes st)\<rparr>"
        using run FullValidatorAttestation by (simp split: if_splits)
      have "proposed es (the (proposed_sequencer st)) (reference_txid (msg_input va))"
        using inv True by (auto simp: bootstrap_inv_def)
      then have "voted (es @ [(m, t)]) (p2wpkh_address (common va)) (attestation (msg_input va))"
        unfolding voted_def proposed_def FullValidatorAttestation by fastforce
      with inv' show ?thesis
        using set_update_subset by (fastforce simp: bootstrap_inv_def st' distinct_update)
    next
      case False
      then have "st' = st"
        using run FullValidatorAttestation by (auto split: option.splits if_splits)
      with inv' show ?thesis by simp
    qed
  qed (use run inv' in simp_all)
qed

lemma run_bootstrap_inv:
  "bootstrap_inv L n es st \<Longrightarrow> run_bootstrap L n es' st = (Ok (), st') \<Longrightarrow>
     bootstrap_inv L n (es @ es') st'"
proof (induction es' arbitrary: es st)
  case Nil
  then show ?case by (simp add: run_bootstrap_def)
next
  case (Cons e es')
  obtain m t where e: "e = (m, t)" by (cases e)
  then obtain s where step: "process_bootstrap_message L n m t st = (Ok (), s)"
    and rest: "run_bootstrap L n es' s = (Ok (), st')"
    using Cons.prems(2) by (auto simp: run_bootstrap_def io_ok)
  from Cons.IH [OF process_bootstrap_message_inv [OF Cons.prems(1) step] rest]
  show ?case by (simp add: e)
qed

lemma bootstrap_loop_run:
  assumes "bootstrap_loop L ops n txids s = (Ok (), s')"
  shows "\<exists>es. run_bootstrap L n es (br_state s) = (Ok (), br_state s')
    \<and> (\<forall>(m, t) \<in> set es. t \<in> set txids \<and> (\<exists>tx w w' p p' ms.
          ops_get_transaction ops t w = (Ok tx, w')
        \<and> parse_transaction L tx 0 p = (Ok ms, p') \<and> m \<in> set ms))"
  using assms
proof (induction txids arbitrary: s)
  case Nil
  then show ?case by (intro exI [of _ "[]"]) (simp add: run_bootstrap_def)
next
  case (Cons t txids)
  from Cons.prems obtain tx w where tx: "ops_get_transaction ops t (br_world s) = (Ok tx, w)"
    by (auto simp: io_ok)
  from Cons.prems tx obtain ms p where ms: "parse_transaction L tx 0 (br_parser s) = (Ok ms, p)"
    by (auto simp: io_ok)
  let ?es = "map (\<lambda>m. (m, t)) ms"
  from Cons.prems tx ms obtain st where
    st: "run_bootstrap L n ?es (br_state s) = (Ok (), st)"
    by (auto simp: io_ok process_bootstrap_messages_run)
  let ?s = "s\<lparr>br_world := w, br_parser := p, br_state := st\<rparr>"
  have rest: "(if is_complete st then io_return () else bootstrap_loop L ops n txids) ?s
      = (Ok (), s')"
    using Cons.prems tx ms st
    by (simp add: io_bind_def io_zoom_def io_map_err_def process_bootstrap_messages_run)
  show ?case
  proof (cases "is_complete st")
    case True
    then have "br_state s' = st" using rest by auto
    then show ?thesis using st tx ms by (intro exI [of _ ?es]) auto
  next
    case False
    then obtain es where
      es: "run_bootstrap L n es st = (Ok (), br_state s')"
      "\<forall>(m, t) \<in> set es. t \<in> set txids \<and> (\<exists>tx w w' p p' ms.
          ops_get_transaction ops t w = (Ok tx, w')
        \<and> parse_transaction L tx 0 p = (Ok ms, p') \<and> m \<in> set ms)"
      using Cons.IH [of ?s] rest by auto
    then have "run_bootstrap L n (?es @ es) (br_state s) = (Ok (), br_state s')"
      using st by (simp add: run_bootstrap_append io_bind_def)
    then show ?thesis using es(2) tx ms by (intro exI [of _ "?es @ es"]) fastforce
  qed
qed

lemma create_indexer_Ok_iff:
  "create_indexer st parser = Ok ix \<longleftrightarrow>
     is_complete st \<and> ix_parser ix = parser
   \<and> bs_bridge_address st = Some (ix_bridge_address ix)
   \<and> proposed_sequencer st = Some (sequencer_address ix)
   \<and> ix_verifier_addresses ix = bs_verifier_addresses st
   \<and> starting_block_number ix = bs_starting_block_number st"
  by (auto simp: create_indexer_def is_complete_def split: option.splits)

text \<open>A bootstrapped indexer: who proposed its sequencer and who voted for it.\<close>

definition quorum :: "address list \<Rightarrow> (address \<times> vote) list \<Rightarrow> bool" where
  "quorum verifiers votes \<longleftrightarrow>
     distinct (map fst votes) \<and> length votes = length verifiers
   \<and> length verifiers < 2 * length (filter (\<lambda>(a, v). v = Vote_Ok) votes)"

lemma majority_quorum:
  "bootstrap_inv L n es st \<Longrightarrow> has_majority_votes st \<Longrightarrow>
     quorum (bs_verifier_addresses st) (sequencer_votes st)"
  by (auto simp: bootstrap_inv_def has_majority_votes_def quorum_def Let_def comp_def
      case_prod_unfold)

lemma indexer_new_run:
  assumes "indexer_new L ops n txids w = (Ok ix, w')"
  shows "\<exists>es st. run_bootstrap L n es bootstrap_state_new = (Ok (), st)
    \<and> bootstrap_inv L n es st
    \<and> (\<exists>parser. create_indexer st parser = Ok ix)
    \<and> (\<forall>(m, t) \<in> set es. t \<in> set txids \<and> (\<exists>tx w w' p p' ms.
          ops_get_transaction ops t w = (Ok tx, w')
        \<and> parse_transaction L tx 0 p = (Ok ms, p') \<and> m \<in> set ms))"
proof -
  let ?s = "\<lparr>br_parser = message_parser_new n, br_state = bootstrap_state_new, br_world = w\<rparr>"
  obtain s where loop: "bootstrap_loop L ops n txids ?s = (Ok (), s)"
    and create: "create_indexer (br_state s) (br_parser s) = Ok ix"
    using assms by (auto simp: indexer_new_def split: prod.splits res.splits)
  from bootstrap_loop_run [OF loop] obtain es where
    es: "run_bootstrap L n es bootstrap_state_new = (Ok (), br_state s)"
    "\<forall>(m, t) \<in> set es. t \<in> set txids \<and> (\<exists>tx w w' p p' ms.
          ops_get_transaction ops t w = (Ok tx, w')
        \<and> parse_transaction L tx 0 p = (Ok ms, p') \<and> m \<in> set ms)"
    by auto
  from run_bootstrap_inv [OF bootstrap_inv_new es(1)] have "bootstrap_inv L n es (br_state s)"
    by simp
  with es create show ?thesis by blast
qed

section \<open>Correctness of block processing\<close>

lemma set_block_range: "h \<in> set (block_range a b) \<longleftrightarrow> a \<le> h \<and> h \<le> b"
proof
  assume "h \<in> set (block_range a b)"
  then obtain k where k: "h = of_nat k" "unat a \<le> k" "k \<le> unat b"
    by (auto simp: block_range_def)
  have "k < 2 ^ 32" using k(3) unsigned_less [of b, where 'a = nat] by simp
  then have "unat h = k" using k(1) by (simp add: unat_of_nat)
  then show "a \<le> h \<and> h \<le> b" using k by (simp add: word_le_nat_alt)
next
  assume "a \<le> h \<and> h \<le> b"
  then have "unat h \<in> set [unat a ..< Suc (unat b)]" by (auto simp: word_le_nat_alt)
  then have "(of_nat (unat h) :: u32) \<in> of_nat ` set [unat a ..< Suc (unat b)]"
    by (rule imageI)
  then have "of_nat (unat h) \<in> set (block_range a b)"
    by (simp only: block_range_def set_map)
  then show "h \<in> set (block_range a b)" by simp
qed

lemma process_block_messages:
  assumes "process_block L ops h s = (Ok ms, s')" "m \<in> set ms"
  shows "cf_block_height (common_of_full m) = h"
    and "starting_block_number (fst s) \<le> h"
proof -
  from assms(1) show "starting_block_number (fst s) \<le> h"
    by (auto simp: process_block_def split: if_splits)
  from assms obtain txs p p' mss where
    "io_map (\<lambda>tx. parse_transaction L tx h) txs p = (Ok mss, p')" "m \<in> set (concat mss)"
    by (auto simp: process_block_def parse_block_def io_ok split: if_splits)
  then have "\<exists>tx u v ms. parse_transaction L tx h u = (Ok ms, v) \<and> m \<in> set ms"
    by (fastforce dest!: io_map_Ok_list_all2 simp: list_all2_conv_all_nth in_set_conv_nth)
  then show "cf_block_height (common_of_full m) = h"
    by (auto dest: parse_transaction_common(1))
qed

lemma process_block_keeps:
  "io_pres (\<lambda>s. starting_block_number (fst s) = k \<and> ix_bridge_address (fst s) = b)
     (process_block L ops h)"
  unfolding process_block_def
  by (intro io_pres_intro) (auto simp: io_pres_def io_zoom_def split: prod.splits)

lemma process_blocks_messages:
  assumes "process_blocks L ops a b s = (Ok ms, s')" "m \<in> set ms"
  shows "a \<le> cf_block_height (common_of_full m)" "cf_block_height (common_of_full m) \<le> b"
proof -
  from assms obtain mss where
    run: "io_map (process_block L ops) (block_range a b) s = (Ok mss, s')"
    and "m \<in> set (concat mss)"
    by (auto simp: process_blocks_def io_ok)
  then obtain h ms' u v where h: "h \<in> set (block_range a b)" and m: "m \<in> set ms'"
    and step: "process_block L ops h u = (Ok ms', v)"
    by (fastforce dest!: io_map_Ok_list_all2 simp: list_all2_conv_all_nth in_set_conv_nth)
  from process_block_messages(1) [OF step m] h
  show "a \<le> cf_block_height (common_of_full m)" "cf_block_height (common_of_full m) \<le> b"
    by (simp_all add: set_block_range)
qed

end
