(* ===== verification/Inscriber_Fee.thy ===== *)
theory Inscriber_Fee
  imports Btc_Types
begin

text \<open>
  The fee estimate of the inscriber (\<^verbatim>\<open>core/lib/via_btc_client/src/inscriber/fee.rs\<close>).  Sizes
  are 64-bit \<^verbatim>\<open>usize\<close> values and the arithmetic wraps, as in a release build.
\<close>

type_synonym usize = "64 word"

definition GENERAL_BASE_SIZE :: usize where "GENERAL_BASE_SIZE = 11"
definition P2WPKH_INPUT_BASE_SIZE :: usize where "P2WPKH_INPUT_BASE_SIZE = 69"
definition P2TR_INPUT_BASE_SIZE :: usize where "P2TR_INPUT_BASE_SIZE = 61"
definition P2WPKH_OUTPUT_BASE_SIZE :: usize where "P2WPKH_OUTPUT_BASE_SIZE = 34"
definition P2TR_OUTPUT_BASE_SIZE :: usize where "P2TR_OUTPUT_BASE_SIZE = 43"
definition VIRTUAL_SIZE_DIVIDER :: usize where "VIRTUAL_SIZE_DIVIDER = 4"

lemmas fee_sizes =
  GENERAL_BASE_SIZE_def P2WPKH_INPUT_BASE_SIZE_def P2TR_INPUT_BASE_SIZE_def
  P2WPKH_OUTPUT_BASE_SIZE_def P2TR_OUTPUT_BASE_SIZE_def VIRTUAL_SIZE_DIVIDER_def

definition checked_div :: "usize \<Rightarrow> usize \<Rightarrow> usize option" where
  "checked_div a b = (if b = 0 then None else Some (a div b))"

fun p2tr_input_size :: "usize list \<Rightarrow> usize \<Rightarrow> (bitcoin_error, usize) res" where
  "p2tr_input_size [] acc = Ok acc"
| "p2tr_input_size (witness_size # ws) acc =
     res_bind (res_of_option (FeeEstimationFailed ''Invalid witness size'')
         (checked_div witness_size VIRTUAL_SIZE_DIVIDER)) (\<lambda>witness_virtual_size.
     p2tr_input_size ws (acc + (P2TR_INPUT_BASE_SIZE + witness_virtual_size + 1)))"

definition estimate_transaction_size ::
    "u32 \<Rightarrow> u32 \<Rightarrow> u32 \<Rightarrow> u32 \<Rightarrow> usize list \<Rightarrow> (bitcoin_error, usize) res" where
  "estimate_transaction_size p2wpkh_inputs_count p2tr_inputs_count p2wpkh_outputs_count
     p2tr_outputs_count p2tr_witness_sizes =
     (if p2tr_inputs_count \<noteq> of_nat (length p2tr_witness_sizes)
      then Err (FeeEstimationFailed ''Invalid witness sizes count'')
      else
       let p2wpkh_input_size = P2WPKH_INPUT_BASE_SIZE * ucast p2wpkh_inputs_count in
       res_bind (p2tr_input_size p2tr_witness_sizes 0) (\<lambda>p2tr_size.
       let p2wpkh_output_size = P2WPKH_OUTPUT_BASE_SIZE * ucast p2wpkh_outputs_count;
           p2tr_output_size = P2TR_OUTPUT_BASE_SIZE * ucast p2tr_outputs_count
       in Ok (GENERAL_BASE_SIZE + p2wpkh_input_size + p2tr_size + p2wpkh_output_size
            + p2tr_output_size)))"

definition estimate_fee ::
    "u32 \<Rightarrow> u32 \<Rightarrow> u32 \<Rightarrow> u32 \<Rightarrow> usize list \<Rightarrow> u64 \<Rightarrow> (bitcoin_error, amount) res" where
  "estimate_fee p2wpkh_inputs_count p2tr_inputs_count p2wpkh_outputs_count p2tr_outputs_count
     p2tr_witness_sizes fee_rate =
     res_bind (estimate_transaction_size p2wpkh_inputs_count p2tr_inputs_count
         p2wpkh_outputs_count p2tr_outputs_count p2tr_witness_sizes) (\<lambda>transaction_size.
     let fee = transaction_size * fee_rate in Ok fee)"

section \<open>The estimate as a number\<close>

text \<open>The transaction size the constants describe, over the naturals.\<close>

definition size_spec :: "nat \<Rightarrow> nat \<Rightarrow> nat \<Rightarrow> nat list \<Rightarrow> nat" where
  "size_spec wpkh_in wpkh_out tr_out witnesses =
     11 + 69 * wpkh_in + sum_list (map (\<lambda>w. 62 + w div 4) witnesses)
     + 34 * wpkh_out + 43 * tr_out"

lemma checked_div_divider [simp]: "checked_div w VIRTUAL_SIZE_DIVIDER = Some (w div 4)"
  by (simp add: checked_div_def VIRTUAL_SIZE_DIVIDER_def)

lemma p2tr_input_size_eq:
  "p2tr_input_size ws acc = Ok (acc + sum_list (map (\<lambda>w. 62 + w div 4) ws))"
proof (induction ws arbitrary: acc)
  case (Cons w ws)
  then show ?case by (simp add: P2TR_INPUT_BASE_SIZE_def ac_simps)
qed simp

lemma of_nat_size_spec:
  "(of_nat (size_spec a b c (map unat ws)) :: usize) =
     11 + 69 * of_nat a + sum_list (map (\<lambda>w. 62 + w div 4) ws) + 34 * of_nat b + 43 * of_nat c"
proof -
  have "(of_nat (sum_list (map (\<lambda>w. 62 + w div 4) (map unat ws))) :: usize)
      = sum_list (map (\<lambda>w. 62 + w div 4) ws)"
  proof (induction ws)
    case (Cons w ws)
    have "(of_nat (unat w div 4) :: usize) = w div 4"
      by (simp add: word_arith_nat_div)
    with Cons show ?case by simp
  qed simp
  then show ?thesis by (simp add: size_spec_def)
qed

lemma ucast_of_unat: "(ucast (x :: u32) :: usize) = of_nat (unat x)"
  by (simp add: unsigned_ucast_eq)

lemma estimate_transaction_size_eq:
  "estimate_transaction_size a b c d ws =
     (if b = of_nat (length ws)
      then Ok (of_nat (size_spec (unat a) (unat c) (unat d) (map unat ws)))
      else Err (FeeEstimationFailed ''Invalid witness sizes count''))"
  unfolding estimate_transaction_size_def Let_def p2tr_input_size_eq of_nat_size_spec
    fee_sizes ucast_of_unat
  by simp

lemma estimate_fee_eq:
  "estimate_fee a b c d ws rate =
     (if b = of_nat (length ws)
      then Ok (of_nat (size_spec (unat a) (unat c) (unat d) (map unat ws)) * rate)
      else Err (FeeEstimationFailed ''Invalid witness sizes count''))"
  by (simp add: estimate_fee_def estimate_transaction_size_eq)

end
