(* ===== verification/Signer.thy ===== *)
theory Signer
  imports Message_Parser
begin

text \<open>
  The signer (\<^verbatim>\<open>core/lib/via_btc_client/src/signer/mod.rs\<close> and the trait \<^verbatim>\<open>BitcoinSigner\<close> of
  \<^verbatim>\<open>traits.rs\<close>).  The key arithmetic of \<^verbatim>\<open>secp256k1\<close> is the record \<open>key_lib\<close>.
\<close>

section \<open>The trait\<close>

record btc_signer =
  get_p2wpkh_address :: "(bitcoin_error, address) res"
  get_p2wpkh_script_pubkey :: script
  get_internal_key :: "(bitcoin_error, bytes) res"
  sign_ecdsa :: "bytes \<Rightarrow> (bitcoin_error, ecdsa_signature) res"
  sign_schnorr :: "bytes \<Rightarrow> (bitcoin_error, schnorr_signature) res"
  get_public_key :: public_key

section \<open>The key manager\<close>

datatype private_key = PrivateKey nat
datatype secret_key = SecretKey nat

record key_lib =
  private_key_from_wif :: "bytes \<Rightarrow> (string, private_key) res"
  private_key_inner :: "private_key \<Rightarrow> secret_key"
  public_key_of :: "secret_key \<Rightarrow> public_key"
  wpubkey_hash :: "public_key \<Rightarrow> bytes option"
  compressed_from_private_key :: "private_key \<Rightarrow> (string, public_key) res"
  x_only_public_key :: "secret_key \<Rightarrow> bytes"
  script_new_p2wpkh :: "bytes \<Rightarrow> script"
  secp_sign_ecdsa :: "bytes \<Rightarrow> secret_key \<Rightarrow> ecdsa_signature"
  secp_sign_schnorr_no_aux_rand :: "bytes \<Rightarrow> secret_key \<Rightarrow> schnorr_signature"

text \<open>The keypair is determined by the secret key.\<close>

record key_manager =
  km_sk :: secret_key
  km_address :: address
  km_internal_key :: bytes
  km_script_pubkey :: script

definition key_manager_new ::
    "btc_lib \<Rightarrow> key_lib \<Rightarrow> bytes \<Rightarrow> network \<Rightarrow> (bitcoin_error, key_manager) res" where
  "key_manager_new L K private_key_wif_str network =
     res_bind (res_map_err InvalidPrivateKey (private_key_from_wif K private_key_wif_str))
       (\<lambda>private_key.
     let sk = private_key_inner K private_key;
         pk = public_key_of K sk
     in
     res_bind (res_of_option (UncompressedPublicKeyError ''key is compressed'')
         (wpubkey_hash K pk)) (\<lambda>wpkh.
     res_bind (res_map_err CompressedPublicKeyError (compressed_from_private_key K private_key))
       (\<lambda>compressed_pk.
     Ok \<lparr>km_sk = sk,
         km_address = address_p2wpkh L compressed_pk network,
         km_internal_key = x_only_public_key K sk,
         km_script_pubkey = script_new_p2wpkh K wpkh\<rparr>)))"

definition key_manager_signer :: "key_lib \<Rightarrow> key_manager \<Rightarrow> btc_signer" where
  "key_manager_signer K km =
     \<lparr>get_p2wpkh_address = Ok (km_address km),
      get_p2wpkh_script_pubkey = km_script_pubkey km,
      get_internal_key = Ok (km_internal_key km),
      sign_ecdsa = (\<lambda>msg. Ok (secp_sign_ecdsa K msg (km_sk km))),
      sign_schnorr = (\<lambda>msg. Ok (secp_sign_schnorr_no_aux_rand K msg (km_sk km))),
      get_public_key = public_key_of K (km_sk km)\<rparr>"

section \<open>What the inscriber relies on\<close>

text \<open>
  The signer of a network: its address is the P2WPKH address of its public key, the script it
  reports is the script of that address, and its internal key has the 32 bytes of an x-only key.
\<close>

definition signer_ok :: "btc_lib \<Rightarrow> network \<Rightarrow> btc_signer \<Rightarrow> bool" where
  "signer_ok L n sg \<longleftrightarrow>
     is_compressed L (get_public_key sg)
   \<and> get_p2wpkh_address sg = Ok (address_p2wpkh L (get_public_key sg) n)
   \<and> get_p2wpkh_script_pubkey sg
       = address_script_pubkey L (address_p2wpkh L (get_public_key sg) n)
   \<and> (\<exists>k. get_internal_key sg = Ok k \<and> length k = 32)"

text \<open>
  Documented behaviour of the key library: the compressed key of a private key is the public key
  of its secret, the script of the P2WPKH address of a key is built from the key's hash, and
  x-only keys have 32 bytes.
\<close>

definition key_lib_ok :: "btc_lib \<Rightarrow> key_lib \<Rightarrow> bool" where
  "key_lib_ok L K \<longleftrightarrow>
     (\<forall>k pk. compressed_from_private_key K k = Ok pk \<longrightarrow>
        pk = public_key_of K (private_key_inner K k) \<and> is_compressed L pk)
   \<and> (\<forall>pk h n. wpubkey_hash K pk = Some h \<longrightarrow>
        script_new_p2wpkh K h = address_script_pubkey L (address_p2wpkh L pk n))
   \<and> (\<forall>sk. length (x_only_public_key K sk) = 32)"

lemma key_manager_signer_ok:
  assumes "key_lib_ok L K" and "key_manager_new L K wif n = Ok km"
  shows "signer_ok L n (key_manager_signer K km)"
  using assms
  by (auto simp: key_manager_new_def key_manager_signer_def signer_ok_def key_lib_ok_def
      res_bind_Ok_iff Let_def)

lemma signer_p2wpkh_witness:
  assumes "lib_p2wpkh_witness L" and "signer_ok L n sg"
  shows "parse_p2wpkh L n (witness_p2wpkh L sig (get_public_key sg))
       = Some (address_p2wpkh L (get_public_key sg) n)"
proof -
  obtain a b where "witness_p2wpkh L sig (get_public_key sg) = [a, b]"
    "public_key_from_slice L b = Some (get_public_key sg)"
    using assms(1) unfolding lib_p2wpkh_witness_def by blast
  then show ?thesis using assms(2) by (simp add: parse_p2wpkh_def signer_ok_def)
qed

end
