(* ===== verification/Inscriber.thy ===== *)
theory Inscriber
  imports Script_Builder Btc_Client Inscriber_Fee Signer
begin

text \<open>
  The inscriber (\<^verbatim>\<open>core/lib/via_btc_client/src/inscriber/mod.rs\<close>): the queue of pending
  inscriptions and its synchronisation with the chain, the choice of the commit transaction's
  inputs, the two transactions of an inscription, their signing and broadcast.  A method runs on
  the queue and the Bitcoin node; both keep what was done when it fails.  The operator \<^verbatim>\<open>+\<close> on
  amounts panics on overflow; \<^verbatim>\<open>u64\<close> arithmetic on fee rates wraps.
\<close>

section \<open>Data\<close>

definition CTX_REQUIRED_CONFIRMATIONS :: u32 where "CTX_REQUIRED_CONFIRMATIONS = 1"
definition FEE_RATE_CONF_TARGET :: u16 where "FEE_RATE_CONF_TARGET = 1"
definition COMMIT_TX_CHANGE_OUTPUT_INDEX :: u32 where "COMMIT_TX_CHANGE_OUTPUT_INDEX = 0"
definition COMMIT_TX_TAPSCRIPT_OUTPUT_INDEX :: u32 where "COMMIT_TX_TAPSCRIPT_OUTPUT_INDEX = 1"
definition REVEAL_TX_CHANGE_OUTPUT_INDEX :: u32 where "REVEAL_TX_CHANGE_OUTPUT_INDEX = 0"
definition REVEAL_TX_FEE_INPUT_INDEX :: u32 where "REVEAL_TX_FEE_INPUT_INDEX = 0"
definition REVEAL_TX_TAPSCRIPT_REVEAL_INDEX :: u32 where "REVEAL_TX_TAPSCRIPT_REVEAL_INDEX = 1"
definition FEE_RATE_INCREASE_PER_PENDING_TX :: u64 where "FEE_RATE_INCREASE_PER_PENDING_TX = 5"
definition COMMIT_TX_P2TR_OUTPUT_COUNT :: u32 where "COMMIT_TX_P2TR_OUTPUT_COUNT = 1"
definition COMMIT_TX_P2WPKH_OUTPUT_COUNT :: u32 where "COMMIT_TX_P2WPKH_OUTPUT_COUNT = 1"
definition COMMIT_TX_P2TR_INPUT_COUNT :: u32 where "COMMIT_TX_P2TR_INPUT_COUNT = 0"
definition REVEAL_TX_P2TR_OUTPUT_COUNT :: u32 where "REVEAL_TX_P2TR_OUTPUT_COUNT = 0"
definition REVEAL_TX_P2WPKH_OUTPUT_COUNT :: u32 where "REVEAL_TX_P2WPKH_OUTPUT_COUNT = 1"
definition REVEAL_TX_P2TR_INPUT_COUNT :: u32 where "REVEAL_TX_P2TR_INPUT_COUNT = 1"
definition REVEAL_TX_P2WPKH_INPUT_COUNT :: u32 where "REVEAL_TX_P2WPKH_INPUT_COUNT = 1"
definition ENABLE_RBF_NO_LOCKTIME :: u32 where "ENABLE_RBF_NO_LOCKTIME = 0xFFFFFFFD"

lemmas tx_layout =
  COMMIT_TX_CHANGE_OUTPUT_INDEX_def COMMIT_TX_TAPSCRIPT_OUTPUT_INDEX_def
  REVEAL_TX_CHANGE_OUTPUT_INDEX_def REVEAL_TX_FEE_INPUT_INDEX_def
  REVEAL_TX_TAPSCRIPT_REVEAL_INDEX_def

lemmas tx_counts =
  COMMIT_TX_P2TR_OUTPUT_COUNT_def COMMIT_TX_P2WPKH_OUTPUT_COUNT_def
  COMMIT_TX_P2TR_INPUT_COUNT_def REVEAL_TX_P2TR_OUTPUT_COUNT_def
  REVEAL_TX_P2WPKH_OUTPUT_COUNT_def REVEAL_TX_P2TR_INPUT_COUNT_def
  REVEAL_TX_P2WPKH_INPUT_COUNT_def

datatype inscriber_error =
    ClientError bitcoin_error
  | SignerError bitcoin_error
  | ScriptError script_error
  | FeeError bitcoin_error
  | InsufficientFunds (required: amount) (spendable: amount)
  | SighashError
  | WitnessError
  | ControlBlockError
  | PrepareError inscriber_error

record commit_tx_input_res =
  commit_tx_inputs :: "tx_in list"
  unlocked_value :: amount
  inputs_count :: u32
  utxo_amounts :: "amount list"

record commit_tx_output_res =
  commit_tx_change_output :: tx_out
  commit_tx_tapscript_output :: tx_out
  co_commit_tx_fee_rate :: u64
  commit_tx_fee :: amount

record reveal_tx_input_res =
  reveal_tx_input :: "tx_in list"
  prev_outs :: "tx_out list"
  unlock_value :: amount
  ri_control_block :: control_block

record reveal_tx_output_res =
  reveal_tx_change_output :: tx_out
  recipient_tx_output :: "tx_out option"
  reveal_fee_rate :: u64
  reveal_fee :: amount

record final_tx =
  ftx_tx :: transaction
  ftx_txid :: txid

record inscriber_info =
  final_commit_tx :: final_tx
  final_reveal_tx :: final_tx
  commit_tx_output_info :: commit_tx_output_res
  reveal_tx_output_info :: reveal_tx_output_res
  commit_tx_input_info :: commit_tx_input_res

record 'w inscriber =
  ins_client :: "'w btc_ops"
  ins_signer :: btc_signer

type_synonym ('w, 'a) ins_m = "(inscriber_context \<times> 'w, inscriber_error, 'a) io"

definition on_client :: "('w, bitcoin_error, 'a) io \<Rightarrow> ('w, 'a) ins_m" where
  "on_client m = io_zoom snd (\<lambda>w s. (fst s, w)) (io_map_err ClientError m)"

abbreviation signer_res :: "(bitcoin_error, 'a) res \<Rightarrow> ('w, 'a) ins_m" where
  "signer_res r \<equiv> io_lift (res_map_err SignerError r)"

section \<open>Balance and queue\<close>

definition inscriber_get_balance :: "'w inscriber \<Rightarrow> ('w, u128) ins_m" where
  "inscriber_get_balance I =
     io_bind (signer_res (get_p2wpkh_address (ins_signer I))) (\<lambda>a.
       on_client (ops_get_balance (ins_client I) a))"

text \<open>The loop pops the front, asks for its reveal transaction's confirmation, and puts it back
  when it is not confirmed.\<close>

fun sync_queue ::
    "'w btc_ops \<Rightarrow> inscription_request list \<Rightarrow> 'w \<Rightarrow>
       (inscriber_error, unit) res \<times> (inscription_request list \<times> 'w)" where
  "sync_queue ops [] w = (Ok (), [], w)"
| "sync_queue ops (r # q) w =
     (case ops_check_tx_confirmation ops (fee_payer_utxo_txid (fee_payer r))
             CTX_REQUIRED_CONFIRMATIONS w of
        (Ok confirmed, w') \<Rightarrow> if confirmed then sync_queue ops q w' else (Ok (), r # q, w')
      | (Err e, w') \<Rightarrow> (Err (ClientError e), q, w')
      | (Panic, w') \<Rightarrow> (Panic, q, w'))"

definition sync_context_with_blockchain :: "'w inscriber \<Rightarrow> ('w, unit) ins_m" where
  "sync_context_with_blockchain I s =
     (case sync_queue (ins_client I) (fifo_queue (fst s)) (snd s) of
        (r, q, w) \<Rightarrow> (r, (fst s)\<lparr>fifo_queue := q\<rparr>, w))"

definition get_context_snapshot :: "('w, inscriber_context) ins_m" where
  "get_context_snapshot = io_get fst"

definition recreate_context_from_snapshot :: "inscriber_context \<Rightarrow> ('w, unit) ins_m" where
  "recreate_context_from_snapshot snapshot = io_modify (\<lambda>s. (snapshot, snd s))"

section \<open>The commit transaction\<close>

text \<open>The outputs a pending inscription spends or hands on; the reveal change of the last one in
  the queue is still free.\<close>

definition spent_by :: "inscription_request \<Rightarrow> out_point list" where
  "spent_by r = map previous_output (spent_utxo (commit_inputs r))
     @ [\<lparr>op_txid = commit_txid (inscriber_out r), op_vout = REVEAL_TX_FEE_INPUT_INDEX\<rparr>]"

definition reveal_change_of :: "inscription_request \<Rightarrow> out_point" where
  "reveal_change_of r =
     \<lparr>op_txid = reveal_txid (inscriber_out r), op_vout = REVEAL_TX_CHANGE_OUTPUT_INDEX\<rparr>"

fun spent_utxos :: "inscription_request list \<Rightarrow> out_point list" where
  "spent_utxos [] = []"
| "spent_utxos [r] = spent_by r"
| "spent_utxos (r # r' # q) = spent_by r @ [reveal_change_of r] @ spent_utxos (r' # q)"

definition is_p2wpkh :: "btc_signer \<Rightarrow> script \<Rightarrow> bool" where
  "is_p2wpkh sg spk \<longleftrightarrow> spk = get_p2wpkh_script_pubkey sg"

text \<open>The wallet's outputs that no pending inscription uses, then the change of the head of the
  queue.\<close>

definition spendable_utxos ::
    "btc_signer \<Rightarrow> inscription_request list \<Rightarrow> (out_point \<times> tx_out) list \<Rightarrow>
       (out_point \<times> tx_out) list" where
  "spendable_utxos sg q utxos =
     filter (\<lambda>u. fst u \<notin> set (spent_utxos q) \<and> is_p2wpkh sg (script_pubkey (snd u))) utxos
     @ (case q of
          [] \<Rightarrow> []
        | head_inscription # _ \<Rightarrow>
            [(\<lparr>op_txid = reveal_txid (inscriber_out head_inscription),
               op_vout = fee_payer_utxo_vout (fee_payer head_inscription)\<rparr>,
              \<lparr>txo_value = fee_payer_utxo_value (fee_payer head_inscription),
               script_pubkey = get_p2wpkh_script_pubkey sg\<rparr>)])"

definition unsigned_input :: "out_point \<Rightarrow> tx_in" where
  "unsigned_input outpoint =
     \<lparr>previous_output = outpoint, script_sig = [], sequence_no = ENABLE_RBF_NO_LOCKTIME,
      witness = []\<rparr>"

fun gather_inputs ::
    "btc_lib \<Rightarrow> (out_point \<times> tx_out) list \<Rightarrow> commit_tx_input_res \<Rightarrow>
       ('e, commit_tx_input_res) res" where
  "gather_inputs L [] acc = Ok acc"
| "gather_inputs L ((outpoint, txout) # utxos) acc =
     res_bind (unwrap (amount_add L (unlocked_value acc) (txo_value txout))) (\<lambda>v.
     gather_inputs L utxos
       \<lparr>commit_tx_inputs = commit_tx_inputs acc @ [unsigned_input outpoint],
        unlocked_value = v,
        inputs_count = inputs_count acc + 1,
        utxo_amounts = utxo_amounts acc @ [txo_value txout]\<rparr>)"

definition prepare_commit_tx_input ::
    "btc_lib \<Rightarrow> 'w inscriber \<Rightarrow> ('w, commit_tx_input_res) ins_m" where
  "prepare_commit_tx_input L I =
     io_bind (signer_res (get_p2wpkh_address (ins_signer I))) (\<lambda>a.
     io_bind (on_client (ops_fetch_utxos (ins_client I) a)) (\<lambda>utxos.
     io_bind (io_get (fifo_queue \<circ> fst)) (\<lambda>q.
     io_lift (gather_inputs L (spendable_utxos (ins_signer I) q utxos)
       \<lparr>commit_tx_inputs = [], unlocked_value = 0, inputs_count = 0, utxo_amounts = []\<rparr>))))"

definition get_fee_rate :: "'w inscriber \<Rightarrow> ('w, u64) ins_m" where
  "get_fee_rate I = on_client (ops_get_fee_rate (ins_client I) FEE_RATE_CONF_TARGET)"

definition prepare_commit_tx_output ::
    "btc_lib \<Rightarrow> 'w inscriber \<Rightarrow> commit_tx_input_res \<Rightarrow> script \<Rightarrow> inscription_config \<Rightarrow>
       ('w, commit_tx_output_res) ins_m" where
  "prepare_commit_tx_output L I tx_input_data inscription_pubkey config =
     io_bind (get_fee_rate I) (\<lambda>base_rate.
     io_bind (io_get (length \<circ> fifo_queue \<circ> fst)) (\<lambda>pending_tx_in_context.
     let increase_factor = (FEE_RATE_INCREASE_PER_PENDING_TX * fee_multiplier config)
           * of_nat pending_tx_in_context;
         fee_rate = base_rate + base_rate * increase_factor div 100
     in
     io_bind (io_lift (res_map_err FeeError (estimate_fee (inputs_count tx_input_data)
         COMMIT_TX_P2TR_INPUT_COUNT COMMIT_TX_P2WPKH_OUTPUT_COUNT COMMIT_TX_P2TR_OUTPUT_COUNT
         [] fee_rate))) (\<lambda>fee_amount.
     io_bind (io_lift (res_of_option (InsufficientFunds fee_amount (unlocked_value tx_input_data))
         (amount_checked_sub L (unlocked_value tx_input_data) fee_amount))) (\<lambda>change_value.
     io_return
       \<lparr>commit_tx_change_output =
          \<lparr>txo_value = change_value,
           script_pubkey = get_p2wpkh_script_pubkey (ins_signer I)\<rparr>,
        commit_tx_tapscript_output = \<lparr>txo_value = 0, script_pubkey = inscription_pubkey\<rparr>,
        co_commit_tx_fee_rate = fee_rate,
        commit_tx_fee = fee_amount\<rparr>))))"

section \<open>Signing\<close>

text \<open>\<^verbatim>\<open>witness_mut(index)\<close>: fails when there is no such input.\<close>

definition set_witness ::
    "nat \<Rightarrow> bytes list \<Rightarrow> transaction \<Rightarrow> (inscriber_error, transaction) res" where
  "set_witness index w tx =
     (if index < length (tx_input tx)
      then Ok (tx\<lparr>tx_input := (tx_input tx)[index := (tx_input tx ! index)\<lparr>witness := w\<rparr>]\<rparr>)
      else Err WitnessError)"

definition sign_p2wpkh_input ::
    "btc_lib \<Rightarrow> btc_signer \<Rightarrow> nat \<Rightarrow> amount \<Rightarrow> transaction \<Rightarrow>
       (inscriber_error, transaction) res" where
  "sign_p2wpkh_input L sg index value tx =
     res_bind (res_of_option SighashError
         (p2wpkh_signature_hash L tx index (get_p2wpkh_script_pubkey sg) value)) (\<lambda>sighash.
     res_bind (res_map_err SignerError (sign_ecdsa sg sighash)) (\<lambda>sig.
     set_witness index (witness_p2wpkh L sig (get_public_key sg)) tx))"

fun sign_commit_inputs ::
    "btc_lib \<Rightarrow> btc_signer \<Rightarrow> amount list \<Rightarrow> nat list \<Rightarrow> transaction \<Rightarrow>
       (inscriber_error, transaction) res" where
  "sign_commit_inputs L sg amounts [] tx = Ok tx"
| "sign_commit_inputs L sg amounts (index # indices) tx =
     res_bind (unwrap (get_at amounts index)) (\<lambda>value.
     res_bind (sign_p2wpkh_input L sg index value tx) (\<lambda>tx'.
     sign_commit_inputs L sg amounts indices tx'))"

definition make_final_tx :: "btc_lib \<Rightarrow> transaction \<Rightarrow> final_tx" where
  "make_final_tx L tx = \<lparr>ftx_tx = tx, ftx_txid = compute_txid L tx\<rparr>"

definition sign_commit_tx ::
    "btc_lib \<Rightarrow> btc_signer \<Rightarrow> commit_tx_input_res \<Rightarrow> commit_tx_output_res \<Rightarrow>
       (inscriber_error, final_tx) res" where
  "sign_commit_tx L sg inp outp =
     (let unsigned_commit_tx =
        \<lparr>tx_version = 2, lock_time = 0, tx_input = commit_tx_inputs inp,
         tx_output = [commit_tx_change_output outp, commit_tx_tapscript_output outp]\<rparr>
      in res_bind (sign_commit_inputs L sg (utxo_amounts inp)
           [0 ..< length (commit_tx_inputs inp)] unsigned_commit_tx) (\<lambda>commit_tx.
         Ok (make_final_tx L commit_tx)))"

section \<open>The reveal transaction\<close>

definition prepare_reveal_tx_input ::
    "btc_lib \<Rightarrow> 'w inscriber \<Rightarrow> commit_tx_output_res \<Rightarrow> final_tx \<Rightarrow> inscription_data \<Rightarrow>
       (inscriber_error, reveal_tx_input_res) res" where
  "prepare_reveal_tx_input L I commit_output commit_tx data =
     (let fee_payer_outpoint =
            \<lparr>op_txid = ftx_txid commit_tx, op_vout = COMMIT_TX_CHANGE_OUTPUT_INDEX\<rparr>;
          fee_payer_txout =
            \<lparr>txo_value = txo_value (commit_tx_change_output commit_output),
             script_pubkey = get_p2wpkh_script_pubkey (ins_signer I)\<rparr>
      in
      res_bind (res_of_option ControlBlockError
          (taproot_control_block L (spend_info data) (inscription_script data))) (\<lambda>cb.
      let taproot_address =
            address_p2tr_tweaked L (spend_info data) (ops_get_network (ins_client I));
          reveal_outpoint =
            \<lparr>op_txid = ftx_txid commit_tx, op_vout = COMMIT_TX_TAPSCRIPT_OUTPUT_INDEX\<rparr>;
          reveal_txout =
            \<lparr>txo_value = txo_value (commit_tx_tapscript_output commit_output),
             script_pubkey = address_script_pubkey L taproot_address\<rparr>
      in
      res_bind (unwrap (amount_add L (txo_value fee_payer_txout) (txo_value reveal_txout)))
        (\<lambda>value.
      Ok \<lparr>reveal_tx_input = [unsigned_input fee_payer_outpoint, unsigned_input reveal_outpoint],
          prev_outs = [fee_payer_txout, reveal_txout],
          unlock_value = value,
          ri_control_block = cb\<rparr>)))"

definition prepare_reveal_tx_output ::
    "btc_lib \<Rightarrow> 'w inscriber \<Rightarrow> reveal_tx_input_res \<Rightarrow> inscription_data \<Rightarrow> recipient option \<Rightarrow>
       ('w, reveal_tx_output_res) ins_m" where
  "prepare_reveal_tx_output L I tx_input_data data rcpt =
     io_bind (get_fee_rate I) (\<lambda>fee_rate.
     io_bind (io_lift (res_map_err FeeError (estimate_fee REVEAL_TX_P2WPKH_INPUT_COUNT
         REVEAL_TX_P2TR_INPUT_COUNT
         (REVEAL_TX_P2WPKH_OUTPUT_COUNT + (case rcpt of None \<Rightarrow> 0 | Some _ \<Rightarrow> 1))
         REVEAL_TX_P2TR_OUTPUT_COUNT [of_nat (script_size data)] fee_rate))) (\<lambda>fee_amount.
     let recipient_amount = (case rcpt of None \<Rightarrow> 0 | Some r \<Rightarrow> rcpt_amount r) in
     io_bind (io_lift (unwrap (amount_add L fee_amount recipient_amount))) (\<lambda>needed.
     io_bind (io_lift (res_of_option (InsufficientFunds needed (unlock_value tx_input_data))
         (amount_checked_sub L (unlock_value tx_input_data) needed))) (\<lambda>reveal_change_amount.
     io_return
       \<lparr>reveal_tx_change_output =
          \<lparr>txo_value = reveal_change_amount,
           script_pubkey = get_p2wpkh_script_pubkey (ins_signer I)\<rparr>,
        recipient_tx_output = map_option (\<lambda>r. \<lparr>txo_value = rcpt_amount r,
           script_pubkey = address_script_pubkey L (rcpt_address r)\<rparr>) rcpt,
        reveal_fee_rate = fee_rate,
        reveal_fee = fee_amount\<rparr>))))"

definition sign_reveal_tx ::
    "btc_lib \<Rightarrow> btc_signer \<Rightarrow> reveal_tx_input_res \<Rightarrow> reveal_tx_output_res \<Rightarrow> inscription_data \<Rightarrow>
       (inscriber_error, final_tx) res" where
  "sign_reveal_tx L sg inp outp data =
     (let outputs = reveal_tx_change_output outp #
            (case recipient_tx_output outp of None \<Rightarrow> [] | Some o' \<Rightarrow> [o']);
          unsigned_reveal_tx =
            \<lparr>tx_version = 2, lock_time = 0, tx_input = reveal_tx_input inp, tx_output = outputs\<rparr>
      in
      res_bind (sign_p2wpkh_input L sg (unat REVEAL_TX_FEE_INPUT_INDEX) (unlock_value inp)
          unsigned_reveal_tx) (\<lambda>tx.
      res_bind (res_of_option SighashError (taproot_script_spend_signature_hash L tx
          (unat REVEAL_TX_TAPSCRIPT_REVEAL_INDEX) (prev_outs inp) (inscription_script data)))
        (\<lambda>sighash.
      res_bind (res_map_err SignerError (sign_schnorr sg sighash)) (\<lambda>sig.
      res_bind (set_witness (unat REVEAL_TX_TAPSCRIPT_REVEAL_INDEX)
          [taproot_signature_to_vec L (taproot_signature_all L sig),
           inscription_script data,
           control_block_serialize L (ri_control_block inp)] tx) (\<lambda>reveal_tx.
      Ok (make_final_tx L reveal_tx))))))"

section \<open>Inscribing\<close>

definition prepare_inscribe ::
    "btc_lib \<Rightarrow> 'w inscriber \<Rightarrow> inscription_message \<Rightarrow> inscription_config \<Rightarrow> recipient option \<Rightarrow>
       ('w, inscriber_info) ins_m" where
  "prepare_inscribe L I input config rcpt =
     io_bind (sync_context_with_blockchain I) (\<lambda>_.
     io_bind (signer_res (get_internal_key (ins_signer I))) (\<lambda>internal_key.
     io_bind (io_lift (res_map_err ScriptError (inscription_data_new L input internal_key
         (ops_get_network (ins_client I))))) (\<lambda>data.
     io_bind (prepare_commit_tx_input L I) (\<lambda>commit_in.
     io_bind (prepare_commit_tx_output L I commit_in (id_script_pubkey data) config) (\<lambda>commit_out.
     io_bind (io_lift (sign_commit_tx L (ins_signer I) commit_in commit_out)) (\<lambda>commit_tx.
     io_bind (io_lift (prepare_reveal_tx_input L I commit_out commit_tx data)) (\<lambda>reveal_in.
     io_bind (prepare_reveal_tx_output L I reveal_in data rcpt) (\<lambda>reveal_out.
     io_bind (io_lift (sign_reveal_tx L (ins_signer I) reveal_in reveal_out data)) (\<lambda>reveal_tx.
     io_return
       \<lparr>final_commit_tx = commit_tx, final_reveal_tx = reveal_tx,
        commit_tx_output_info = commit_out, reveal_tx_output_info = reveal_out,
        commit_tx_input_info = commit_in\<rparr>)))))))))"

definition broadcast_inscription ::
    "btc_lib \<Rightarrow> 'w inscriber \<Rightarrow> final_tx \<Rightarrow> final_tx \<Rightarrow> ('w, txid) ins_m" where
  "broadcast_inscription L I commit reveal =
     io_bind (on_client (ops_broadcast_signed_transaction (ins_client I)
         (raw_hex L (ftx_tx commit)))) (\<lambda>commit_tx_id.
     io_bind (on_client (ops_broadcast_signed_transaction (ins_client I)
         (raw_hex L (ftx_tx reveal)))) (\<lambda>reveal_tx_id.
     io_return reveal_tx_id))"

definition request_of_info ::
    "btc_lib \<Rightarrow> inscription_message \<Rightarrow> inscriber_info \<Rightarrow> inscription_request" where
  "request_of_info L req info =
     \<lparr>ir_message = req,
      inscriber_out =
        \<lparr>commit_txid = ftx_txid (final_commit_tx info),
         commit_raw_tx = raw_hex L (ftx_tx (final_commit_tx info)),
         commit_tx_fee_rate = co_commit_tx_fee_rate (commit_tx_output_info info),
         reveal_txid = ftx_txid (final_reveal_tx info),
         reveal_raw_tx = raw_hex L (ftx_tx (final_reveal_tx info)),
         reveal_tx_fee_rate = reveal_fee_rate (reveal_tx_output_info info),
         is_broadcasted = True\<rparr>,
      fee_payer =
        \<lparr>fee_payer_utxo_txid = ftx_txid (final_reveal_tx info),
         fee_payer_utxo_vout = REVEAL_TX_CHANGE_OUTPUT_INDEX,
         fee_payer_utxo_value =
           txo_value (reveal_tx_change_output (reveal_tx_output_info info))\<rparr>,
      commit_inputs = \<lparr>spent_utxo = commit_tx_inputs (commit_tx_input_info info)\<rparr>\<rparr>"

definition insert_inscription_to_context ::
    "btc_lib \<Rightarrow> inscription_message \<Rightarrow> inscriber_info \<Rightarrow> ('w, unit) ins_m" where
  "insert_inscription_to_context L req info =
     io_modify (\<lambda>(ctx, w).
       (ctx\<lparr>fifo_queue := fifo_queue ctx @ [request_of_info L req info]\<rparr>, w))"

definition inscribe_with_recipient ::
    "btc_lib \<Rightarrow> 'w inscriber \<Rightarrow> inscription_message \<Rightarrow> inscription_config \<Rightarrow> recipient option \<Rightarrow>
       ('w, inscriber_info) ins_m" where
  "inscribe_with_recipient L I input config rcpt =
     io_bind (io_map_err PrepareError (prepare_inscribe L I input config rcpt)) (\<lambda>info.
     io_bind (broadcast_inscription L I (final_commit_tx info) (final_reveal_tx info)) (\<lambda>_.
     io_bind (insert_inscription_to_context L input info) (\<lambda>_.
     io_return info)))"

definition inscribe ::
    "btc_lib \<Rightarrow> 'w inscriber \<Rightarrow> inscription_message \<Rightarrow> inscription_config \<Rightarrow>
       ('w, inscriber_info) ins_m" where
  "inscribe L I input config = inscribe_with_recipient L I input config None"

section \<open>The queue\<close>

definition confirmed_in :: "'w btc_ops \<Rightarrow> inscription_request \<Rightarrow> bool" where
  "confirmed_in ops r \<longleftrightarrow> (\<exists>u v. ops_check_tx_confirmation ops
     (fee_payer_utxo_txid (fee_payer r)) CTX_REQUIRED_CONFIRMATIONS u = (Ok True, v))"

lemma sync_queue_Ok:
  "sync_queue ops q w = (Ok (), q', w') \<Longrightarrow>
     \<exists>conf. q = conf @ q' \<and> (\<forall>r \<in> set conf. confirmed_in ops r)
       \<and> (q' \<noteq> [] \<longrightarrow> (\<exists>u. ops_check_tx_confirmation ops
            (fee_payer_utxo_txid (fee_payer (hd q'))) CTX_REQUIRED_CONFIRMATIONS u = (Ok False, w')))"
proof (induction q arbitrary: w)
  case Nil
  then show ?case by simp
next
  case (Cons r q)
  obtain b v where chk: "ops_check_tx_confirmation ops (fee_payer_utxo_txid (fee_payer r))
      CTX_REQUIRED_CONFIRMATIONS w = (Ok b, v)"
    using Cons.prems by (auto split: prod.splits res.splits)
  show ?case
  proof (cases b)
    case True
    with Cons.prems chk have "sync_queue ops q v = (Ok (), q', w')" by simp
    from Cons.IH [OF this] obtain conf where
      "q = conf @ q'" "\<forall>r \<in> set conf. confirmed_in ops r"
      "q' \<noteq> [] \<longrightarrow> (\<exists>u. ops_check_tx_confirmation ops
            (fee_payer_utxo_txid (fee_payer (hd q'))) CTX_REQUIRED_CONFIRMATIONS u = (Ok False, w'))"
      by blast
    moreover have "confirmed_in ops r" using chk True by (auto simp: confirmed_in_def)
    ultimately show ?thesis by (intro exI [of _ "r # conf"]) simp
  next
    case False
    with Cons.prems chk have "q' = r # q" "w' = v" by auto
    with chk False show ?thesis by (intro exI [of _ "[]"]) auto
  qed
qed

lemma sync_queue_Err:
  "sync_queue ops q w = (Err e, q', w') \<Longrightarrow>
     \<exists>conf r. q = conf @ r # q' \<and> (\<forall>r \<in> set conf. confirmed_in ops r)
       \<and> (\<exists>u b. ops_check_tx_confirmation ops (fee_payer_utxo_txid (fee_payer r))
            CTX_REQUIRED_CONFIRMATIONS u = (Err b, w') \<and> e = ClientError b)"
proof (induction q arbitrary: w)
  case Nil
  then show ?case by simp
next
  case (Cons r q)
  obtain x v where chk: "ops_check_tx_confirmation ops (fee_payer_utxo_txid (fee_payer r))
      CTX_REQUIRED_CONFIRMATIONS w = (x, v)" by fastforce
  show ?case
  proof (cases x)
    case (Ok b)
    with Cons.prems chk have b: b and rest: "sync_queue ops q v = (Err e, q', w')"
      by (auto split: if_splits)
    from Cons.IH [OF rest] obtain conf r' where
      "q = conf @ r' # q'" "\<forall>r \<in> set conf. confirmed_in ops r"
      "\<exists>u b. ops_check_tx_confirmation ops (fee_payer_utxo_txid (fee_payer r'))
            CTX_REQUIRED_CONFIRMATIONS u = (Err b, w') \<and> e = ClientError b"
      by blast
    moreover have "confirmed_in ops r" using chk Ok b by (auto simp: confirmed_in_def)
    ultimately show ?thesis by (intro exI [of _ "r # conf"] exI [of _ r']) simp
  next
    case (Err b)
    with Cons.prems chk show ?thesis by (intro exI [of _ "[]"] exI [of _ r]) auto
  qed (use Cons.prems chk in simp)
qed

text \<open>Every entry the inscriber puts in the queue pays the next one from output 0 of its reveal
  transaction.\<close>

definition request_inv :: "inscription_request \<Rightarrow> bool" where
  "request_inv r \<longleftrightarrow>
     fee_payer_utxo_txid (fee_payer r) = reveal_txid (inscriber_out r)
   \<and> fee_payer_utxo_vout (fee_payer r) = REVEAL_TX_CHANGE_OUTPUT_INDEX"

definition queue_inv :: "inscriber_context \<Rightarrow> bool" where
  "queue_inv ctx \<longleftrightarrow> list_all request_inv (fifo_queue ctx)"

lemma request_of_info_inv [simp]: "request_inv (request_of_info L m info)"
  by (simp add: request_inv_def request_of_info_def)

lemma sync_queue_suffix: "sync_queue ops q w = (x, q', w') \<Longrightarrow> \<exists>pre. q = pre @ q'"
proof (induction q arbitrary: w)
  case (Cons r q)
  show ?case
  proof (cases "q' = r # q")
    case False
    then have "(\<exists>v. sync_queue ops q v = (x, q', w')) \<or> q' = q"
      using Cons.prems by (auto split: prod.splits res.splits if_splits)
    with Cons.IH show ?thesis by (metis append_Cons append_Nil)
  qed simp
qed simp

section \<open>Inputs and values\<close>

lemma gather_inputs_spec:
  assumes "lib_amounts L" and "(gather_inputs L us acc :: ('e, commit_tx_input_res) res) = Ok r"
  shows "commit_tx_inputs r = commit_tx_inputs acc @ map (unsigned_input \<circ> fst) us
    \<and> utxo_amounts r = utxo_amounts acc @ map (txo_value \<circ> snd) us
    \<and> unat (unlocked_value r)
         = unat (unlocked_value acc) + sum_list (map (unat \<circ> txo_value \<circ> snd) us)
    \<and> inputs_count r = inputs_count acc + of_nat (length us)"
  using assms(2)
proof (induction us arbitrary: acc)
  case (Cons u us)
  obtain o' t where u: "u = (o', t)" by (cases u)
  from Cons.prems u assms(1) have
    bound: "unat (unlocked_value acc) + unat (txo_value t) < 2 ^ 64"
    and rest: "(gather_inputs L us
       \<lparr>commit_tx_inputs = commit_tx_inputs acc @ [unsigned_input o'],
        unlocked_value = unlocked_value acc + txo_value t,
        inputs_count = inputs_count acc + 1,
        utxo_amounts = utxo_amounts acc @ [txo_value t]\<rparr> :: ('e, commit_tx_input_res) res)
       = Ok r"
    by (auto simp: lib_amounts_def res_bind_Ok_iff split: if_splits)
  have "unat (unlocked_value acc + txo_value t) = unat (unlocked_value acc) + unat (txo_value t)"
    using bound by (simp add: unat_word_ariths(1))
  with Cons.IH [OF rest] u show ?case by simp
qed simp

lemmas gather_inputs_Ok =
  gather_inputs_spec [THEN conjunct1]
  gather_inputs_spec [THEN conjunct2, THEN conjunct1]
  gather_inputs_spec [THEN conjunct2, THEN conjunct2, THEN conjunct1]
  gather_inputs_spec [THEN conjunct2, THEN conjunct2, THEN conjunct2]

lemma checked_sub_Ok:
  assumes "lib_amounts L" "amount_checked_sub L a b = Some c"
  shows "unat a = unat b + unat c"
  using assms by (auto simp: lib_amounts_def unat_sub word_le_nat_alt split: if_splits)

lemma amount_add_Ok:
  assumes "lib_amounts L" "amount_add L a b = Some c"
  shows "unat c = unat a + unat b" and "c = a + b"
  using assms by (auto simp: lib_amounts_def unat_word_ariths(1) split: if_splits)

section \<open>The steps of a successful preparation\<close>

lemma on_client_Ok [io_ok]:
  "on_client m s = (Ok a, s') \<longleftrightarrow> (\<exists>w. m (snd s) = (Ok a, w) \<and> s' = (fst s, w))"
  by (auto simp: on_client_def io_ok)

lemma io_lift_Ok [io_ok]: "io_lift r s = (Ok a, s') \<longleftrightarrow> r = Ok a \<and> s' = s"
  by auto

lemma prepare_commit_tx_input_Ok:
  assumes "prepare_commit_tx_input L I s = (Ok r, s')"
  shows "fst s' = fst s"
    and "\<exists>utxos. (gather_inputs L (spendable_utxos (ins_signer I) (fifo_queue (fst s)) utxos)
       \<lparr>commit_tx_inputs = [], unlocked_value = 0, inputs_count = 0, utxo_amounts = []\<rparr>
       :: (inscriber_error, commit_tx_input_res) res) = Ok r"
  using assms by (auto simp: prepare_commit_tx_input_def io_bind_Ok_iff on_client_Ok)

lemma prepare_commit_tx_output_Ok:
  assumes "prepare_commit_tx_output L I inp spk config s = (Ok r, s')"
  shows "fst s' = fst s"
    and "\<exists>base. co_commit_tx_fee_rate r = base + base * ((FEE_RATE_INCREASE_PER_PENDING_TX
           * fee_multiplier config) * of_nat (length (fifo_queue (fst s)))) div 100"
    and "estimate_fee (inputs_count inp) COMMIT_TX_P2TR_INPUT_COUNT
           COMMIT_TX_P2WPKH_OUTPUT_COUNT COMMIT_TX_P2TR_OUTPUT_COUNT [] (co_commit_tx_fee_rate r)
         = Ok (commit_tx_fee r)"
    and "amount_checked_sub L (unlocked_value inp) (commit_tx_fee r)
         = Some (txo_value (commit_tx_change_output r))"
    and "script_pubkey (commit_tx_change_output r) = get_p2wpkh_script_pubkey (ins_signer I)"
    and "commit_tx_tapscript_output r = \<lparr>txo_value = 0, script_pubkey = spk\<rparr>"
  using assms
  by (auto simp: prepare_commit_tx_output_def get_fee_rate_def Let_def io_bind_Ok_iff on_client_Ok)

lemma prepare_reveal_tx_output_Ok:
  assumes "prepare_reveal_tx_output L I inp data rcpt s = (Ok r, s')"
  shows "fst s' = fst s"
    and "estimate_fee REVEAL_TX_P2WPKH_INPUT_COUNT REVEAL_TX_P2TR_INPUT_COUNT
           (REVEAL_TX_P2WPKH_OUTPUT_COUNT + (case rcpt of None \<Rightarrow> 0 | Some _ \<Rightarrow> 1))
           REVEAL_TX_P2TR_OUTPUT_COUNT [of_nat (script_size data)] (reveal_fee_rate r)
         = Ok (reveal_fee r)"
    and "\<exists>needed. amount_add L (reveal_fee r) (case rcpt of None \<Rightarrow> 0 | Some x \<Rightarrow> rcpt_amount x)
           = Some needed
         \<and> amount_checked_sub L (unlock_value inp) needed
           = Some (txo_value (reveal_tx_change_output r))"
    and "script_pubkey (reveal_tx_change_output r) = get_p2wpkh_script_pubkey (ins_signer I)"
    and "recipient_tx_output r = map_option (\<lambda>x. \<lparr>txo_value = rcpt_amount x,
           script_pubkey = address_script_pubkey L (rcpt_address x)\<rparr>) rcpt"
  using assms
  by (auto simp: prepare_reveal_tx_output_def get_fee_rate_def Let_def io_bind_Ok_iff on_client_Ok)

lemma sync_context_Ok:
  assumes "sync_context_with_blockchain I s = (x, s')"
  shows "\<exists>pre. fifo_queue (fst s) = pre @ fifo_queue (fst s')"
  using assms sync_queue_suffix [of "ins_client I" "fifo_queue (fst s)" "snd s"]
  by (auto simp: sync_context_with_blockchain_def split: prod.splits)

lemma prepare_inscribe_Ok:
  assumes "prepare_inscribe L I m config rcpt s = (Ok info, s')"
  obtains s1 key data s2 s3 reveal_in where
    "sync_context_with_blockchain I s = (Ok (), s1)"
    "get_internal_key (ins_signer I) = Ok key"
    "inscription_data_new L m key (ops_get_network (ins_client I)) = Ok data"
    "prepare_commit_tx_input L I s1 = (Ok (commit_tx_input_info info), s2)"
    "prepare_commit_tx_output L I (commit_tx_input_info info) (id_script_pubkey data) config s2
       = (Ok (commit_tx_output_info info), s3)"
    "sign_commit_tx L (ins_signer I) (commit_tx_input_info info) (commit_tx_output_info info)
       = Ok (final_commit_tx info)"
    "prepare_reveal_tx_input L I (commit_tx_output_info info) (final_commit_tx info) data
       = Ok reveal_in"
    "prepare_reveal_tx_output L I reveal_in data rcpt s3 = (Ok (reveal_tx_output_info info), s')"
    "sign_reveal_tx L (ins_signer I) reveal_in (reveal_tx_output_info info) data
       = Ok (final_reveal_tx info)"
    "fst s' = fst s1"
proof -
  obtain s1 key data cin s2 cout s3 ctx rin rout rtx where
    sync: "sync_context_with_blockchain I s = (Ok (), s1)"
    and key: "get_internal_key (ins_signer I) = Ok key"
    and data: "inscription_data_new L m key (ops_get_network (ins_client I)) = Ok data"
    and cin: "prepare_commit_tx_input L I s1 = (Ok cin, s2)"
    and cout: "prepare_commit_tx_output L I cin (id_script_pubkey data) config s2 = (Ok cout, s3)"
    and ctx: "sign_commit_tx L (ins_signer I) cin cout = Ok ctx"
    and rin: "prepare_reveal_tx_input L I cout ctx data = Ok rin"
    and rout: "prepare_reveal_tx_output L I rin data rcpt s3 = (Ok rout, s')"
    and rtx: "sign_reveal_tx L (ins_signer I) rin rout data = Ok rtx"
    and info: "info = \<lparr>final_commit_tx = ctx, final_reveal_tx = rtx,
        commit_tx_output_info = cout, reveal_tx_output_info = rout, commit_tx_input_info = cin\<rparr>"
    using assms by (auto simp: prepare_inscribe_def io_bind_Ok_iff)
  have "fst s' = fst s1"
    using prepare_commit_tx_input_Ok(1) [OF cin] prepare_commit_tx_output_Ok(1) [OF cout]
      prepare_reveal_tx_output_Ok(1) [OF rout] by simp
  with that [of s1 key data s2 s3 rin] sync key data cin cout ctx rin rout rtx info
  show thesis by simp
qed

section \<open>Signed transactions\<close>

text \<open>A transaction up to its witnesses.\<close>

definition unwitnessed :: "transaction \<Rightarrow> transaction" where
  "unwitnessed tx = tx\<lparr>tx_input := map (\<lambda>i. i\<lparr>witness := []\<rparr>) (tx_input tx)\<rparr>"

lemma set_witness_Ok:
  "set_witness i w tx = Ok tx' \<Longrightarrow>
     i < length (tx_input tx)
   \<and> tx' = tx\<lparr>tx_input := (tx_input tx)[i := (tx_input tx ! i)\<lparr>witness := w\<rparr>]\<rparr>"
  by (simp add: set_witness_def split: if_splits)

lemma set_witness_unwitnessed: "set_witness i w tx = Ok tx' \<Longrightarrow> unwitnessed tx' = unwitnessed tx"
  by (auto simp: unwitnessed_def nth_list_update
      dest!: set_witness_Ok intro!: transaction.equality nth_equalityI)

lemma sign_p2wpkh_input_Ok:
  "sign_p2wpkh_input L sg i v tx = Ok tx' \<Longrightarrow>
     \<exists>sig. set_witness i (witness_p2wpkh L sig (get_public_key sg)) tx = Ok tx'"
  by (auto simp: sign_p2wpkh_input_def res_bind_Ok_iff)

lemma sign_commit_inputs_unwitnessed:
  "sign_commit_inputs L sg amounts is tx = Ok tx' \<Longrightarrow> unwitnessed tx' = unwitnessed tx"
proof (induction "is" arbitrary: tx)
  case (Cons i "is")
  then show ?case
    by (fastforce simp: res_bind_Ok_iff dest: sign_p2wpkh_input_Ok set_witness_unwitnessed)
qed simp

lemma unwitnessed_outputs: "unwitnessed tx = unwitnessed tx' \<Longrightarrow> tx_output tx = tx_output tx'"
  by (metis unwitnessed_def transaction.select_convs(4) transaction.surjective
      transaction.update_convs(3))

lemma unwitnessed_outpoints:
  assumes "unwitnessed tx = unwitnessed tx'"
  shows "map previous_output (tx_input tx) = map previous_output (tx_input tx')"
proof -
  have "map previous_output (tx_input t) = map previous_output (tx_input (unwitnessed t))" for t
    by (simp add: unwitnessed_def)
  with assms show ?thesis by metis
qed

lemma sign_commit_tx_Ok:
  assumes "sign_commit_tx L sg inp outp = Ok f"
  shows "tx_output (ftx_tx f) = [commit_tx_change_output outp, commit_tx_tapscript_output outp]"
    and "map previous_output (tx_input (ftx_tx f))
         = map previous_output (commit_tx_inputs inp)"
    and "ftx_txid f = compute_txid L (ftx_tx f)"
proof -
  let ?u = "\<lparr>tx_version = 2, lock_time = 0, tx_input = commit_tx_inputs inp,
     tx_output = [commit_tx_change_output outp, commit_tx_tapscript_output outp]\<rparr>"
  obtain tx where tx: "sign_commit_inputs L sg (utxo_amounts inp)
      [0 ..< length (commit_tx_inputs inp)] ?u = Ok tx" and f: "f = make_final_tx L tx"
    using assms by (auto simp: sign_commit_tx_def Let_def res_bind_Ok_iff)
  note u = sign_commit_inputs_unwitnessed [OF tx]
  show "tx_output (ftx_tx f) = [commit_tx_change_output outp, commit_tx_tapscript_output outp]"
    and "map previous_output (tx_input (ftx_tx f))
         = map previous_output (commit_tx_inputs inp)"
    and "ftx_txid f = compute_txid L (ftx_tx f)"
    using unwitnessed_outputs [OF u] unwitnessed_outpoints [OF u] f
    by (simp_all add: make_final_tx_def)
qed

text \<open>The reveal transaction: the fee input with a P2WPKH witness of the signer, then the input
  that reveals the inscription script.\<close>

lemma prepare_reveal_tx_input_Ok:
  assumes "prepare_reveal_tx_input L I cout ctx data = Ok rin"
  shows "reveal_tx_input rin =
      [unsigned_input \<lparr>op_txid = ftx_txid ctx, op_vout = COMMIT_TX_CHANGE_OUTPUT_INDEX\<rparr>,
       unsigned_input \<lparr>op_txid = ftx_txid ctx, op_vout = COMMIT_TX_TAPSCRIPT_OUTPUT_INDEX\<rparr>]"
    and "amount_add L (txo_value (commit_tx_change_output cout))
           (txo_value (commit_tx_tapscript_output cout)) = Some (unlock_value rin)"
    and "taproot_control_block L (spend_info data) (inscription_script data)
         = Some (ri_control_block rin)"
    and "map txo_value (prev_outs rin)
         = [txo_value (commit_tx_change_output cout), txo_value (commit_tx_tapscript_output cout)]"
  using assms by (auto simp: prepare_reveal_tx_input_def Let_def res_bind_Ok_iff)

lemma sign_reveal_tx_Ok:
  assumes sign: "sign_reveal_tx L sg rin rout data = Ok f"
    and inputs: "reveal_tx_input rin = [a, b]"
  shows "\<exists>sig tsig. tx_input (ftx_tx f) =
      [a\<lparr>witness := witness_p2wpkh L sig (get_public_key sg)\<rparr>,
       b\<lparr>witness := [taproot_signature_to_vec L tsig, inscription_script data,
           control_block_serialize L (ri_control_block rin)]\<rparr>]"
    and "tx_output (ftx_tx f) = reveal_tx_change_output rout #
      (case recipient_tx_output rout of None \<Rightarrow> [] | Some x \<Rightarrow> [x])"
    and "ftx_txid f = compute_txid L (ftx_tx f)"
proof -
  let ?u = "\<lparr>tx_version = 2, lock_time = 0, tx_input = reveal_tx_input rin,
     tx_output = reveal_tx_change_output rout #
      (case recipient_tx_output rout of None \<Rightarrow> [] | Some x \<Rightarrow> [x])\<rparr>"
  obtain sig tx where tx: "set_witness 0 (witness_p2wpkh L sig (get_public_key sg)) ?u = Ok tx"
    and "\<exists>tsig tx'. set_witness 1 [taproot_signature_to_vec L tsig, inscription_script data,
           control_block_serialize L (ri_control_block rin)] tx = Ok tx'
         \<and> f = make_final_tx L tx'"
    using sign
    by (auto simp: sign_reveal_tx_def Let_def res_bind_Ok_iff tx_layout
        dest!: sign_p2wpkh_input_Ok)
  then show
    "\<exists>sig tsig. tx_input (ftx_tx f) =
      [a\<lparr>witness := witness_p2wpkh L sig (get_public_key sg)\<rparr>,
       b\<lparr>witness := [taproot_signature_to_vec L tsig, inscription_script data,
           control_block_serialize L (ri_control_block rin)]\<rparr>]"
    "tx_output (ftx_tx f) = reveal_tx_change_output rout #
      (case recipient_tx_output rout of None \<Rightarrow> [] | Some x \<Rightarrow> [x])"
    "ftx_txid f = compute_txid L (ftx_tx f)"
    using inputs by (auto simp: make_final_tx_def dest!: set_witness_Ok)
qed

section \<open>Values are conserved\<close>

lemma commit_values:
  assumes L: "lib_amounts L" and run: "prepare_inscribe L I m config rcpt s = (Ok info, s')"
  shows "sum_list (map unat (utxo_amounts (commit_tx_input_info info)))
       = sum_list (map (unat \<circ> txo_value) (tx_output (ftx_tx (final_commit_tx info))))
         + unat (commit_tx_fee (commit_tx_output_info info))"
proof -
  from run obtain s1 s2 s3 and data :: inscription_data where
    cin: "prepare_commit_tx_input L I s1 = (Ok (commit_tx_input_info info), s2)"
    and cout: "prepare_commit_tx_output L I (commit_tx_input_info info) (id_script_pubkey data)
      config s2 = (Ok (commit_tx_output_info info), s3)"
    and sign: "sign_commit_tx L (ins_signer I) (commit_tx_input_info info)
      (commit_tx_output_info info) = Ok (final_commit_tx info)"
    by (blast elim!: prepare_inscribe_Ok)
  obtain utxos where
    "(gather_inputs L (spendable_utxos (ins_signer I) (fifo_queue (fst s1)) utxos)
       \<lparr>commit_tx_inputs = [], unlocked_value = 0, inputs_count = 0, utxo_amounts = []\<rparr>
       :: (inscriber_error, commit_tx_input_res) res) = Ok (commit_tx_input_info info)"
    using prepare_commit_tx_input_Ok(2) [OF cin] by blast
  note g = gather_inputs_Ok(2,3) [OF L this]
  have "unat (unlocked_value (commit_tx_input_info info))
      = sum_list (map unat (utxo_amounts (commit_tx_input_info info)))"
    by (simp add: g comp_def)
  moreover note checked_sub_Ok [OF L prepare_commit_tx_output_Ok(4) [OF cout]]
  ultimately show ?thesis
    using sign_commit_tx_Ok(1) [OF sign] prepare_commit_tx_output_Ok(6) [OF cout] by simp
qed

lemma reveal_values:
  assumes L: "lib_amounts L" and run: "prepare_inscribe L I m config rcpt s = (Ok info, s')"
  shows "unat (txo_value (commit_tx_change_output (commit_tx_output_info info)))
       = sum_list (map (unat \<circ> txo_value) (tx_output (ftx_tx (final_reveal_tx info))))
         + unat (reveal_fee (reveal_tx_output_info info))"
proof -
  from run obtain s2 s3 data rin where
    cout: "prepare_commit_tx_output L I (commit_tx_input_info info) (id_script_pubkey data)
      config s2 = (Ok (commit_tx_output_info info), s3)"
    and rin: "prepare_reveal_tx_input L I (commit_tx_output_info info) (final_commit_tx info) data
      = Ok rin"
    and rout: "prepare_reveal_tx_output L I rin data rcpt s3
      = (Ok (reveal_tx_output_info info), s')"
    and sign: "sign_reveal_tx L (ins_signer I) rin (reveal_tx_output_info info) data
      = Ok (final_reveal_tx info)"
    by (blast elim!: prepare_inscribe_Ok)
  have unlock: "unat (unlock_value rin)
      = unat (txo_value (commit_tx_change_output (commit_tx_output_info info)))"
    using amount_add_Ok(1) [OF L prepare_reveal_tx_input_Ok(2) [OF rin]]
      prepare_commit_tx_output_Ok(6) [OF cout] by simp
  from prepare_reveal_tx_output_Ok(3) [OF rout] obtain needed where
    needed: "amount_add L (reveal_fee (reveal_tx_output_info info))
        (case rcpt of None \<Rightarrow> 0 | Some x \<Rightarrow> rcpt_amount x) = Some needed"
      "amount_checked_sub L (unlock_value rin) needed
        = Some (txo_value (reveal_tx_change_output (reveal_tx_output_info info)))"
    by blast
  show ?thesis
    using sign_reveal_tx_Ok(2) [OF sign prepare_reveal_tx_input_Ok(1) [OF rin]] unlock
      amount_add_Ok(1) [OF L needed(1)] checked_sub_Ok [OF L needed(2)]
      prepare_reveal_tx_output_Ok(5) [OF rout]
    by (cases rcpt) simp_all
qed

text \<open>The reveal transaction spends the two outputs of the commit transaction, and the values it
  signs for are theirs.\<close>

lemma reveal_spends_commit:
  assumes run: "prepare_inscribe L I m config rcpt s = (Ok info, s')"
  shows "map previous_output (tx_input (ftx_tx (final_reveal_tx info)))
       = [\<lparr>op_txid = compute_txid L (ftx_tx (final_commit_tx info)), op_vout = 0\<rparr>,
          \<lparr>op_txid = compute_txid L (ftx_tx (final_commit_tx info)), op_vout = 1\<rparr>]"
proof -
  from run obtain data rin where
    ctx: "sign_commit_tx L (ins_signer I) (commit_tx_input_info info) (commit_tx_output_info info)
       = Ok (final_commit_tx info)"
    and rin: "prepare_reveal_tx_input L I (commit_tx_output_info info) (final_commit_tx info) data
      = Ok rin"
    and sign: "sign_reveal_tx L (ins_signer I) rin (reveal_tx_output_info info) data
      = Ok (final_reveal_tx info)"
    by (blast elim!: prepare_inscribe_Ok)
  show ?thesis
    using sign_reveal_tx_Ok(1) [OF sign prepare_reveal_tx_input_Ok(1) [OF rin]]
      sign_commit_tx_Ok(3) [OF ctx]
    by (auto simp: tx_layout unsigned_input_def)
qed

lemma commit_outputs_value:
  assumes run: "prepare_inscribe L I m config rcpt s = (Ok info, s')"
  shows "sum_list (map (unat \<circ> txo_value) (tx_output (ftx_tx (final_commit_tx info))))
       = unat (txo_value (commit_tx_change_output (commit_tx_output_info info)))"
proof -
  from run obtain s2 s3 and data :: inscription_data where
    cout: "prepare_commit_tx_output L I (commit_tx_input_info info) (id_script_pubkey data)
      config s2 = (Ok (commit_tx_output_info info), s3)"
    and ctx: "sign_commit_tx L (ins_signer I) (commit_tx_input_info info)
      (commit_tx_output_info info) = Ok (final_commit_tx info)"
    by (blast elim!: prepare_inscribe_Ok)
  show ?thesis
    using sign_commit_tx_Ok(1) [OF ctx] prepare_commit_tx_output_Ok(6) [OF cout] by simp
qed

section \<open>What the indexer reads of an inscription\<close>

lemma inscription_data_new_Ok:
  assumes lib: "lib_push_bytes L" "lib_address_text L" "wf_message L n m" "length key = 32"
    and data: "inscription_data_new L m key n = Ok data"
  shows "inscription_script data
       = into_script L (basic_items key @ message_items L m @ [PushOpcode OP_ENDIF])"
    and "taproot_finalize L (inscription_script data) key = Some (spend_info data)"
  using assms
  by (auto simp: inscription_data_new_def complete_inscription_def Let_def res_bind_Ok_iff
      construct_inscription_commitment_data_def basic_script_items inscription_items_shape)

lemma prepared_reveal_parses:
  assumes codec: "lib_script_codec L" "lib_control_block L" "lib_address_text L" "lib_hash_sizes L"
    and lib: "lib_push_bytes L" "lib_taproot_signature L" "lib_p2wpkh_witness L"
      "lib_taproot_internal_key L"
    and net: "ops_get_network (ins_client I) = mp_network p"
    and sg: "signer_ok L (mp_network p) (ins_signer I)"
    and wf: "wf_message L (mp_network p) m"
    and run: "prepare_inscribe L I m config rcpt s = (Ok info, s')"
  shows "\<exists>cf. Ok (p2wpkh_address cf) = get_p2wpkh_address (ins_signer I)
       \<and> Ok (encoded_public_key cf) = get_internal_key (ins_signer I)
       \<and> cf_block_height cf = h
       \<and> cf_tx_id cf = compute_ntxid L (ftx_tx (final_reveal_tx info))
       \<and> parse_transaction L (ftx_tx (final_reveal_tx info)) h p
         = (if is_no_vote m then (Ok [], p)
            else (Ok [full_of_message L p (ftx_tx (final_reveal_tx info)) cf m],
                  parser_after m p))"
proof -
  from run obtain key data rin where
    key: "get_internal_key (ins_signer I) = Ok key"
    and data: "inscription_data_new L m key (mp_network p) = Ok data"
    and rin: "prepare_reveal_tx_input L I (commit_tx_output_info info) (final_commit_tx info) data
      = Ok rin"
    and sign: "sign_reveal_tx L (ins_signer I) rin (reveal_tx_output_info info) data
      = Ok (final_reveal_tx info)"
    unfolding net [symmetric] by (blast elim!: prepare_inscribe_Ok)
  have key32: "length key = 32" using sg key by (simp add: signer_ok_def)
  note scr = inscription_data_new_Ok [OF lib(1) codec(3) wf key32 data]
  let ?tx = "ftx_tx (final_reveal_tx info)" and ?cb = "ri_control_block rin"
  obtain fee_in tap_in sig tsig where inputs: "tx_input ?tx = [fee_in, tap_in]"
    and fee: "witness fee_in = witness_p2wpkh L sig (get_public_key (ins_signer I))"
    and tap: "witness tap_in = [taproot_signature_to_vec L tsig, inscription_script data,
        control_block_serialize L ?cb]"
    using sign_reveal_tx_Ok(1) [OF sign prepare_reveal_tx_input_Ok(1) [OF rin]] by fastforce
  have rev: "reveals L tap_in key m tsig ?cb"
    using tap scr(1) lib(2) by (auto simp: reveals_def lib_taproot_signature_def)
  let ?sender = "address_p2wpkh L (get_public_key (ins_signer I)) (mp_network p)"
  have "parse_p2wpkh L (mp_network p) (witness fee_in) = Some ?sender"
    using signer_p2wpkh_witness [OF lib(3) sg] fee by simp
  note parsed = parse_reveal_transaction [OF codec key32 inputs this rev wf, of h]
  have "internal_key_bytes L ?cb = key"
    using lib(4) scr(2) prepare_reveal_tx_input_Ok(3) [OF rin]
    unfolding lib_taproot_internal_key_def by blast
  then show ?thesis
    using parsed key sg
    by (intro exI [of _ "inscription_common L ?tx h ?sender tsig ?cb"])
      (simp add: inscription_common_def signer_ok_def)
qed

section \<open>The inputs of the commit transaction\<close>

lemma commit_input_outpoints:
  assumes L: "lib_amounts L" and run: "prepare_inscribe L I m config rcpt s = (Ok info, s')"
  shows "\<exists>utxos. map previous_output (tx_input (ftx_tx (final_commit_tx info)))
       = map fst (spendable_utxos (ins_signer I) (fifo_queue (fst s')) utxos)"
    and "map previous_output (commit_tx_inputs (commit_tx_input_info info))
       = map previous_output (tx_input (ftx_tx (final_commit_tx info)))"
proof -
  from run obtain s1 s2 where
    cin: "prepare_commit_tx_input L I s1 = (Ok (commit_tx_input_info info), s2)"
    and sign: "sign_commit_tx L (ins_signer I) (commit_tx_input_info info)
      (commit_tx_output_info info) = Ok (final_commit_tx info)"
    and same: "fst s' = fst s1"
    by (blast elim!: prepare_inscribe_Ok)
  obtain utxos where
    "(gather_inputs L (spendable_utxos (ins_signer I) (fifo_queue (fst s1)) utxos)
       \<lparr>commit_tx_inputs = [], unlocked_value = 0, inputs_count = 0, utxo_amounts = []\<rparr>
       :: (inscriber_error, commit_tx_input_res) res) = Ok (commit_tx_input_info info)"
    using prepare_commit_tx_input_Ok(2) [OF cin] by blast
  from gather_inputs_Ok(1) [OF L this] sign_commit_tx_Ok(2) [OF sign] same
  show "\<exists>utxos. map previous_output (tx_input (ftx_tx (final_commit_tx info)))
       = map fst (spendable_utxos (ins_signer I) (fifo_queue (fst s')) utxos)"
    by (intro exI [of _ utxos]) (simp add: unsigned_input_def comp_def)
  show "map previous_output (commit_tx_inputs (commit_tx_input_info info))
       = map previous_output (tx_input (ftx_tx (final_commit_tx info)))"
    using sign_commit_tx_Ok(2) [OF sign] by simp
qed

text \<open>An input of the commit transaction is an output that the node lists for the wallet, with the
  wallet's script and not among the spent ones, or the reveal change of the head.\<close>

lemma commit_input_source:
  assumes L: "lib_amounts L" and run: "prepare_inscribe L I m config rcpt s = (Ok info, s')"
    and i: "i \<in> set (tx_input (ftx_tx (final_commit_tx info)))"
    and inv: "list_all request_inv (fifo_queue (fst s'))"
  shows "(\<exists>a utxos out w w'. get_p2wpkh_address (ins_signer I) = Ok a
       \<and> ops_fetch_utxos (ins_client I) a w = (Ok utxos, w') \<and> (previous_output i, out) \<in> set utxos
       \<and> script_pubkey out = get_p2wpkh_script_pubkey (ins_signer I)
       \<and> previous_output i \<notin> set (spent_utxos (fifo_queue (fst s'))))
     \<or> fifo_queue (fst s') \<noteq> [] \<and> previous_output i = reveal_change_of (hd (fifo_queue (fst s')))"
proof -
  from run obtain s1 s2 where
    cin: "prepare_commit_tx_input L I s1 = (Ok (commit_tx_input_info info), s2)"
    and sign: "sign_commit_tx L (ins_signer I) (commit_tx_input_info info)
      (commit_tx_output_info info) = Ok (final_commit_tx info)"
    and same: "fst s' = fst s1"
    by (blast elim!: prepare_inscribe_Ok)
  obtain a utxos w where utxos: "get_p2wpkh_address (ins_signer I) = Ok a"
      "ops_fetch_utxos (ins_client I) a (snd s1) = (Ok utxos, w)"
    and g: "(gather_inputs L (spendable_utxos (ins_signer I) (fifo_queue (fst s1)) utxos)
       \<lparr>commit_tx_inputs = [], unlocked_value = 0, inputs_count = 0, utxo_amounts = []\<rparr>
       :: (inscriber_error, commit_tx_input_res) res) = Ok (commit_tx_input_info info)"
    using cin by (auto simp: prepare_commit_tx_input_def io_bind_Ok_iff on_client_Ok res_map_err_Ok_iff)
  have "map previous_output (tx_input (ftx_tx (final_commit_tx info)))
       = map fst (spendable_utxos (ins_signer I) (fifo_queue (fst s')) utxos)"
    using gather_inputs_Ok(1) [OF L g] sign_commit_tx_Ok(2) [OF sign] same
    by (simp add: unsigned_input_def comp_def)
  with i have "previous_output i \<in> fst ` set (spendable_utxos (ins_signer I) (fifo_queue (fst s')) utxos)"
    by (metis image_eqI list.set_map)
  then have "(\<exists>out. (previous_output i, out) \<in> set utxos
       \<and> script_pubkey out = get_p2wpkh_script_pubkey (ins_signer I)
       \<and> previous_output i \<notin> set (spent_utxos (fifo_queue (fst s'))))
     \<or> fifo_queue (fst s') \<noteq> [] \<and> previous_output i = reveal_change_of (hd (fifo_queue (fst s')))"
    using inv by (cases "fifo_queue (fst s')")
      (auto simp: spendable_utxos_def reveal_change_of_def request_inv_def is_p2wpkh_def)
  with utxos show ?thesis by blast
qed

text \<open>The outputs taken for spent include those of every pending request.\<close>

lemma spent_utxos_complete:
  "r \<in> set q \<Longrightarrow> set (spent_by r) \<subseteq> set (spent_utxos q)"
  "r \<in> set (butlast q) \<Longrightarrow> reveal_change_of r \<in> set (spent_utxos q)"
  by (induction q rule: spent_utxos.induct) (auto split: if_splits)

lemma spendable_head_change:
  assumes "request_inv r"
  shows "reveal_change_of r \<in> fst ` set (spendable_utxos sg (r # q) utxos)"
  using assms by (simp add: spendable_utxos_def reveal_change_of_def request_inv_def)

text \<open>A successful inscription: the confirmed front of the queue is dropped and the new request
  goes to the back.\<close>

lemma inscribe_with_recipient_Ok:
  assumes "inscribe_with_recipient L I m config rcpt s = (Ok info, s')"
  shows "\<exists>s1 s2. prepare_inscribe L I m config rcpt s = (Ok info, s1)
    \<and> broadcast_inscription L I (final_commit_tx info) (final_reveal_tx info) s1
        = (Ok s2, fst s1, snd s')
    \<and> fst s' = (fst s1)\<lparr>fifo_queue := fifo_queue (fst s1) @ [request_of_info L m info]\<rparr>"
  using assms
  by (force simp: inscribe_with_recipient_def io_bind_Ok_iff io_map_err_Ok_iff
      insert_inscription_to_context_def broadcast_inscription_def on_client_Ok)

lemma prepare_inscribe_queue:
  assumes "prepare_inscribe L I m config rcpt s = (Ok info, s')"
  shows "\<exists>conf. fifo_queue (fst s) = conf @ fifo_queue (fst s')
    \<and> (\<forall>r \<in> set conf. confirmed_in (ins_client I) r)"
proof -
  from assms obtain s1 where sync: "sync_context_with_blockchain I s = (Ok (), s1)"
    and same: "fst s' = fst s1"
    by (blast elim!: prepare_inscribe_Ok)
  from sync obtain q w where
    q: "sync_queue (ins_client I) (fifo_queue (fst s)) (snd s) = (Ok (), q, w)"
    and "fifo_queue (fst s1) = q"
    by (auto simp: sync_context_with_blockchain_def split: prod.splits)
  with sync_queue_Ok [OF q] same show ?thesis by auto
qed

lemma inscribe_queue:
  assumes "inscribe_with_recipient L I m config rcpt s = (Ok info, s')"
  shows "\<exists>conf rest. fifo_queue (fst s) = conf @ rest
    \<and> (\<forall>r \<in> set conf. confirmed_in (ins_client I) r)
    \<and> fifo_queue (fst s') = rest @ [request_of_info L m info]"
  using inscribe_with_recipient_Ok [OF assms] prepare_inscribe_queue by fastforce

text \<open>The inputs recorded for a request are those of its commit transaction.\<close>

definition request_outpoints :: "inscription_request \<Rightarrow> out_point list" where
  "request_outpoints r = map previous_output (spent_utxo (commit_inputs r))"

lemma request_outpoints_of_info:
  assumes "lib_amounts L" "prepare_inscribe L I m config rcpt s = (Ok info, s')"
  shows "request_outpoints (request_of_info L m' info)
       = map previous_output (tx_input (ftx_tx (final_commit_tx info)))"
  using commit_input_outpoints(2) [OF assms]
  by (simp add: request_outpoints_def request_of_info_def)

text \<open>While a request is pending, the inputs of its commit transaction and the fee input of its reveal
  transaction are taken for spent.\<close>

lemma pending_inputs_spent:
  assumes L: "lib_amounts L" and run: "prepare_inscribe L I m config rcpt s = (Ok info, s')"
    and q: "request_of_info L k info \<in> set q"
  shows "previous_output ` set (tx_input (ftx_tx (final_commit_tx info))) \<subseteq> set (spent_utxos q)"
    and "previous_output (hd (tx_input (ftx_tx (final_reveal_tx info)))) \<in> set (spent_utxos q)"
proof -
  note spent = spent_utxos_complete(1) [OF q]
  have "previous_output ` set (commit_tx_inputs (commit_tx_input_info info)) \<subseteq> set (spent_utxos q)"
    using spent by (auto simp: spent_by_def request_of_info_def)
  then show "previous_output ` set (tx_input (ftx_tx (final_commit_tx info))) \<subseteq> set (spent_utxos q)"
    using commit_input_outpoints(2) [OF L run] by (metis list.set_map)
  have "ftx_txid (final_commit_tx info) = compute_txid L (ftx_tx (final_commit_tx info))"
    using run by (blast elim!: prepare_inscribe_Ok intro: sign_commit_tx_Ok(3))
  then have "previous_output (hd (tx_input (ftx_tx (final_reveal_tx info))))
      = \<lparr>op_txid = ftx_txid (final_commit_tx info), op_vout = REVEAL_TX_FEE_INPUT_INDEX\<rparr>"
    using reveal_spends_commit [OF run] by (cases "tx_input (ftx_tx (final_reveal_tx info))") (auto simp: tx_layout)
  then show "previous_output (hd (tx_input (ftx_tx (final_reveal_tx info)))) \<in> set (spent_utxos q)"
    using spent by (auto simp: spent_by_def request_of_info_def)
qed

lemma commit_spends_head_change:
  assumes L: "lib_amounts L"
    and run: "inscribe_with_recipient L I m config rcpt s = (Ok info, s')"
    and q: "fifo_queue (fst s') = r # q @ [request_of_info L m info]"
    and inv: "request_inv r"
  shows "reveal_change_of r \<in> set (request_outpoints (request_of_info L m info))"
proof -
  obtain s1 where prep: "prepare_inscribe L I m config rcpt s = (Ok info, s1)"
    and "fifo_queue (fst s') = fifo_queue (fst s1) @ [request_of_info L m info]"
    using inscribe_with_recipient_Ok [OF run] by auto
  then have q1: "fifo_queue (fst s1) = r # q" using q by simp
  from commit_input_outpoints(1) [OF L prep] obtain utxos where
    "map previous_output (tx_input (ftx_tx (final_commit_tx info)))
       = map fst (spendable_utxos (ins_signer I) (r # q) utxos)"
    unfolding q1 by blast
  with spendable_head_change [OF inv, of "ins_signer I" q utxos]
    request_outpoints_of_info [OF L prep]
  show ?thesis by (simp add: image_def)
qed

end
