(* ===== verification/Ref_Lib.thy ===== *)
theory Ref_Lib
  imports Inscriber
begin

text \<open>
  A concrete instance of the Bitcoin library parameters.  Scripts have their real encoding
  (opcodes below 0x4C push that many bytes, \<^verbatim>\<open>OP_PUSHDATA1/2/4\<close> carry a little-endian length);
  amounts are checked 64-bit sums; hash types accept exactly the slices of their size.  Keys,
  signatures and control blocks are numbers with a byte form, addresses have a text form of 128
  letters, and a transaction id is a digest of the transaction without its witnesses.  The
  instance satisfies every law the development assumes of the library, so the theorems apply to
  it, and it computes, so they can be applied to concrete inputs.
\<close>

section \<open>Numbers as bytes\<close>

fun bytes_of_nat :: "nat \<Rightarrow> bytes" where
  "bytes_of_nat n = (if n = 0 then [] else of_nat (n mod 256) # bytes_of_nat (n div 256))"

declare bytes_of_nat.simps [simp del]

fun nat_of_bytes :: "bytes \<Rightarrow> nat" where
  "nat_of_bytes [] = 0"
| "nat_of_bytes (b # bs) = unat b + 256 * nat_of_bytes bs"

lemma nat_of_bytes_of_nat [simp]: "nat_of_bytes (bytes_of_nat n) = n"
proof (induction n rule: bytes_of_nat.induct)
  case (1 n)
  then show ?case by (simp add: bytes_of_nat.simps [of n] unat_of_nat_u8)
qed

lemma be_nat_snoc [simp]: "be_nat (bs @ [b]) = be_nat bs * 256 + unat b"
  by (simp add: be_nat_def)

lemma be_bytes_be_nat: "be_bytes (length bs) (be_nat bs) = bs"
proof (induction bs rule: rev_induct)
  case (snoc b bs)
  have b: "unat b < 256" using unsigned_less [of b, where 'a = nat] by simp
  have "(of_nat (be_nat bs * 256 + unat b) :: u8) = b"
    unfolding word_unat_eq_iff unat_of_nat_u8 using b by simp
  then show ?case using b snoc by simp
qed simp

section \<open>Scripts\<close>

definition le_bytes :: "nat \<Rightarrow> nat \<Rightarrow> bytes" where
  "le_bytes k n = rev (be_bytes k n)"

definition push_header :: "nat \<Rightarrow> bytes" where
  "push_header n =
     (if n < 0x4C then [of_nat n]
      else if n < 0x100 then 0x4C # le_bytes 1 n
      else if n < 0x10000 then 0x4D # le_bytes 2 n
      else 0x4E # le_bytes 4 n)"

fun ref_item :: "script_item \<Rightarrow> bytes" where
  "ref_item (PushSlice b) = push_header (length b) @ b"
| "ref_item (PushOpcode c) = [c]"

definition ref_into_script :: "script_item list \<Rightarrow> script" where
  "ref_into_script items = concat (map ref_item items)"

text \<open>The data after a length field of \<open>k\<close> bytes, and the rest of the script.\<close>

definition read_push :: "nat \<Rightarrow> bytes \<Rightarrow> (bytes \<times> bytes) option" where
  "read_push k bs =
     (let n = be_nat (rev (take k bs)) in
      if length bs < k + n then None else Some (take n (drop k bs), drop (k + n) bs))"

definition next_instruction :: "u8 \<Rightarrow> bytes \<Rightarrow> (instruction \<times> bytes) option" where
  "next_instruction c bs =
     (if c < 0x4C then
        (if length bs < unat c then None
         else Some (PushBytes (take (unat c) bs), drop (unat c) bs))
      else if c = 0x4C then map_option (apfst PushBytes) (read_push 1 bs)
      else if c = 0x4D then map_option (apfst PushBytes) (read_push 2 bs)
      else if c = 0x4E then map_option (apfst PushBytes) (read_push 4 bs)
      else Some (Op c, bs))"

lemma next_instruction_shorter:
  "next_instruction c bs = Some (i, rest) \<Longrightarrow> length rest \<le> length bs"
  by (auto simp: next_instruction_def read_push_def Let_def split: if_splits)

text \<open>A script that ends inside a push yields no instruction for it.\<close>

function ref_instructions :: "script \<Rightarrow> instruction list" where
  "ref_instructions [] = []"
| "ref_instructions (c # bs) = (case next_instruction c bs of
       None \<Rightarrow> []
     | Some (i, rest) \<Rightarrow> i # ref_instructions rest)"
  by pat_completeness auto
termination
  by (relation "measure length") (auto dest!: next_instruction_shorter simp: le_imp_less_Suc)

lemma read_push_append:
  assumes "length b < 256 ^ k"
  shows "read_push k (le_bytes k (length b) @ b @ rest) = Some (b, rest)"
  using assms by (simp add: read_push_def le_bytes_def be_nat_be_bytes)

lemma next_instruction_push:
  assumes "length b < 2 ^ 32"
  shows "\<exists>c bs. push_header (length b) @ b @ rest = c # bs
       \<and> next_instruction c bs = Some (PushBytes b, rest)"
proof -
  consider "length b < 0x4C" | "0x4C \<le> length b" "length b < 0x100"
    | "0x100 \<le> length b" "length b < 0x10000" | "0x10000 \<le> length b"
    by linarith
  then show ?thesis
  proof cases
    case 1
    then have "unat (of_nat (length b) :: u8) = length b" by (simp add: unat_of_nat_u8)
    moreover from this 1 have "(of_nat (length b) :: u8) < 0x4C" by (simp add: word_less_nat_alt)
    ultimately show ?thesis using 1 by (simp add: push_header_def next_instruction_def)
  next
    case 2
    then have h: "push_header (length b) = 0x4C # le_bytes 1 (length b)"
      unfolding push_header_def by simp
    show ?thesis using 2 read_push_append [of b 1 rest]
      unfolding h by (simp add: next_instruction_def)
  next
    case 3
    then have h: "push_header (length b) = 0x4D # le_bytes 2 (length b)"
      unfolding push_header_def by simp
    show ?thesis using 3 read_push_append [of b 2 rest]
      unfolding h by (simp add: next_instruction_def)
  next
    case 4
    then have h: "push_header (length b) = 0x4E # le_bytes 4 (length b)"
      unfolding push_header_def by simp
    show ?thesis using assms read_push_append [of b 4 rest]
      unfolding h by (simp add: next_instruction_def)
  qed
qed

lemma next_instruction_opcode:
  assumes "c = 0 \<or> 0x4E < (c :: u8)"
  shows "next_instruction c rest = Some (item_instruction (PushOpcode c), rest)"
proof (cases "c = 0")
  case False
  then have c: "0x4E < c" using assms by simp
  then have "\<not> c < 0x4C" "c \<noteq> 0x4C" "c \<noteq> 0x4D" "c \<noteq> 0x4E"
    by (auto simp: word_less_nat_alt)
  with False show ?thesis by (simp add: next_instruction_def)
qed (simp add: next_instruction_def)

lemma ref_script_codec:
  "list_all item_plain items \<Longrightarrow>
     ref_instructions (ref_into_script items) = map item_instruction items"
proof (induction items)
  case Nil
  then show ?case by (simp add: ref_into_script_def)
next
  case (Cons i items)
  show ?case
  proof (cases i)
    case (PushSlice b)
    with Cons.prems have "length b < 2 ^ 32" by simp
    from next_instruction_push [OF this, of "ref_into_script items"] obtain c bs where
      "push_header (length b) @ b @ ref_into_script items = c # bs"
      "next_instruction c bs = Some (PushBytes b, ref_into_script items)"
      by blast
    with PushSlice Cons show ?thesis by (simp add: ref_into_script_def)
  next
    case (PushOpcode c)
    with Cons.prems have "next_instruction c (ref_into_script items)
        = Some (item_instruction i, ref_into_script items)"
      using next_instruction_opcode by simp
    with PushOpcode Cons show ?thesis by (simp add: ref_into_script_def)
  qed
qed

section \<open>Addresses and keys\<close>

text \<open>An address handle: two bits of network, one bit of kind, the hash or key above.\<close>

fun network_index :: "network \<Rightarrow> nat" where
  "network_index Bitcoin = 0"
| "network_index Testnet = 1"
| "network_index Signet = 2"
| "network_index Regtest = 3"

definition ref_p2wpkh :: "public_key \<Rightarrow> network \<Rightarrow> address" where
  "ref_p2wpkh pk n = (case pk of PublicKey k \<Rightarrow>
     Address (of_nat (8 * (k mod 2 ^ 160) + network_index n)))"

definition ref_p2tr :: "taproot_spend_info \<Rightarrow> network \<Rightarrow> address" where
  "ref_p2tr info n = (case info of TaprootSpendInfo k \<Rightarrow>
     Address (of_nat (8 * (k mod 2 ^ 256) + 4 + network_index n)))"

definition ref_valid_for :: "address \<Rightarrow> network \<Rightarrow> bool" where
  "ref_valid_for a n = (case a of Address w \<Rightarrow> unat w mod 4 = network_index n)"

definition ref_address_script :: "address \<Rightarrow> script" where
  "ref_address_script a = (case a of Address w \<Rightarrow>
     if unat w div 4 mod 2 = 0 then 0x00 # 0x14 # be_bytes 20 (unat w div 8)
     else 0x51 # 0x20 # be_bytes 32 (unat w div 8))"

definition ref_is_p2wpkh_script :: "script \<Rightarrow> bool" where
  "ref_is_p2wpkh_script s \<longleftrightarrow> length s = 22 \<and> take 2 s = [0x00, 0x14]"

fun letters :: "nat \<Rightarrow> nat \<Rightarrow> bytes" where
  "letters 0 n = []"
| "letters (Suc k) n = letters k (n div 16) @ [of_nat (0x41 + n mod 16)]"

definition letters_value :: "bytes \<Rightarrow> nat" where
  "letters_value bs = foldl (\<lambda>a b. a * 16 + (unat b - 0x41)) 0 bs"

lemma length_letters [simp]: "length (letters k n) = k"
  by (induction k arbitrary: n) simp_all

lemma unat_letter: "unat (of_nat (0x41 + n mod 16) :: u8) = 0x41 + n mod 16"
proof -
  have "0x41 + n mod 16 < 256" using mod_less_divisor [of 16 n] by linarith
  then show ?thesis by (simp only: unat_of_nat_u8 mod_less)
qed

lemma letters_value_letters: "n < 16 ^ k \<Longrightarrow> letters_value (letters k n) = n"
proof (induction k arbitrary: n)
  case 0
  then show ?case by (simp add: letters_value_def)
next
  case (Suc k)
  then have "n div 16 < 16 ^ k" by (simp add: less_mult_imp_div_less mult.commute)
  with Suc.IH have "letters_value (letters k (n div 16)) = n div 16" by blast
  then show ?case using unat_letter [of n] by (simp add: letters_value_def)
qed

lemma letters_ascii: "list_all (\<lambda>b. b < 0x80) (letters k n)"
proof (induction k arbitrary: n)
  case (Suc k)
  have "(of_nat (0x41 + n mod 16) :: u8) < 0x80"
    unfolding word_less_nat_alt unat_letter using mod_less_divisor [of 16 n] by simp
  with Suc show ?case by simp
qed simp

definition ref_address_to_string :: "address \<Rightarrow> bytes" where
  "ref_address_to_string a = (case a of Address w \<Rightarrow> letters 128 (unat w))"

definition ref_address_parse :: "bytes \<Rightarrow> address option" where
  "ref_address_parse bs =
     (if length bs = 128 then Some (Address (of_nat (letters_value bs))) else None)"

lemma ref_address_roundtrip: "ref_address_parse (ref_address_to_string a) = Some a"
proof (cases a)
  case (Address w)
  have "unat w < 2 ^ 512" using unsigned_less [of w, where 'a = nat] by simp
  also have "(2 :: nat) ^ 512 = 16 ^ 128" by (simp add: power_mult [of 2 4 128, symmetric])
  finally have "unat w < 16 ^ 128" .
  from letters_value_letters [OF this] Address show ?thesis
    by (simp add: ref_address_parse_def ref_address_to_string_def)
qed

section \<open>Transactions\<close>

definition mix :: "nat list \<Rightarrow> nat" where
  "mix ns = foldl (\<lambda>a n. (a * 1000003 + n + 1) mod 2 ^ 256) 7 ns"

definition ref_txid :: "transaction \<Rightarrow> txid" where
  "ref_txid tx = be_bytes 32 (mix
     (map (\<lambda>i. mix [be_nat (op_txid (previous_output i)), unat (op_vout (previous_output i))])
        (tx_input tx)
      @ map (\<lambda>out. mix [unat (txo_value out), be_nat (script_pubkey out)]) (tx_output tx)))"

definition ref_amount_add :: "amount \<Rightarrow> amount \<Rightarrow> amount option" where
  "ref_amount_add a b = (if unat a + unat b < 2 ^ 64 then Some (a + b) else None)"

definition ref_checked_sub :: "amount \<Rightarrow> amount \<Rightarrow> amount option" where
  "ref_checked_sub a b = (if b \<le> a then Some (a - b) else None)"

definition sized :: "nat \<Rightarrow> bytes \<Rightarrow> bytes option" where
  "sized n bs = (if length bs = n then Some bs else None)"

definition ref_lib :: btc_lib where
  "ref_lib =
     \<lparr>script_instructions = ref_instructions,
      into_script = ref_into_script,
      push_bytes_buf = (\<lambda>bs. if length bs < 2 ^ 32 then Some bs else None),
      address_parse = ref_address_parse,
      address_to_string = ref_address_to_string,
      address_is_valid_for = ref_valid_for,
      address_script_pubkey = ref_address_script,
      public_key_from_slice = (\<lambda>bs. Some (PublicKey (nat_of_bytes bs))),
      is_compressed = (\<lambda>_. True),
      address_p2wpkh = ref_p2wpkh,
      is_p2wpkh_script = ref_is_p2wpkh_script,
      taproot_signature_from_slice = (\<lambda>bs. Some (TaprootSignature (nat_of_bytes bs))),
      control_block_decode = (\<lambda>bs. Some (ControlBlock (nat_of_bytes bs))),
      control_block_serialize = (\<lambda>cb. case cb of ControlBlock k \<Rightarrow> bytes_of_nat k),
      internal_key_bytes = (\<lambda>cb. case cb of ControlBlock k \<Rightarrow> be_bytes 32 k),
      xonly_from_slice = sized 32,
      h256_from_slice = sized 32,
      h160_from_slice = sized 20,
      txid_from_slice = sized 32,
      compute_txid = ref_txid,
      compute_ntxid = ref_txid,
      raw_hex = ref_txid,
      taproot_finalize = (\<lambda>scr key.
        if length key = 32 then Some (TaprootSpendInfo (be_nat key)) else None),
      address_p2tr_tweaked = ref_p2tr,
      taproot_control_block = (\<lambda>info scr. case info of TaprootSpendInfo k \<Rightarrow>
        Some (ControlBlock k)),
      amount_add = ref_amount_add,
      amount_checked_sub = ref_checked_sub,
      p2wpkh_signature_hash = (\<lambda>tx i spk v.
        if i < length (tx_input tx) then Some (ref_txid tx) else None),
      taproot_script_spend_signature_hash = (\<lambda>tx i prevs scr.
        if i < length (tx_input tx) then Some (ref_txid tx) else None),
      witness_p2wpkh = (\<lambda>sig pk. case (sig, pk) of (EcdsaSignature s, PublicKey k) \<Rightarrow>
        [bytes_of_nat s, bytes_of_nat k]),
      taproot_signature_all = (\<lambda>s. case s of SchnorrSignature k \<Rightarrow> TaprootSignature k),
      taproot_signature_to_vec = (\<lambda>s. case s of TaprootSignature k \<Rightarrow> bytes_of_nat k)\<rparr>"

lemma ref_lib_simps [simp]:
  "script_instructions ref_lib = ref_instructions"
  "into_script ref_lib = ref_into_script"
  "push_bytes_buf ref_lib = (\<lambda>bs. if length bs < 2 ^ 32 then Some bs else None)"
  "address_parse ref_lib = ref_address_parse"
  "address_to_string ref_lib = ref_address_to_string"
  "address_is_valid_for ref_lib = ref_valid_for"
  "address_script_pubkey ref_lib = ref_address_script"
  "public_key_from_slice ref_lib = (\<lambda>bs. Some (PublicKey (nat_of_bytes bs)))"
  "is_compressed ref_lib = (\<lambda>_. True)"
  "address_p2wpkh ref_lib = ref_p2wpkh"
  "is_p2wpkh_script ref_lib = ref_is_p2wpkh_script"
  "taproot_signature_from_slice ref_lib = (\<lambda>bs. Some (TaprootSignature (nat_of_bytes bs)))"
  "control_block_decode ref_lib = (\<lambda>bs. Some (ControlBlock (nat_of_bytes bs)))"
  "control_block_serialize ref_lib = (\<lambda>cb. case cb of ControlBlock k \<Rightarrow> bytes_of_nat k)"
  "internal_key_bytes ref_lib = (\<lambda>cb. case cb of ControlBlock k \<Rightarrow> be_bytes 32 k)"
  "xonly_from_slice ref_lib = sized 32"
  "h256_from_slice ref_lib = sized 32"
  "h160_from_slice ref_lib = sized 20"
  "txid_from_slice ref_lib = sized 32"
  "compute_txid ref_lib = ref_txid"
  "compute_ntxid ref_lib = ref_txid"
  "raw_hex ref_lib = ref_txid"
  "taproot_finalize ref_lib = (\<lambda>scr key. if length key = 32 then Some (TaprootSpendInfo (be_nat key)) else None)"
  "address_p2tr_tweaked ref_lib = ref_p2tr"
  "taproot_control_block ref_lib = (\<lambda>info scr. case info of TaprootSpendInfo k \<Rightarrow> Some (ControlBlock k))"
  "amount_add ref_lib = ref_amount_add"
  "amount_checked_sub ref_lib = ref_checked_sub"
  "p2wpkh_signature_hash ref_lib = (\<lambda>tx i spk v. if i < length (tx_input tx) then Some (ref_txid tx) else None)"
  "taproot_script_spend_signature_hash ref_lib = (\<lambda>tx i prevs scr. if i < length (tx_input tx) then Some (ref_txid tx) else None)"
  "witness_p2wpkh ref_lib = (\<lambda>sig pk. case (sig, pk) of (EcdsaSignature s, PublicKey k) \<Rightarrow> [bytes_of_nat s, bytes_of_nat k])"
  "taproot_signature_all ref_lib = (\<lambda>s. case s of SchnorrSignature k \<Rightarrow> TaprootSignature k)"
  "taproot_signature_to_vec ref_lib = (\<lambda>s. case s of TaprootSignature k \<Rightarrow> bytes_of_nat k)"
  by (simp_all add: ref_lib_def)

lemma ref_lib_laws:
  "lib_script_codec ref_lib"
  "lib_push_bytes ref_lib"
  "lib_hash_sizes ref_lib"
  "lib_address_text ref_lib"
  "lib_control_block ref_lib"
  "lib_amounts ref_lib"
  "lib_taproot_signature ref_lib"
  "lib_p2wpkh_witness ref_lib"
  "lib_taproot_internal_key ref_lib"
proof -
  show "lib_script_codec ref_lib"
    by (simp add: lib_script_codec_def ref_script_codec)
  show "lib_push_bytes ref_lib" by (simp add: lib_push_bytes_def)
  show "lib_hash_sizes ref_lib" by (simp add: lib_hash_sizes_def sized_def)
  show "lib_address_text ref_lib"
    using ref_address_roundtrip
    by (simp add: lib_address_text_def
        ref_address_to_string_def letters_ascii split: address.split)
  show "lib_control_block ref_lib"
    by (simp add: lib_control_block_def split: control_block.split)
  show "lib_amounts ref_lib"
    by (simp add: lib_amounts_def ref_amount_add_def ref_checked_sub_def)
  show "lib_taproot_signature ref_lib"
    by (simp add: lib_taproot_signature_def split: taproot_signature.split)
  show "lib_p2wpkh_witness ref_lib"
    by (simp add: lib_p2wpkh_witness_def
        split: ecdsa_signature.split public_key.split)
  show "lib_taproot_internal_key ref_lib"
    using be_bytes_be_nat
    by (auto simp: lib_taproot_internal_key_def
        split: taproot_spend_info.splits control_block.splits if_splits) (metis)
qed

section \<open>Keys\<close>

definition ref_keys :: key_lib where
  "ref_keys =
     \<lparr>private_key_from_wif = (\<lambda>bs. Ok (PrivateKey (nat_of_bytes bs))),
      private_key_inner = (\<lambda>k. case k of PrivateKey n \<Rightarrow> SecretKey n),
      public_key_of = (\<lambda>k. case k of SecretKey n \<Rightarrow> PublicKey n),
      wpubkey_hash = (\<lambda>k. case k of PublicKey n \<Rightarrow> Some (be_bytes 20 (n mod 2 ^ 160))),
      compressed_from_private_key = (\<lambda>k. case k of PrivateKey n \<Rightarrow> Ok (PublicKey n)),
      x_only_public_key = (\<lambda>k. case k of SecretKey n \<Rightarrow> be_bytes 32 n),
      script_new_p2wpkh = (\<lambda>h. 0x00 # 0x14 # h),
      secp_sign_ecdsa = (\<lambda>msg k. EcdsaSignature (be_nat msg)),
      secp_sign_schnorr_no_aux_rand = (\<lambda>msg k. SchnorrSignature (be_nat msg))\<rparr>"

lemma network_index_less: "network_index n < 4"
  by (cases n) simp_all

lemma ref_p2wpkh_handle:
  "\<exists>w. ref_p2wpkh (PublicKey k) n = Address w
     \<and> unat w = 8 * (k mod 2 ^ 160) + network_index n"
proof -
  let ?h = "k mod 2 ^ 160"
  have "8 * ?h + network_index n < 2 ^ 164"
    using network_index_less [of n] mod_less_divisor [of "2 ^ 160" k] by simp
  also have "(2 :: nat) ^ 164 \<le> 2 ^ 512" by (rule power_increasing) simp_all
  finally have "8 * ?h + network_index n < 2 ^ 512" .
  then have "unat (of_nat (8 * ?h + network_index n) :: 512 word) = 8 * ?h + network_index n"
    by (simp only: unat_of_nat) (simp add: len_bit0 len_num1)
  then show ?thesis by (simp only: ref_p2wpkh_def public_key.case) blast
qed

lemma ref_p2wpkh_script:
  "ref_address_script (ref_p2wpkh (PublicKey k) n) = 0x00 # 0x14 # be_bytes 20 (k mod 2 ^ 160)"
proof -
  obtain w where w: "ref_p2wpkh (PublicKey k) n = Address w"
    "unat w = 8 * (k mod 2 ^ 160) + network_index n"
    using ref_p2wpkh_handle by blast
  have "(8 * m + network_index n) div 4 mod 2 = 0"
    "(8 * m + network_index n) div 8 = m" for m using network_index_less [of n] by presburger+
  then show ?thesis by (simp only: w ref_address_script_def address.case if_True simp_thms)
qed

lemma ref_p2wpkh_valid [simp]: "ref_valid_for (ref_p2wpkh (PublicKey k) n) n"
proof -
  obtain w where w: "ref_p2wpkh (PublicKey k) n = Address w"
    "unat w = 8 * (k mod 2 ^ 160) + network_index n"
    using ref_p2wpkh_handle by blast
  have "(8 * m + network_index n) mod 4 = network_index n" for m
    using network_index_less [of n] by presburger
  then show ?thesis by (simp only: w ref_valid_for_def address.case)
qed

lemma ref_keys_ok: "key_lib_ok ref_lib ref_keys"
  by (auto simp: key_lib_ok_def ref_keys_def ref_p2wpkh_script
      split: private_key.splits secret_key.splits public_key.splits)

end
