(* ===== verification/Ref_Node.thy ===== *)
theory Ref_Node
  imports Indexer Ref_Lib
begin

text \<open>
  A concrete signer and a concrete Bitcoin node over the library instance of \<open>Ref_Lib\<close>: a
  Regtest wallet with one output, and three bootstrap transactions by its owner, the only
  verifier (a bootstrapping message, a sequencer proposal and a vote for it).
\<close>

section \<open>A signer\<close>

definition demo_key :: key_manager where
  "demo_key = \<lparr>km_sk = SecretKey 5, km_address = ref_p2wpkh (PublicKey 5) Regtest,
     km_internal_key = be_bytes 32 5, km_script_pubkey = 0x00 # 0x14 # be_bytes 20 5\<rparr>"

lemma demo_key_new: "key_manager_new ref_lib ref_keys [5] Regtest = Ok demo_key"
  by (simp add: key_manager_new_def ref_keys_def demo_key_def)

definition demo_signer :: btc_signer where
  "demo_signer = key_manager_signer ref_keys demo_key"

lemma demo_signer_ok: "signer_ok ref_lib Regtest demo_signer"
  unfolding demo_signer_def by (rule key_manager_signer_ok [OF ref_keys_ok demo_key_new])

section \<open>Inscription transactions\<close>

definition demo_fee_in :: tx_in where
  "demo_fee_in = (unsigned_input \<lparr>op_txid = replicate 32 1, op_vout = 0\<rparr>)
     \<lparr>witness := [bytes_of_nat 1, bytes_of_nat 5]\<rparr>"

definition demo_tap_in :: "inscription_message \<Rightarrow> tx_in" where
  "demo_tap_in m = (unsigned_input \<lparr>op_txid = replicate 32 1, op_vout = 1\<rparr>)
     \<lparr>witness := [bytes_of_nat 1,
        ref_into_script (basic_items (be_bytes 32 5) @ message_items ref_lib m
          @ [PushOpcode OP_ENDIF]),
        bytes_of_nat 5]\<rparr>"

definition demo_tx :: "inscription_message \<Rightarrow> tx_out list \<Rightarrow> transaction" where
  "demo_tx m outs =
     \<lparr>tx_version = 2, lock_time = 0, tx_input = [demo_fee_in, demo_tap_in m], tx_output = outs\<rparr>"

lemma demo_tx_inputs: "tx_input (demo_tx m outs) = [demo_fee_in, demo_tap_in m]"
  by (simp add: demo_tx_def)

lemma demo_tx_outputs [simp]: "tx_output (demo_tx m outs) = outs"
  by (simp add: demo_tx_def)

lemma demo_fee_sender:
  "parse_p2wpkh ref_lib n (witness demo_fee_in) = Some (ref_p2wpkh (PublicKey 5) n)"
  by (simp add: parse_p2wpkh_def demo_fee_in_def)

lemma demo_tap_reveals:
  "reveals ref_lib (demo_tap_in m) (be_bytes 32 5) m (TaprootSignature 1) (ControlBlock 5)"
  unfolding reveals_def demo_tap_in_def by (intro exI [of _ "bytes_of_nat 1"]) simp

definition demo_common :: "transaction \<Rightarrow> u32 \<Rightarrow> common_fields" where
  "demo_common tx h = inscription_common ref_lib tx h (ref_p2wpkh (PublicKey 5) Regtest)
     (TaprootSignature 1) (ControlBlock 5)"

lemma demo_common_sender [simp]:
  "p2wpkh_address (demo_common tx h) = ref_p2wpkh (PublicKey 5) Regtest"
  by (simp add: demo_common_def inscription_common_def)

lemma demo_tx_parses:
  assumes "wf_message ref_lib Regtest m" "mp_network p = Regtest"
  shows "parse_transaction ref_lib (demo_tx m outs) h p
       = (if is_no_vote m then (Ok [], p)
          else (Ok [full_of_message ref_lib p (demo_tx m outs) (demo_common (demo_tx m outs) h) m],
                parser_after m p))"
  using parse_reveal_transaction
    [OF ref_lib_laws(1,5,4,3) length_be_bytes demo_tx_inputs demo_fee_sender demo_tap_reveals]
    assms by (simp add: demo_common_def)

section \<open>A node\<close>

definition demo_bootstrapping :: inscription_message where
  "demo_bootstrapping = SystemBootstrapping \<lparr>start_block_height = 1,
     verifier_p2wpkh_addresses = [ref_p2wpkh (PublicKey 5) Regtest],
     bridge_p2wpkh_mpc_address = ref_p2wpkh (PublicKey 6) Regtest,
     sb_bootloader_hash = replicate 32 1, sb_abstract_account_hash = replicate 32 2\<rparr>"

definition demo_proposal :: "nat \<Rightarrow> inscription_message" where
  "demo_proposal k = ProposeSequencer
     \<lparr>sequencer_new_p2wpkh_address = ref_p2wpkh (PublicKey k) Regtest\<rparr>"

definition demo_vote :: "vote \<Rightarrow> inscription_message" where
  "demo_vote v = ValidatorAttestation \<lparr>reference_txid = replicate 32 2, attestation = v\<rparr>"

definition demo_client :: "nat btc_ops" where
  "demo_client =
     \<lparr>ops_get_balance = (\<lambda>a. io_return 100000),
      ops_broadcast_signed_transaction = (\<lambda>tx. io_bind (io_modify Suc) (\<lambda>_. io_return tx)),
      ops_fetch_utxos = (\<lambda>a. io_return
        [(\<lparr>op_txid = replicate 32 1, op_vout = 0\<rparr>,
          \<lparr>txo_value = 100000, script_pubkey = km_script_pubkey demo_key\<rparr>)]),
      ops_check_tx_confirmation = (\<lambda>t c. io_return False),
      ops_fetch_block_height = io_return 7,
      ops_get_fee_rate = (\<lambda>c. io_return 2),
      ops_get_network = Regtest,
      ops_fetch_block = (\<lambda>h. io_return
        \<lparr>prev_blockhash = replicate 32 0, txdata = [demo_tx demo_bootstrapping []]\<rparr>),
      ops_get_transaction = (\<lambda>t.
        if t = replicate 32 1 then io_return (demo_tx demo_bootstrapping [])
        else if t = replicate 32 2 then io_return (demo_tx (demo_proposal 7) [])
        else if t = replicate 32 3 then io_return (demo_tx (demo_vote Vote_Ok) [])
        else io_err (Rpc ''unknown transaction'')),
      ops_fetch_block_by_hash = (\<lambda>h. io_return
        \<lparr>prev_blockhash = replicate 32 0, txdata = []\<rparr>)\<rparr>"

definition demo :: "nat inscriber" where
  "demo = \<lparr>ins_client = demo_client, ins_signer = demo_signer\<rparr>"

lemma demo_network [simp]: "ops_get_network (ins_client demo) = Regtest"
  by (simp add: demo_def demo_client_def)

lemma demo_ins_signer [simp]: "ins_signer demo = demo_signer"
  by (simp add: demo_def)

section \<open>An inscription of the signer\<close>

definition demo_message :: inscription_message where
  "demo_message = ProofDAReference \<lparr>l1_batch_reveal_txid = replicate 32 9,
     proof_da_identifier = ascii ''celestia'', proof_blob_id = ascii ''blob''\<rparr>"

lemma length_ref_into_script:
  "length (ref_into_script items) = sum_list (map (length \<circ> ref_item) items)"
  by (simp add: ref_into_script_def length_concat comp_def)

lemma wf_demo_message: "wf_message ref_lib Regtest demo_message"
  by (simp add: demo_message_def wf_string_def utf8_valid_ascii ascii_def fits_def)

lemma demo_script_length:
  "length (ref_into_script (basic_items (be_bytes 32 5) @ message_items ref_lib demo_message
     @ [PushOpcode OP_ENDIF])) = 133"
  by (simp add: length_ref_into_script basic_items_def demo_message_def push_header_def)

lemma demo_data_new:
  "\<exists>d. inscription_data_new ref_lib demo_message (be_bytes 32 5) Regtest = Ok d
     \<and> script_size d = 133 \<and> spend_info d = TaprootSpendInfo 5"
  using demo_script_length wf_demo_message
  by (simp add: inscription_data_new_def complete_inscription_def Let_def
      construct_inscription_commitment_data_def basic_script_items inscription_items_shape
      ref_lib_laws be_nat_be_bytes)

lemmas demo_run_defs =
  demo_def demo_signer_def key_manager_signer_def demo_key_def demo_client_def ref_keys_def
  prepare_commit_tx_input_def on_client_def io_zoom_def io_map_err_def io_bind_def
  spendable_utxos_def is_p2wpkh_def ref_amount_add_def prepare_commit_tx_output_def
  get_fee_rate_def estimate_fee_eq size_spec_def tx_counts ref_checked_sub_def Let_def
  sign_commit_tx_def sign_p2wpkh_input_def set_witness_def prepare_reveal_tx_input_def
  make_final_tx_def prepare_reveal_tx_output_def sign_reveal_tx_def tx_layout word_le_nat_alt
  sync_context_with_blockchain_def

lemma demo_prepare:
  "\<exists>info. prepare_inscribe ref_lib demo demo_message inscription_config_default None
      (inscriber_context_new, n) = (Ok info, inscriber_context_new, n)
    \<and> txo_value (reveal_tx_change_output (reveal_tx_output_info info)) = 99268"
proof -
  obtain d where d: "inscription_data_new ref_lib demo_message (be_bytes 32 5) Regtest = Ok d"
    "script_size d = 133" "spend_info d = TaprootSpendInfo 5"
    using demo_data_new by blast
  show ?thesis
    by (simp add: prepare_inscribe_def inscriber_context_new_def d demo_run_defs)
qed

text \<open>Inscribing with an empty queue and with one or two pending inscriptions, whose heads the
  node does not report as confirmed.\<close>

definition demo_pending :: "nat \<Rightarrow> inscription_request" where
  "demo_pending k =
     \<lparr>ir_message = demo_message,
      inscriber_out = \<lparr>commit_txid = be_bytes 32 (2 * k), commit_raw_tx = [],
        commit_tx_fee_rate = 2, reveal_txid = be_bytes 32 (2 * k + 1), reveal_raw_tx = [],
        reveal_tx_fee_rate = 2, is_broadcasted = True\<rparr>,
      fee_payer = \<lparr>fee_payer_utxo_txid = be_bytes 32 (2 * k + 1), fee_payer_utxo_vout = 0,
        fee_payer_utxo_value = 50000\<rparr>,
      commit_inputs = \<lparr>spent_utxo = []\<rparr>\<rparr>"

lemma demo_pending_inv [simp]: "request_inv (demo_pending k)"
  by (simp add: request_inv_def demo_pending_def tx_layout)

lemma demo_prepare_head:
  assumes "length q \<le> 1" and h: "fee_payer_utxo_value (fee_payer h) = v" and v: "v = 50000 \<or> v = 99268"
  shows "\<exists>info. prepare_inscribe ref_lib demo demo_message inscription_config_default None
      (\<lparr>fifo_queue = h # q\<rparr>, n) = (Ok info, \<lparr>fifo_queue = h # q\<rparr>, n)"
proof -
  obtain d where d: "inscription_data_new ref_lib demo_message (be_bytes 32 5) Regtest = Ok d"
    "script_size d = 133" "spend_info d = TaprootSpendInfo 5"
    using demo_data_new by blast
  have len: "length q = 0 \<or> length q = 1" using assms(1) by arith
  show ?thesis
    using len v
    by (cases "\<lparr>op_txid = replicate 32 1, op_vout = 0\<rparr> \<in> set (spent_utxos (h # q))")
      (auto simp: prepare_inscribe_def d h inscription_config_default_def
        FEE_RATE_INCREASE_PER_PENDING_TX_def demo_run_defs)
qed

lemma demo_prepare_pending:
  assumes "length q \<le> 1"
  shows "\<exists>info. prepare_inscribe ref_lib demo demo_message inscription_config_default None
      (\<lparr>fifo_queue = demo_pending k # q\<rparr>, n) = (Ok info, \<lparr>fifo_queue = demo_pending k # q\<rparr>, n)"
  by (rule demo_prepare_head [OF assms _ disjI1 [OF refl]]) (simp add: demo_pending_def)

lemma demo_inscribe_pending:
  assumes "length q \<le> 1"
  shows "\<exists>info. inscribe_with_recipient ref_lib demo demo_message inscription_config_default None
      (\<lparr>fifo_queue = demo_pending k # q\<rparr>, n)
    = (Ok info, \<lparr>fifo_queue = demo_pending k # q @ [request_of_info ref_lib demo_message info]\<rparr>,
       n + 2)"
  using demo_prepare_pending [OF assms, of k n]
  by (auto simp: inscribe_with_recipient_def io_bind_def io_map_err_def broadcast_inscription_def
      insert_inscription_to_context_def on_client_def io_zoom_def demo_def demo_client_def)

end
