(* ===== verification/Bootstrap_Votes.thy ===== *)
theory Bootstrap_Votes
  imports Indexer
begin

text \<open>
  Bootstraps by their messages: when every bootstrap transaction shows one message, the loop of
  \<^verbatim>\<open>BitcoinInscriptionIndexer::new\<close> is a run over the messages, which stops at the first complete
  state.  Counting the votes for a proposal is independent of the indexer's state.
\<close>

section \<open>Runs over messages\<close>

definition shows_message ::
    "btc_lib \<Rightarrow> 'w btc_ops \<Rightarrow> network \<Rightarrow> txid \<Rightarrow> full_inscription_message \<Rightarrow> bool" where
  "shows_message L ops n t m \<longleftrightarrow> (\<forall>p w. mp_network p = n \<longrightarrow> (\<exists>tx w' p'.
     ops_get_transaction ops t w = (Ok tx, w') \<and> parse_transaction L tx 0 p = (Ok [m], p')
   \<and> mp_network p' = n))"

fun replay ::
    "btc_lib \<Rightarrow> network \<Rightarrow> (txid \<times> full_inscription_message) list \<Rightarrow> (bootstrap_state, unit, unit) io" where
  "replay L n [] = io_return ()"
| "replay L n ((t, m) # es) =
     io_bind (process_bootstrap_message L n m t) (\<lambda>_.
     io_bind (io_get is_complete) (\<lambda>complete. if complete then io_return () else replay L n es))"

lemma bootstrap_loop_replay:
  assumes "\<forall>(t, m) \<in> set es. shows_message L ops n t m" "mp_network (br_parser s) = n"
    and "replay L n es (br_state s) = (Ok (), st)"
  shows "\<exists>p w. bootstrap_loop L ops n (map fst es) s
    = (Ok (), \<lparr>br_parser = p, br_state = st, br_world = w\<rparr>)"
  using assms
proof (induction es arbitrary: s)
  case Nil
  then show ?case by (cases s) simp
next
  case (Cons e es)
  obtain t m where e: "e = (t, m)" by (cases e)
  obtain tx w p where tx: "ops_get_transaction ops t (br_world s) = (Ok tx, w)"
    "parse_transaction L tx 0 (br_parser s) = (Ok [m], p)" "mp_network p = n"
    using Cons.prems(1,2) unfolding e shows_message_def by fastforce
  from Cons.prems(3) obtain st1 where step: "process_bootstrap_message L n m t (br_state s) = (Ok (), st1)"
    and rest: "(if is_complete st1 then io_return () else replay L n es) st1 = (Ok (), st)"
    by (auto simp: e io_bind_Ok_iff)
  let ?s = "\<lparr>br_parser = p, br_state = st1, br_world = w\<rparr>"
  have "bootstrap_loop L ops n (map fst (e # es)) s
      = (if is_complete st1 then io_return () else bootstrap_loop L ops n (map fst es)) ?s"
    by (cases s) (use tx step in \<open>simp add: e io_bind_def io_zoom_def io_map_err_def
        process_bootstrap_messages_def\<close>)
  then show ?case
    using rest Cons.IH [of ?s] Cons.prems(1) tx(3) by (auto split: if_splits)
qed

lemma indexer_new_replay:
  assumes "\<forall>(t, m) \<in> set es. shows_message L ops n t m"
    and "replay L n es bootstrap_state_new = (Ok (), st)" "is_complete st"
  shows "\<exists>ix w'. indexer_new L ops n (map fst es) w = (Ok ix, w')
    \<and> proposed_sequencer st = Some (sequencer_address ix)"
proof -
  obtain p w' where "bootstrap_loop L ops n (map fst es)
      \<lparr>br_parser = message_parser_new n, br_state = bootstrap_state_new, br_world = w\<rparr>
    = (Ok (), \<lparr>br_parser = p, br_state = st, br_world = w'\<rparr>)"
    using bootstrap_loop_replay [OF assms(1), of "\<lparr>br_parser = message_parser_new n,
        br_state = bootstrap_state_new, br_world = w\<rparr>"] assms(2) by (auto simp: message_parser_new_def)
  then show ?thesis
    using assms(3) by (auto simp: indexer_new_def create_indexer_def is_complete_def)
qed

section \<open>Votes\<close>

definition votes_for :: "txid \<Rightarrow> (txid \<times> full_inscription_message) list \<Rightarrow> nat" where
  "votes_for t es = length (filter (\<lambda>(_, m). case m of
     FullValidatorAttestation va \<Rightarrow> reference_txid (msg_input va) = t \<and> attestation (msg_input va) = Vote_Ok
   | _ \<Rightarrow> False) es)"

text \<open>Attestations for a proposal.\<close>

definition vote_messages ::
    "(txid \<times> validator_attestation) list \<Rightarrow> (txid \<times> full_inscription_message) list" where
  "vote_messages vs = map (\<lambda>(t, va). (t, FullValidatorAttestation va)) vs"

definition voter :: "txid \<times> validator_attestation \<Rightarrow> address" where
  "voter v = p2wpkh_address (common (snd v))"

lemma update_new [simp]: "k \<notin> fst ` set al \<Longrightarrow> AList.update k v al = al @ [(k, v)]"
  by (induction al) auto

lemma incomplete: "length (sequencer_votes st) \<noteq> length (bs_verifier_addresses st) \<Longrightarrow> \<not> is_complete st"
  by (auto simp: is_complete_def has_majority_votes_def Let_def)

lemma vote_step:
  assumes "proposed_sequencer st \<noteq> None" "proposed_sequencer_txid st = Some t"
    and "voter v \<in> set (bs_verifier_addresses st)" "voter v \<notin> fst ` set (sequencer_votes st)"
    and "reference_txid (msg_input (snd v)) = t" "attestation (msg_input (snd v)) = Vote_Ok"
  shows "process_bootstrap_message L n (FullValidatorAttestation (snd v)) t' st
    = (Ok (), st\<lparr>sequencer_votes := sequencer_votes st @ [(voter v, Vote_Ok)]\<rparr>)"
  using assms by (simp add: voter_def)

lemma replay_votes:
  assumes "proposed_sequencer st \<noteq> None" "proposed_sequencer_txid st = Some t"
    and "voter ` set vs \<subseteq> set (bs_verifier_addresses st)"
    and "distinct (map fst (sequencer_votes st) @ map voter vs)"
    and "\<forall>(_, va) \<in> set vs. reference_txid (msg_input va) = t \<and> attestation (msg_input va) = Vote_Ok"
    and "length (sequencer_votes st) + length vs < length (bs_verifier_addresses st)"
  shows "replay L n (vote_messages vs @ es) st
    = replay L n es (st\<lparr>sequencer_votes := sequencer_votes st @ map (\<lambda>v. (voter v, Vote_Ok)) vs\<rparr>)"
  using assms
proof (induction vs arbitrary: st)
  case Nil
  then show ?case by (simp add: vote_messages_def)
next
  case (Cons v vs)
  let ?st = "st\<lparr>sequencer_votes := sequencer_votes st @ [(voter v, Vote_Ok)]\<rparr>"
  have "process_bootstrap_message L n (FullValidatorAttestation (snd v)) (fst v) st = (Ok (), ?st)"
    using Cons.prems by (intro vote_step) auto
  moreover have "\<not> is_complete ?st" using Cons.prems(6) by (intro incomplete) simp
  moreover have "vote_messages (v # vs) = (fst v, FullValidatorAttestation (snd v)) # vote_messages vs"
    by (simp add: vote_messages_def split_beta)
  ultimately have "replay L n (vote_messages (v # vs) @ es) st = replay L n (vote_messages vs @ es) ?st"
    by (simp add: io_bind_def)
  also have "\<dots> = replay L n es (?st\<lparr>sequencer_votes := sequencer_votes ?st @ map (\<lambda>v. (voter v, Vote_Ok)) vs\<rparr>)"
    using Cons.prems by (intro Cons.IH) auto
  finally show ?case by simp
qed

section \<open>A proposal that is replaced\<close>

lemma bootstrapping_step:
  assumes "list_all (\<lambda>a. address_is_valid_for L a n) (verifier_p2wpkh_addresses (msg_input sb))"
    and "address_is_valid_for L (bridge_p2wpkh_mpc_address (msg_input sb)) n"
  shows "process_bootstrap_message L n (FullSystemBootstrapping sb) t bootstrap_state_new
    = (Ok (), bootstrap_state_new\<lparr>bs_verifier_addresses := verifier_p2wpkh_addresses (msg_input sb),
        bs_bridge_address := Some (bridge_p2wpkh_mpc_address (msg_input sb)),
        bs_starting_block_number := start_block_height (msg_input sb),
        bs_bootloader_hash := Some (sb_bootloader_hash (msg_input sb)),
        bs_abstract_account_hash := Some (sb_abstract_account_hash (msg_input sb))\<rparr>)"
proof -
  have "res_map (\<lambda>a. unwrap (require_network L a n)) as = (Ok as :: (unit, _) res)"
    if "list_all (\<lambda>a. address_is_valid_for L a n) as" for as
    using that by (induction as) simp_all
  then show ?thesis using assms by (simp add: io_bind_def)
qed

lemma proposal_step:
  assumes "p2wpkh_address (common ps) \<in> set (bs_verifier_addresses st)"
    and "address_is_valid_for L (sequencer_new_p2wpkh_address (msg_input ps)) n"
  shows "process_bootstrap_message L n (FullProposeSequencer ps) t st
    = (Ok (), st\<lparr>proposed_sequencer := Some (sequencer_new_p2wpkh_address (msg_input ps)),
        proposed_sequencer_txid := Some t\<rparr>)"
  using assms by (simp add: io_bind_def)

text \<open>The first proposal gets all votes but one, the second gets the last vote and is installed.\<close>

lemma replay_replaced:
  assumes boot: "list_all (\<lambda>a. address_is_valid_for L a n) (verifier_p2wpkh_addresses (msg_input sb))"
      "address_is_valid_for L (bridge_p2wpkh_mpc_address (msg_input sb)) n" "0 < start_block_height (msg_input sb)"
    and props: "\<forall>ps \<in> {p1, p2}. p2wpkh_address (common ps) \<in> set (verifier_p2wpkh_addresses (msg_input sb))
      \<and> address_is_valid_for L (sequencer_new_p2wpkh_address (msg_input ps)) n"
    and old: "\<forall>(_, va) \<in> set old. reference_txid (msg_input va) = t1 \<and> attestation (msg_input va) = Vote_Ok"
    and new: "reference_txid (msg_input (snd new)) = t2" "attestation (msg_input (snd new)) = Vote_Ok"
    and voters: "distinct (map voter (old @ [new]))"
      "set (map voter (old @ [new])) \<subseteq> set (verifier_p2wpkh_addresses (msg_input sb))"
      "length (old @ [new]) = length (verifier_p2wpkh_addresses (msg_input sb))"
  shows "\<exists>st. replay L n ([(t0, FullSystemBootstrapping sb), (t1, FullProposeSequencer p1)]
        @ vote_messages old @ [(t2, FullProposeSequencer p2), (fst new, FullValidatorAttestation (snd new))])
      bootstrap_state_new = (Ok (), st) \<and> is_complete st
    \<and> proposed_sequencer st = Some (sequencer_new_p2wpkh_address (msg_input p2))"
proof -
  let ?vs = "verifier_p2wpkh_addresses (msg_input sb)"
  define st0 where "st0 = bootstrap_state_new\<lparr>bs_verifier_addresses := ?vs,
        bs_bridge_address := Some (bridge_p2wpkh_mpc_address (msg_input sb)),
        bs_starting_block_number := start_block_height (msg_input sb),
        bs_bootloader_hash := Some (sb_bootloader_hash (msg_input sb)),
        bs_abstract_account_hash := Some (sb_abstract_account_hash (msg_input sb))\<rparr>"
  define st1 where "st1 = st0\<lparr>proposed_sequencer := Some (sequencer_new_p2wpkh_address (msg_input p1)),
        proposed_sequencer_txid := Some t1\<rparr>"
  define st2 where "st2 = st1\<lparr>sequencer_votes := map (\<lambda>v. (voter v, Vote_Ok)) old,
        proposed_sequencer := Some (sequencer_new_p2wpkh_address (msg_input p2)),
        proposed_sequencer_txid := Some t2\<rparr>"
  define st3 where "st3 = st2\<lparr>sequencer_votes := map (\<lambda>v. (voter v, Vote_Ok)) (old @ [new])\<rparr>"
  note defs = st0_def st1_def st2_def st3_def bootstrap_state_new_def
  have votes0: "sequencer_votes st0 = []" "sequencer_votes st1 = []" by (simp_all add: defs)
  have vs: "bs_verifier_addresses st0 = ?vs" "bs_verifier_addresses st1 = ?vs" "bs_verifier_addresses st2 = ?vs"
    by (simp_all add: defs)
  have steps: "process_bootstrap_message L n (FullSystemBootstrapping sb) t0 bootstrap_state_new = (Ok (), st0)"
    "process_bootstrap_message L n (FullProposeSequencer p1) t1 st0 = (Ok (), st1)"
    unfolding st0_def st1_def by (rule bootstrapping_step [OF boot(1,2)], rule proposal_step)
      (use props in simp_all)
  have "\<not> is_complete st0" "\<not> is_complete st1" "\<not> is_complete st2"
    using voters(3) by (auto intro!: incomplete simp: defs)
  have old_votes: "replay L n (vote_messages old @ es) st1
      = replay L n es (st1\<lparr>sequencer_votes := map (\<lambda>v. (voter v, Vote_Ok)) old\<rparr>)" for es
    using replay_votes [of st1 t1 old L n es] voters old votes0 vs by (simp add: st1_def)
  have p2: "process_bootstrap_message L n (FullProposeSequencer p2) t2
      (st1\<lparr>sequencer_votes := map (\<lambda>v. (voter v, Vote_Ok)) old\<rparr>) = (Ok (), st2)"
    using proposal_step [of p2 "st1\<lparr>sequencer_votes := map (\<lambda>v. (voter v, Vote_Ok)) old\<rparr>"] props vs
    by (simp add: st2_def)
  have v: "process_bootstrap_message L n (FullValidatorAttestation (snd new)) (fst new) st2 = (Ok (), st3)"
    using vote_step [of st2 t2 new L n "fst new"] new voters vs by (force simp: st2_def st3_def)
  have "is_complete st3"
    using boot(3) voters(3) by (auto simp: is_complete_def has_majority_votes_def Let_def defs comp_def)
  then show ?thesis
    using steps \<open>\<not> is_complete st0\<close> \<open>\<not> is_complete st1\<close> \<open>\<not> is_complete st2\<close> p2 v
    by (intro exI [of _ st3]) (simp add: io_bind_def old_votes, simp add: st3_def st2_def)
qed

end
