(* ===== verification/Btc_Properties.thy ===== *)
theory Btc_Properties
  imports Ref_Node Bootstrap_Votes
begin

text \<open>
  The properties of the Bitcoin client library: inscriptions and the transactions that carry
  them, the inscriber's queue and inputs, the indexer's bootstrap and block processing, and the
  retries of the RPC client.  Each property with a hypothesis is followed by an application to
  the concrete library, signer and node of \<open>Ref_Lib\<close> and \<open>Ref_Node\<close>.
\<close>

section \<open>Inscriptions\<close>

text \<open>C1: end-to-end round trip.  Whenever the inscriber successfully inscribes a message, parsing
  the reveal transaction it built yields exactly that message, attributed to the signer's P2WPKH
  address and internal key, at the given height and under the transaction's id; and nothing else.
  The one exception is a negative attestation, which yields no message.\<close>

theorem inscribed_message_is_indexed:
  assumes "lib_script_codec L" "lib_control_block L" "lib_address_text L" "lib_hash_sizes L"
    and "lib_push_bytes L" "lib_taproot_signature L" "lib_p2wpkh_witness L"
      "lib_taproot_internal_key L"
    and "ops_get_network (ins_client I) = mp_network p"
    and "signer_ok L (mp_network p) (ins_signer I)"
    and "wf_message L (mp_network p) m"
    and "inscribe_with_recipient L I m config rcpt s = (Ok info, s')"
  shows "\<exists>cf. Ok (p2wpkh_address cf) = get_p2wpkh_address (ins_signer I)
       \<and> Ok (encoded_public_key cf) = get_internal_key (ins_signer I)
       \<and> cf_block_height cf = h
       \<and> cf_tx_id cf = compute_ntxid L (ftx_tx (final_reveal_tx info))
       \<and> parse_transaction L (ftx_tx (final_reveal_tx info)) h p
         = (if is_no_vote m then (Ok [], p)
            else (Ok [full_of_message L p (ftx_tx (final_reveal_tx info)) cf m],
                  parser_after m p))"
proof -
  obtain s1 where "prepare_inscribe L I m config rcpt s = (Ok info, s1)"
    using inscribe_with_recipient_Ok [OF assms(12)] by blast
  from prepared_reveal_parses [OF assms(1-11) this] show ?thesis .
qed

theorem inscribed_message_is_indexed_witness:
  "\<exists>info s' cf. inscribe_with_recipient ref_lib demo demo_message inscription_config_default None
       (\<lparr>fifo_queue = [demo_pending 1]\<rparr>, 0) = (Ok info, s')
     \<and> parse_transaction ref_lib (ftx_tx (final_reveal_tx info)) 7 (message_parser_new Regtest)
       = (Ok [full_of_message ref_lib (message_parser_new Regtest)
            (ftx_tx (final_reveal_tx info)) cf demo_message], message_parser_new Regtest)"
proof -
  obtain info s' where run: "inscribe_with_recipient ref_lib demo demo_message
      inscription_config_default None (\<lparr>fifo_queue = [demo_pending 1]\<rparr>, 0) = (Ok info, s')"
    using demo_inscribe_pending [of "[]" 1 0] by auto
  have net: "ops_get_network (ins_client demo) = mp_network (message_parser_new Regtest)"
    by (simp add: message_parser_new_def)
  have sg: "signer_ok ref_lib (mp_network (message_parser_new Regtest)) (ins_signer demo)"
    using demo_signer_ok by (simp add: message_parser_new_def)
  have wf: "wf_message ref_lib (mp_network (message_parser_new Regtest)) demo_message"
    using wf_demo_message by (simp add: message_parser_new_def)
  from inscribed_message_is_indexed
    [OF ref_lib_laws(1,5,4,3,2,7,8,9) net sg wf run, of 7] run
  show ?thesis by (auto simp: demo_message_def)
qed

text \<open>C2: values are conserved.  For every successful preparation, the values of the outputs the
  commit transaction spends are its outputs plus the computed fee, the reveal transaction spends
  the two outputs of that commit transaction, and the commit change pays the reveal outputs plus
  the computed reveal fee; no sum overflows.\<close>

theorem inscription_values_conserved:
  assumes "lib_amounts L" and "prepare_inscribe L I m config rcpt s = (Ok info, s')"
  shows "sum_list (map unat (utxo_amounts (commit_tx_input_info info)))
       = sum_list (map (unat \<circ> txo_value) (tx_output (ftx_tx (final_commit_tx info))))
         + unat (commit_tx_fee (commit_tx_output_info info))
     \<and> map previous_output (tx_input (ftx_tx (final_reveal_tx info)))
       = [\<lparr>op_txid = compute_txid L (ftx_tx (final_commit_tx info)), op_vout = 0\<rparr>,
          \<lparr>op_txid = compute_txid L (ftx_tx (final_commit_tx info)), op_vout = 1\<rparr>]
     \<and> sum_list (map (unat \<circ> txo_value) (tx_output (ftx_tx (final_commit_tx info))))
       = sum_list (map (unat \<circ> txo_value) (tx_output (ftx_tx (final_reveal_tx info))))
         + unat (reveal_fee (reveal_tx_output_info info))"
  using commit_values [OF assms] reveal_spends_commit [OF assms(2)] reveal_values [OF assms]
    commit_outputs_value [OF assms(2)]
  by simp

theorem inscription_values_conserved_witness:
  "\<exists>info s'. prepare_inscribe ref_lib demo demo_message inscription_config_default None
       (inscriber_context_new, 0) = (Ok info, s')
     \<and> sum_list (map unat (utxo_amounts (commit_tx_input_info info)))
       = sum_list (map (unat \<circ> txo_value) (tx_output (ftx_tx (final_reveal_tx info))))
         + unat (reveal_fee (reveal_tx_output_info info))
         + unat (commit_tx_fee (commit_tx_output_info info))"
proof -
  obtain info where run: "prepare_inscribe ref_lib demo demo_message inscription_config_default
      None (inscriber_context_new, 0) = (Ok info, inscriber_context_new, 0)"
    using demo_prepare by blast
  with inscription_values_conserved [OF ref_lib_laws(6) run] show ?thesis by simp
qed

section \<open>The queue of pending inscriptions\<close>

text \<open>C3: queue discipline.  A successful inscription removes from the front of the queue only
  requests whose reveal transaction the node confirmed, keeps every other pending request in its
  order, and appends exactly the new request, built from the transactions it broadcast and
  recording the outputs its commit transaction spends.\<close>

theorem inscribe_updates_queue:
  assumes "lib_amounts L"
    and "inscribe_with_recipient L I m config rcpt s = (Ok info, s')"
  shows "\<exists>conf rest. fifo_queue (fst s) = conf @ rest
    \<and> (\<forall>r \<in> set conf. confirmed_in (ins_client I) r)
    \<and> fifo_queue (fst s') = rest @ [request_of_info L m info]
    \<and> request_outpoints (request_of_info L m info)
        = map previous_output (tx_input (ftx_tx (final_commit_tx info)))
    \<and> (queue_inv (fst s) \<longrightarrow> queue_inv (fst s'))"
proof -
  obtain s1 where "prepare_inscribe L I m config rcpt s = (Ok info, s1)"
    using inscribe_with_recipient_Ok [OF assms(2)] by blast
  from request_outpoints_of_info [OF assms(1) this] inscribe_queue [OF assms(2)]
  show ?thesis by (auto simp: queue_inv_def)
qed

theorem inscribe_updates_queue_witness:
  "\<exists>info s'. inscribe_with_recipient ref_lib demo demo_message inscription_config_default None
       (\<lparr>fifo_queue = [demo_pending 1]\<rparr>, 0) = (Ok info, s')
     \<and> queue_inv (fst s')
     \<and> request_outpoints (request_of_info ref_lib demo_message info)
        = map previous_output (tx_input (ftx_tx (final_commit_tx info)))"
proof -
  obtain info s' where run: "inscribe_with_recipient ref_lib demo demo_message
      inscription_config_default None (\<lparr>fifo_queue = [demo_pending 1]\<rparr>, 0) = (Ok info, s')"
    using demo_inscribe_pending [of "[]" 1 0] by auto
  with inscribe_updates_queue [OF ref_lib_laws(6) run] show ?thesis
    by (auto simp: queue_inv_def)
qed

text \<open>C34: an RPC error loses a pending inscription.  When asking for a confirmation fails while
  the queue is synchronised, the request being checked is gone from the queue although nothing is
  known of its confirmation: the queue left behind is a strict suffix that starts after it.\<close>

theorem sync_error_drops_request:
  assumes "sync_context_with_blockchain I s = (Err e, s')"
  shows "\<exists>conf r. fifo_queue (fst s) = conf @ r # fifo_queue (fst s')
    \<and> (\<forall>r \<in> set conf. confirmed_in (ins_client I) r)
    \<and> (\<exists>u b. ops_check_tx_confirmation (ins_client I) (fee_payer_utxo_txid (fee_payer r))
          CTX_REQUIRED_CONFIRMATIONS u = (Err b, snd s') \<and> e = ClientError b)"
proof -
  obtain q w where "sync_queue (ins_client I) (fifo_queue (fst s)) (snd s) = (Err e, q, w)"
    "fifo_queue (fst s') = q" "snd s' = w"
    using assms by (auto simp: sync_context_with_blockchain_def split: prod.splits)
  with sync_queue_Err [of "ins_client I" "fifo_queue (fst s)" "snd s" e q w] show ?thesis by simp
qed

theorem sync_error_drops_request_witness:
  "\<exists>I :: nat inscriber. \<exists>e s'.
     sync_context_with_blockchain I (\<lparr>fifo_queue = [demo_pending 1]\<rparr>, 0) = (Err e, s')
   \<and> fifo_queue (fst s') = []"
proof -
  let ?ops = "demo_client\<lparr>ops_check_tx_confirmation := (\<lambda>t c. io_err (Rpc ''timeout''))\<rparr>"
  let ?I = "demo\<lparr>ins_client := ?ops\<rparr>"
  have run: "sync_context_with_blockchain ?I (\<lparr>fifo_queue = [demo_pending 1]\<rparr>, 0)
      = (Err (ClientError (Rpc ''timeout'')), (\<lparr>fifo_queue = []\<rparr>, 0))"
    by (simp add: sync_context_with_blockchain_def)
  with sync_error_drops_request [OF run] show ?thesis by force
qed

text \<open>C32: the inputs of a commit transaction, when the queue holds requests that the inscriber made.
  Each output that the new commit transaction spends is the reveal change of the head of the queue;
  or it is an output that the node lists for the wallet, with the wallet's script, that no commit
  transaction of the queue spends, that is not the fee input of a reveal transaction of the queue, and
  that is not the reveal change of any request of the queue but the last.  The other input of a
  pending reveal transaction is a tapscript output, which does not have the wallet's script.\<close>

theorem commit_inputs_unspent_or_head:
  assumes "lib_amounts L"
    and "\<forall>p \<in> set pending. \<exists>m config rcpt s0 s1. prepare_inscribe L I m config rcpt s0 = (Ok (snd p), s1)"
    and "prepare_inscribe L I m config rcpt s = (Ok info, s')"
    and "fifo_queue (fst s') = map (\<lambda>(m, info). request_of_info L m info) pending"
    and "i \<in> set (tx_input (ftx_tx (final_commit_tx info)))"
  shows "pending \<noteq> [] \<and> previous_output i =
           \<lparr>op_txid = ftx_txid (final_reveal_tx (snd (hd pending))), op_vout = 0\<rparr>
     \<or> (\<exists>a utxos out w w'. get_p2wpkh_address (ins_signer I) = Ok a
           \<and> ops_fetch_utxos (ins_client I) a w = (Ok utxos, w') \<and> (previous_output i, out) \<in> set utxos
           \<and> script_pubkey out = get_p2wpkh_script_pubkey (ins_signer I))
       \<and> (\<forall>p \<in> set pending.
            previous_output i \<notin> previous_output ` set (tx_input (ftx_tx (final_commit_tx (snd p))))
          \<and> previous_output i \<noteq> previous_output (hd (tx_input (ftx_tx (final_reveal_tx (snd p))))))
       \<and> (\<forall>p \<in> set (butlast pending).
            previous_output i \<noteq> \<lparr>op_txid = ftx_txid (final_reveal_tx (snd p)), op_vout = 0\<rparr>)"
proof -
  let ?q = "map (\<lambda>(m, info). request_of_info L m info) pending"
  have "list_all request_inv ?q" by (auto simp: list_all_iff)
  note source = commit_input_source [OF assms(1,3,5), unfolded assms(4), OF this]
  have change: "reveal_change_of (request_of_info L k j) = \<lparr>op_txid = ftx_txid (final_reveal_tx j), op_vout = 0\<rparr>"
    for k j by (simp add: reveal_change_of_def request_of_info_def tx_layout)
  have head: "reveal_change_of (hd ?q) = \<lparr>op_txid = ftx_txid (final_reveal_tx (snd (hd pending))), op_vout = 0\<rparr>"
    if "pending \<noteq> []" using that by (cases pending) (auto simp: change)
  have used: "previous_output ` set (tx_input (ftx_tx (final_commit_tx (snd p)))) \<subseteq> set (spent_utxos ?q)"
    "previous_output (hd (tx_input (ftx_tx (final_reveal_tx (snd p))))) \<in> set (spent_utxos ?q)"
    if p: "p \<in> set pending" for p
  proof -
    obtain k c r s0 s1 where run: "prepare_inscribe L I k c r s0 = (Ok (snd p), s1)" using assms(2) p by blast
    have "request_of_info L (fst p) (snd p) \<in> set ?q" using p by (simp add: rev_image_eqI split_beta)
    note pending_inputs_spent [OF assms(1) run this]
    then show "previous_output ` set (tx_input (ftx_tx (final_commit_tx (snd p)))) \<subseteq> set (spent_utxos ?q)"
      "previous_output (hd (tx_input (ftx_tx (final_reveal_tx (snd p))))) \<in> set (spent_utxos ?q)" .
  qed
  have kept: "reveal_change_of (request_of_info L (fst p) (snd p)) \<in> set (spent_utxos ?q)"
    if "p \<in> set (butlast pending)" for p
    using that by (intro spent_utxos_complete(2)) (force simp: map_butlast [symmetric])
  have free: "(\<forall>p \<in> set pending.
        previous_output i \<notin> previous_output ` set (tx_input (ftx_tx (final_commit_tx (snd p))))
      \<and> previous_output i \<noteq> previous_output (hd (tx_input (ftx_tx (final_reveal_tx (snd p))))))
    \<and> (\<forall>p \<in> set (butlast pending).
        previous_output i \<noteq> \<lparr>op_txid = ftx_txid (final_reveal_tx (snd p)), op_vout = 0\<rparr>)"
    if unspent: "previous_output i \<notin> set (spent_utxos ?q)"
  proof (intro conjI ballI)
    fix p assume p: "p \<in> set pending"
    show "previous_output i \<notin> previous_output ` set (tx_input (ftx_tx (final_commit_tx (snd p))))"
      by (rule contra_subsetD [OF used(1) [OF p] unspent])
    show "previous_output i \<noteq> previous_output (hd (tx_input (ftx_tx (final_reveal_tx (snd p)))))"
      using used(2) [OF p] unspent by metis
  next
    fix p assume p: "p \<in> set (butlast pending)"
    show "previous_output i \<noteq> \<lparr>op_txid = ftx_txid (final_reveal_tx (snd p)), op_vout = 0\<rparr>"
      using kept [OF p, unfolded change] unspent by metis
  qed
  from source show ?thesis
  proof
    assume "?q \<noteq> [] \<and> previous_output i = reveal_change_of (hd ?q)"
    then show ?thesis using head by simp
  qed (use free in blast)
qed

theorem commit_inputs_unspent_or_head_witness:
  "\<exists>info1 info2 s. prepare_inscribe ref_lib demo demo_message inscription_config_default None
       (inscriber_context_new, 0) = (Ok info1, inscriber_context_new, 0)
     \<and> prepare_inscribe ref_lib demo demo_message inscription_config_default None s = (Ok info2, s)
     \<and> fifo_queue (fst s) = [request_of_info ref_lib demo_message info1]
     \<and> (\<forall>i \<in> set (tx_input (ftx_tx (final_commit_tx info2))).
          previous_output i = \<lparr>op_txid = ftx_txid (final_reveal_tx info1), op_vout = 0\<rparr>
        \<or> previous_output i \<notin> previous_output ` set (tx_input (ftx_tx (final_commit_tx info1))))"
proof -
  obtain info1 where r1: "prepare_inscribe ref_lib demo demo_message inscription_config_default
      None (inscriber_context_new, 0) = (Ok info1, inscriber_context_new, 0)"
    and v: "txo_value (reveal_tx_change_output (reveal_tx_output_info info1)) = 99268"
    using demo_prepare by blast
  let ?r = "request_of_info ref_lib demo_message info1" and ?p = "[(demo_message, info1)]"
  have "fee_payer_utxo_value (fee_payer ?r) = 99268" using v by (simp add: request_of_info_def)
  from demo_prepare_head [OF _ this disjI2 [OF refl], of "[]" 0] obtain info2 where
    r2: "prepare_inscribe ref_lib demo demo_message inscription_config_default None
      (\<lparr>fifo_queue = [?r]\<rparr>, 0) = (Ok info2, \<lparr>fifo_queue = [?r]\<rparr>, 0)" by auto
  have made: "\<forall>p \<in> set ?p. \<exists>m config rcpt s0 s1. prepare_inscribe ref_lib demo m config rcpt s0 = (Ok (snd p), s1)"
    using r1 by (simp del: split_paired_Ex) blast
  have q: "fifo_queue (fst (\<lparr>fifo_queue = [?r]\<rparr>, 0 :: nat)) = map (\<lambda>(m, info). request_of_info ref_lib m info) ?p"
    by simp
  show ?thesis
    using r1 r2 commit_inputs_unspent_or_head [OF ref_lib_laws(6) made r2 q]
    by (intro exI [of _ info1] exI [of _ info2] exI [of _ "(\<lparr>fifo_queue = [?r]\<rparr>, 0)"]) auto
qed

text \<open>C33: double spend.  Two inscriptions made one after the other while the same request stays
  unconfirmed at the head of the queue spend the same output: the reveal change of that head is
  an input of both commit transactions, although the first of them is still pending.\<close>

theorem consecutive_inscriptions_double_spend:
  assumes "lib_amounts L" and "request_inv r"
    and "inscribe_with_recipient L I m1 config1 rcpt1 s = (Ok info1, s1)"
    and "fifo_queue (fst s1) = r # q1 @ [request_of_info L m1 info1]"
    and "inscribe_with_recipient L I m2 config2 rcpt2 s1 = (Ok info2, s2)"
    and "fifo_queue (fst s2) = r # q2 @ [request_of_info L m2 info2]"
  shows "reveal_change_of r
       \<in> set (map previous_output (tx_input (ftx_tx (final_commit_tx info1))))
         \<inter> set (map previous_output (tx_input (ftx_tx (final_commit_tx info2))))"
proof -
  obtain u v where "prepare_inscribe L I m1 config1 rcpt1 s = (Ok info1, u)"
    "prepare_inscribe L I m2 config2 rcpt2 s1 = (Ok info2, v)"
    using inscribe_with_recipient_Ok [OF assms(3)] inscribe_with_recipient_Ok [OF assms(5)]
    by blast
  note outs = this [THEN request_outpoints_of_info [OF assms(1)]]
  show ?thesis
    using commit_spends_head_change [OF assms(1,3,4,2)]
      commit_spends_head_change [OF assms(1,5,6,2)] by (simp add: outs)
qed

theorem consecutive_inscriptions_double_spend_witness:
  "\<exists>info1 s1 info2 s2.
     inscribe_with_recipient ref_lib demo demo_message inscription_config_default None
       (\<lparr>fifo_queue = [demo_pending 1]\<rparr>, 0) = (Ok info1, s1)
   \<and> inscribe_with_recipient ref_lib demo demo_message inscription_config_default None s1
       = (Ok info2, s2)
   \<and> reveal_change_of (demo_pending 1)
       \<in> set (map previous_output (tx_input (ftx_tx (final_commit_tx info1))))
         \<inter> set (map previous_output (tx_input (ftx_tx (final_commit_tx info2))))"
proof -
  obtain info1 where r1: "inscribe_with_recipient ref_lib demo demo_message
      inscription_config_default None (\<lparr>fifo_queue = [demo_pending 1]\<rparr>, 0)
    = (Ok info1, \<lparr>fifo_queue = [demo_pending 1, request_of_info ref_lib demo_message info1]\<rparr>, 2)"
    using demo_inscribe_pending [of "[]" 1 0] by auto
  let ?r = "request_of_info ref_lib demo_message info1"
  obtain info2 where r2: "inscribe_with_recipient ref_lib demo demo_message
      inscription_config_default None (\<lparr>fifo_queue = [demo_pending 1, ?r]\<rparr>, 2)
    = (Ok info2, \<lparr>fifo_queue = [demo_pending 1, ?r, request_of_info ref_lib demo_message info2]\<rparr>,
       4)"
    using demo_inscribe_pending [of "[?r]" 1 2] by auto
  have q1: "fifo_queue (fst (\<lparr>fifo_queue = [demo_pending 1, ?r]\<rparr>, 2 :: nat))
      = demo_pending 1 # [] @ [?r]" by simp
  have q2: "fifo_queue (fst (\<lparr>fifo_queue = [demo_pending 1, ?r,
        request_of_info ref_lib demo_message info2]\<rparr>, 4 :: nat))
      = demo_pending 1 # [?r] @ [request_of_info ref_lib demo_message info2]" by simp
  from consecutive_inscriptions_double_spend
    [OF ref_lib_laws(6) demo_pending_inv r1 q1 r2 q2] r1 r2
  show ?thesis by blast
qed

section \<open>The indexer\<close>

text \<open>C4: bootstrap agreement.  An indexer is created from the bootstrap transactions only with a
  non-empty list of verifiers, a positive starting block, a bridge and a sequencer address of the
  network, a proposal of that sequencer by one of the transactions, and as many votes as verifiers,
  from distinct voters, of which strictly more than half are positive; each vote is an attestation
  found in one of the given transactions for a proposal found in one of them.\<close>

theorem indexer_new_agreement:
  assumes "indexer_new L ops n txids w = (Ok ix, w')"
  shows "ix_verifier_addresses ix \<noteq> [] \<and> 0 < starting_block_number ix
    \<and> address_is_valid_for L (ix_bridge_address ix) n
    \<and> address_is_valid_for L (sequencer_address ix) n
    \<and> (\<exists>es votes t. quorum (ix_verifier_addresses ix) votes
         \<and> proposed es (sequencer_address ix) t
         \<and> (\<forall>(a, v) \<in> set votes. voted es a v)
         \<and> (\<forall>(m, t) \<in> set es. t \<in> set txids \<and> (\<exists>tx w w' p p' ms.
               ops_get_transaction ops t w = (Ok tx, w')
             \<and> parse_transaction L tx 0 p = (Ok ms, p') \<and> m \<in> set ms)))"
proof -
  from indexer_new_run [OF assms] obtain es st parser where
    inv: "bootstrap_inv L n es st" and create: "create_indexer st parser = Ok ix"
    and src: "\<forall>(m, t) \<in> set es. t \<in> set txids \<and> (\<exists>tx w w' p p' ms.
               ops_get_transaction ops t w = (Ok tx, w')
             \<and> parse_transaction L tx 0 p = (Ok ms, p') \<and> m \<in> set ms)"
    by blast
  from create have complete: "is_complete st"
    and ix: "bs_bridge_address st = Some (ix_bridge_address ix)"
      "proposed_sequencer st = Some (sequencer_address ix)"
      "ix_verifier_addresses ix = bs_verifier_addresses st"
      "starting_block_number ix = bs_starting_block_number st"
    by (simp_all add: create_indexer_Ok_iff)
  have "quorum (ix_verifier_addresses ix) (sequencer_votes st)"
    using majority_quorum [OF inv] complete ix(3) by (simp add: is_complete_def)
  moreover obtain t where "proposed es (sequencer_address ix) t"
    "address_is_valid_for L (sequencer_address ix) n"
    using inv ix(2) by (auto simp: bootstrap_inv_def split: option.splits)
  moreover have "\<forall>(a, v) \<in> set (sequencer_votes st). voted es a v"
    "address_is_valid_for L (ix_bridge_address ix) n"
    using inv ix(1) by (simp_all add: bootstrap_inv_def)
  moreover have "ix_verifier_addresses ix \<noteq> []" "0 < starting_block_number ix"
    using complete ix by (simp_all add: is_complete_def)
  ultimately show ?thesis using src by blast
qed

lemma demo_bootstrap_run:
  "\<exists>ix. indexer_new ref_lib demo_client Regtest [replicate 32 1, replicate 32 2, replicate 32 3] 0
     = (Ok ix, 0) \<and> sequencer_address ix = ref_p2wpkh (PublicKey 7) Regtest
       \<and> starting_block_number ix = 1"
  by (simp add: indexer_new_def demo_client_def io_zoom_def io_map_err_def io_bind_def
      demo_tx_parses demo_bootstrapping_def demo_proposal_def demo_vote_def
      message_parser_new_def process_bootstrap_messages_def bootstrap_state_new_def
      is_complete_def has_majority_votes_def create_indexer_def replicate_eq_replicate)

theorem indexer_new_agreement_witness:
  "\<exists>ix. indexer_new ref_lib demo_client Regtest [replicate 32 1, replicate 32 2, replicate 32 3] 0
      = (Ok ix, 0)
    \<and> (\<exists>votes. quorum (ix_verifier_addresses ix) votes)"
proof -
  obtain ix where run: "indexer_new ref_lib demo_client Regtest
      [replicate 32 1, replicate 32 2, replicate 32 3] 0 = (Ok ix, 0)"
    using demo_bootstrap_run by blast
  from indexer_new_agreement [OF run] run show ?thesis by blast
qed

text \<open>C35: stale votes.  When the bootstrap transactions show a bootstrapping message, a proposal by
  a verifier, votes for it by all verifiers but one, a second proposal by a verifier and a vote for it
  by the one left, then the indexer starts with the second proposal as its sequencer: one vote is
  enough for it, whatever the number of verifiers, since the votes for the first proposal are kept and
  counted for the second.\<close>

theorem replaced_proposal_elected:
  assumes "es = [(t0, FullSystemBootstrapping sb), (t1, FullProposeSequencer p1)] @ vote_messages old
        @ [(t2, FullProposeSequencer p2), (fst new, FullValidatorAttestation (snd new))]"
    and "\<forall>(t, m) \<in> set es. shows_message L ops n t m"
    and "list_all (\<lambda>a. address_is_valid_for L a n) (verifier_p2wpkh_addresses (msg_input sb))"
      "address_is_valid_for L (bridge_p2wpkh_mpc_address (msg_input sb)) n" "0 < start_block_height (msg_input sb)"
    and "\<forall>ps \<in> {p1, p2}. p2wpkh_address (common ps) \<in> set (verifier_p2wpkh_addresses (msg_input sb))
      \<and> address_is_valid_for L (sequencer_new_p2wpkh_address (msg_input ps)) n"
    and "\<forall>(_, va) \<in> set old. reference_txid (msg_input va) = t1 \<and> attestation (msg_input va) = Vote_Ok"
    and "reference_txid (msg_input (snd new)) = t2" "attestation (msg_input (snd new)) = Vote_Ok"
    and "distinct (map voter (old @ [new]))"
      "set (map voter (old @ [new])) \<subseteq> set (verifier_p2wpkh_addresses (msg_input sb))"
      "length (old @ [new]) = length (verifier_p2wpkh_addresses (msg_input sb))"
    and "t1 \<noteq> t2"
  shows "votes_for t2 es = 1 \<and> votes_for t1 es = length (verifier_p2wpkh_addresses (msg_input sb)) - 1
    \<and> (\<exists>ix w'. indexer_new L ops n (map fst es) w = (Ok ix, w')
        \<and> sequencer_address ix = sequencer_new_p2wpkh_address (msg_input p2))"
proof -
  have "filter (\<lambda>v. reference_txid (msg_input (snd v)) = t2 \<and> attestation (msg_input (snd v)) = Vote_Ok) old = []"
    "filter (\<lambda>v. reference_txid (msg_input (snd v)) = t1 \<and> attestation (msg_input (snd v)) = Vote_Ok) old = old"
    using assms(7,13) by (auto simp: filter_empty_conv filter_id_conv)
  then have "votes_for t2 es = 1" "votes_for t1 es = length (verifier_p2wpkh_addresses (msg_input sb)) - 1"
    using assms(8,9,12,13)
    by (simp_all add: assms(1) votes_for_def vote_messages_def filter_map comp_def split_beta)
  moreover from replay_replaced [OF assms(3-12)] obtain st where
    "replay L n es bootstrap_state_new = (Ok (), st)" "is_complete st"
    "proposed_sequencer st = Some (sequencer_new_p2wpkh_address (msg_input p2))" unfolding assms(1) by blast
  ultimately show ?thesis using indexer_new_replay [OF assms(2), of st w] by auto
qed

text \<open>A node with three verifiers, the keys 5, 9 and 10: two vote for the proposal of key 7, then the
  first proposes key 8, for which only the third votes.\<close>

definition voter_tx :: "nat \<Rightarrow> inscription_message \<Rightarrow> transaction" where
  "voter_tx k m = \<lparr>tx_version = 2, lock_time = 0, tx_input =
     [(unsigned_input \<lparr>op_txid = replicate 32 1, op_vout = 0\<rparr>)\<lparr>witness := [bytes_of_nat 1, bytes_of_nat k]\<rparr>,
      (unsigned_input \<lparr>op_txid = replicate 32 1, op_vout = 1\<rparr>)\<lparr>witness := [bytes_of_nat 1,
        ref_into_script (basic_items (be_bytes 32 k) @ message_items ref_lib m @ [PushOpcode OP_ENDIF]),
        bytes_of_nat k]\<rparr>], tx_output = []\<rparr>"

definition voter_common :: "nat \<Rightarrow> inscription_message \<Rightarrow> common_fields" where
  "voter_common k m = inscription_common ref_lib (voter_tx k m) 0 (ref_p2wpkh (PublicKey k) Regtest)
     (TaprootSignature 1) (ControlBlock k)"

lemma voter_tx_parses:
  assumes "wf_message ref_lib Regtest m" "mp_network p = Regtest" "\<not> is_no_vote m"
  shows "parse_transaction ref_lib (voter_tx k m) 0 p
    = (Ok [full_of_message ref_lib p (voter_tx k m) (voter_common k m) m], parser_after m p)"
proof -
  have "parse_p2wpkh ref_lib Regtest [bytes_of_nat 1, bytes_of_nat k] = Some (ref_p2wpkh (PublicKey k) Regtest)"
    by (simp add: parse_p2wpkh_def)
  moreover have "reveals ref_lib ((unsigned_input \<lparr>op_txid = replicate 32 1, op_vout = 1\<rparr>)\<lparr>witness := [bytes_of_nat 1,
      ref_into_script (basic_items (be_bytes 32 k) @ message_items ref_lib m @ [PushOpcode OP_ENDIF]),
      bytes_of_nat k]\<rparr>) (be_bytes 32 k) m (TaprootSignature 1) (ControlBlock k)"
    unfolding reveals_def by (intro exI [of _ "bytes_of_nat 1"]) simp
  ultimately show ?thesis
    using parse_reveal_transaction [OF ref_lib_laws(1,5,4,3) length_be_bytes, of "voter_tx k m"] assms
    by (simp add: voter_common_def voter_tx_def)
qed

definition voter_full :: "nat \<Rightarrow> inscription_message \<Rightarrow> full_inscription_message" where
  "voter_full k m = full_of_message ref_lib (message_parser_new Regtest) (voter_tx k m) (voter_common k m) m"

lemma voter_shows:
  assumes "wf_message ref_lib Regtest m" "\<not> is_no_vote m" "\<nexists>i. m = L1ToL2Message i"
    and "\<And>w. ops_get_transaction ops t w = (Ok (voter_tx k m), w)"
  shows "shows_message ref_lib ops Regtest t (voter_full k m)"
proof -
  have "full_of_message ref_lib p tx cf m = full_of_message ref_lib (message_parser_new Regtest) tx cf m" for p tx cf
    using assms(3) by (cases m) auto
  moreover have "mp_network (parser_after m p) = mp_network p" for p by (cases m) simp_all
  ultimately show ?thesis
    unfolding shows_message_def voter_full_def using assms(4) voter_tx_parses [OF assms(1) _ assms(2)] by metis
qed

definition voting_boot :: inscription_message where
  "voting_boot = SystemBootstrapping \<lparr>start_block_height = 1,
     verifier_p2wpkh_addresses = map (\<lambda>k. ref_p2wpkh (PublicKey k) Regtest) [5, 9, 10],
     bridge_p2wpkh_mpc_address = ref_p2wpkh (PublicKey 6) Regtest,
     sb_bootloader_hash = replicate 32 1, sb_abstract_account_hash = replicate 32 2\<rparr>"

definition last_vote :: inscription_message where
  "last_vote = ValidatorAttestation \<lparr>reference_txid = replicate 32 5, attestation = Vote_Ok\<rparr>"

definition voting_client :: "nat btc_ops" where
  "voting_client = demo_client\<lparr>ops_get_transaction := (\<lambda>t. io_return
     (if t = replicate 32 1 then voter_tx 5 voting_boot
      else if t = replicate 32 2 then voter_tx 5 (demo_proposal 7)
      else if t = replicate 32 3 then voter_tx 5 (demo_vote Vote_Ok)
      else if t = replicate 32 4 then voter_tx 9 (demo_vote Vote_Ok)
      else if t = replicate 32 5 then voter_tx 5 (demo_proposal 8)
      else voter_tx 10 last_vote))\<rparr>"

definition voting_messages :: "(txid \<times> full_inscription_message) list" where
  "voting_messages =
     [(replicate 32 1, voter_full 5 voting_boot), (replicate 32 2, voter_full 5 (demo_proposal 7)),
      (replicate 32 3, voter_full 5 (demo_vote Vote_Ok)), (replicate 32 4, voter_full 9 (demo_vote Vote_Ok)),
      (replicate 32 5, voter_full 5 (demo_proposal 8)), (replicate 32 6, voter_full 10 last_vote)]"

lemma voting_shows: "\<forall>(t, m) \<in> set voting_messages. shows_message ref_lib voting_client Regtest t m"
  unfolding voting_messages_def list.set ball_simps split
  by (intro conjI TrueI voter_shows)
    (simp_all add: voting_boot_def demo_proposal_def demo_vote_def last_vote_def voting_client_def
      replicate_eq_replicate)

theorem replaced_proposal_elected_witness:
  "votes_for (replicate 32 5) voting_messages = 1 \<and> votes_for (replicate 32 2) voting_messages = 2
   \<and> (\<exists>ix w'. indexer_new ref_lib voting_client Regtest (map fst voting_messages) 0 = (Ok ix, w')
        \<and> sequencer_address ix = ref_p2wpkh (PublicKey 8) Regtest)"
proof -
  let ?boot = "\<lparr>common = voter_common 5 voting_boot, msg_input = \<lparr>start_block_height = 1,
     verifier_p2wpkh_addresses = map (\<lambda>k. ref_p2wpkh (PublicKey k) Regtest) [5, 9, 10],
     bridge_p2wpkh_mpc_address = ref_p2wpkh (PublicKey 6) Regtest,
     sb_bootloader_hash = replicate 32 1, sb_abstract_account_hash = replicate 32 2\<rparr>\<rparr>"
  let ?proposal = "\<lambda>k. \<lparr>common = voter_common 5 (demo_proposal k),
     msg_input = \<lparr>sequencer_new_p2wpkh_address = ref_p2wpkh (PublicKey k) Regtest\<rparr>\<rparr>"
  let ?vote = "\<lambda>k. \<lparr>common = voter_common k (demo_vote Vote_Ok),
     msg_input = \<lparr>reference_txid = replicate 32 2, attestation = Vote_Ok\<rparr>\<rparr>"
  let ?old = "[(replicate 32 3, ?vote 5), (replicate 32 4, ?vote 9)]"
  let ?new = "(replicate 32 6, \<lparr>common = voter_common 10 last_vote,
     msg_input = \<lparr>reference_txid = replicate 32 5, attestation = Vote_Ok\<rparr>\<rparr>)"
  have es: "voting_messages = [(replicate 32 1, FullSystemBootstrapping ?boot),
      (replicate 32 2, FullProposeSequencer (?proposal 7))] @ vote_messages ?old
      @ [(replicate 32 5, FullProposeSequencer (?proposal 8)), (fst ?new, FullValidatorAttestation (snd ?new))]"
    by (simp add: voting_messages_def vote_messages_def voter_full_def voting_boot_def demo_proposal_def
        demo_vote_def last_vote_def)
  have senders: "p2wpkh_address (voter_common k m) = ref_p2wpkh (PublicKey k) Regtest" for k m
    by (simp add: voter_common_def inscription_common_def)
  have keys: "distinct (map (\<lambda>k. ref_p2wpkh (PublicKey k) Regtest) [5, 9, 10])"
    by (simp add: ref_p2wpkh_def)
  show ?thesis
    using replaced_proposal_elected [OF es voting_shows, of 0] keys
    by (simp add: senders voter_def replicate_eq_replicate)
qed

text \<open>C36: every message of a processed range carries a height inside the range, and a block below
  the indexer's starting block is refused before the node is asked, with nothing changed.\<close>

theorem process_blocks_heights:
  "(process_blocks L ops a b s = (Ok ms, s') \<longrightarrow>
      (\<forall>m \<in> set ms. a \<le> cf_block_height (common_of_full m)
                  \<and> cf_block_height (common_of_full m) \<le> b))
   \<and> (h < starting_block_number (fst s) \<longrightarrow>
        process_block L ops h s = (Err (InvalidBlockHeight h), s))"
  by (auto simp: process_block_def dest: process_blocks_messages)

lemma demo_block_run:
  "\<exists>ms s'. process_blocks ref_lib demo_client 3 3
     (\<lparr>ix_parser = message_parser_new Regtest, ix_bridge_address = ref_p2wpkh (PublicKey 6) Regtest,
       sequencer_address = ref_p2wpkh (PublicKey 7) Regtest, ix_verifier_addresses = [],
       starting_block_number = 2\<rparr>, 0) = (Ok ms, s') \<and> length ms = 1"
  by (simp add: process_blocks_def block_range_def process_block_def parse_block_def io_bind_def
      io_zoom_def io_map_err_def demo_client_def demo_tx_parses message_parser_new_def
      demo_bootstrapping_def)

theorem process_blocks_heights_witness:
  "\<exists>m s'. process_blocks ref_lib demo_client 3 3
     (\<lparr>ix_parser = message_parser_new Regtest, ix_bridge_address = ref_p2wpkh (PublicKey 6) Regtest,
       sequencer_address = ref_p2wpkh (PublicKey 7) Regtest, ix_verifier_addresses = [],
       starting_block_number = 2\<rparr>, 0) = (Ok [m], s') \<and> cf_block_height (common_of_full m) = 3"
proof -
  let ?s = "(\<lparr>ix_parser = message_parser_new Regtest,
       ix_bridge_address = ref_p2wpkh (PublicKey 6) Regtest,
       sequencer_address = ref_p2wpkh (PublicKey 7) Regtest, ix_verifier_addresses = [],
       starting_block_number = 2\<rparr>, 0 :: nat)"
  obtain m s' where run: "process_blocks ref_lib demo_client 3 3 ?s = (Ok [m], s')"
    using demo_block_run by (auto simp: length_Suc_conv)
  from process_blocks_heights [of ref_lib demo_client 3 3 ?s "[m]" s' 1] run
  show ?thesis by auto
qed

text \<open>C37: any sender can redirect the bridge.  A bootstrapping inscription by whatever sender, in a
  transaction the parser meets after start-up, replaces the parser's bridge address by the one it
  names; from then on the amount of a deposit is read from the outputs to that address, and is
  the value of its first such output, whatever the outputs pay to the bridge of before.\<close>

theorem bootstrapping_inscription_redirects_bridge:
  assumes "lib_script_codec L" "lib_control_block L" "lib_address_text L" "lib_hash_sizes L"
    and "length pk = 32" "length pk' = 32"
    and "tx_input tx = [fee_in, tap_in]" "tx_input tx' = [fee_in', tap_in']"
    and "parse_p2wpkh L (mp_network p) (witness fee_in) = Some sender"
    and "parse_p2wpkh L (mp_network p) (witness fee_in') = Some sender'"
    and "reveals L tap_in pk (SystemBootstrapping i) sig cb"
    and "reveals L tap_in' pk' (L1ToL2Message d) sig' cb'"
    and "wf_message L (mp_network p) (SystemBootstrapping i)"
    and "wf_message L (mp_network p) (L1ToL2Message d)"
  shows "\<exists>p1 m. parse_transaction L tx h p = (Ok [m], p1)
    \<and> mp_bridge_address p1 = Some (bridge_p2wpkh_mpc_address i)
    \<and> parse_transaction L tx' h' p1 =
        (Ok [FullL1ToL2Message \<lparr>common = inscription_common L tx' h' sender' sig' cb',
           msg_input = d,
           l1_amount = bridge_amount L (Some (bridge_p2wpkh_mpc_address i)) (tx_output tx'),
           tx_outputs = tx_output tx'\<rparr>], p1)"
proof -
  let ?p1 = "parser_after (SystemBootstrapping i) p"
  have net: "mp_network ?p1 = mp_network p" by simp
  show ?thesis
    using parse_reveal_transaction [OF assms(1-4,5,7,9,11,13), of h]
      parse_reveal_transaction [OF assms(1-4,6,8), of ?p1 sender' "L1ToL2Message d" sig' cb' h']
      assms(10,12,14) net
    by (intro exI [of _ ?p1]) (auto simp: parser_inv_def)
qed

definition demo_deposit :: inscription_message where
  "demo_deposit = L1ToL2Message \<lparr>receiver_l2_address = replicate 20 7,
     l2_contract_address = replicate 20 0, call_data = []\<rparr>"

theorem bootstrapping_inscription_redirects_bridge_witness:
  "\<exists>p1 m d. parse_transaction ref_lib (demo_tx demo_bootstrapping []) 3
       \<lparr>mp_network = Regtest, mp_bridge_address = Some (ref_p2wpkh (PublicKey 9) Regtest)\<rparr>
     = (Ok [m], p1)
   \<and> parse_transaction ref_lib (demo_tx demo_deposit
       [\<lparr>txo_value = 1000, script_pubkey = ref_address_script (ref_p2wpkh (PublicKey 6) Regtest)\<rparr>,
        \<lparr>txo_value = 1, script_pubkey = ref_address_script (ref_p2wpkh (PublicKey 9) Regtest)\<rparr>])
       4 p1 = (Ok [FullL1ToL2Message d], p1)
   \<and> l1_amount d = 1000"
proof -
  let ?p = "\<lparr>mp_network = Regtest, mp_bridge_address = Some (ref_p2wpkh (PublicKey 9) Regtest)\<rparr>"
  have key: "length (be_bytes 32 5) = 32" by simp
  have fee: "parse_p2wpkh ref_lib (mp_network ?p) (witness demo_fee_in)
      = Some (ref_p2wpkh (PublicKey 5) Regtest)" by (simp add: demo_fee_sender)
  have wf: "wf_message ref_lib (mp_network ?p) demo_bootstrapping"
    "wf_message ref_lib (mp_network ?p) demo_deposit"
    by (simp_all add: demo_bootstrapping_def demo_deposit_def fits_def)
  note run = bootstrapping_inscription_redirects_bridge
    [OF ref_lib_laws(1,5,4,3) key key demo_tx_inputs demo_tx_inputs fee fee
      demo_tap_reveals [of demo_bootstrapping, unfolded demo_bootstrapping_def]
      demo_tap_reveals [of demo_deposit, unfolded demo_deposit_def]
      wf(1) [unfolded demo_bootstrapping_def] wf(2) [unfolded demo_deposit_def],
      folded demo_bootstrapping_def demo_deposit_def]
  show ?thesis
    using run [of "[]" 3 "[\<lparr>txo_value = 1000,
          script_pubkey = ref_address_script (ref_p2wpkh (PublicKey 6) Regtest)\<rparr>,
        \<lparr>txo_value = 1, script_pubkey = ref_address_script (ref_p2wpkh (PublicKey 9) Regtest)\<rparr>]" 4]
    by (auto simp: bridge_amount_def pays_bridge_def ref_p2wpkh_script ref_is_p2wpkh_script_def)
qed

section \<open>Retries and fees\<close>

text \<open>C38: retries.  A call with \<open>n\<close> retries makes at most \<open>n + 1\<close> attempts.  It fails only when
  all of them failed; when it returns a value, some attempt returned it and left that state, after
  at most \<open>n\<close> failures.\<close>

theorem with_retry_bounded:
  "failed_attempts n f w \<le> Suc n
   \<and> (\<forall>e w'. with_retry n f w = (Err e, w') \<longrightarrow> failed_attempts n f w = Suc n)
   \<and> (\<forall>a w'. with_retry n f w = (Ok a, w') \<longrightarrow>
        (\<exists>v. f v = (Ok a, w')) \<and> failed_attempts n f w \<le> n)"
  by (auto simp: failed_attempts_le dest: with_retry_Err with_retry_Ok)

text \<open>A call that fails until it has been made twice.\<close>

definition flaky :: "(nat, string, nat) io" where
  "flaky k = (if k < 2 then (Err ''busy'', Suc k) else (Ok k, Suc k))"

theorem with_retry_bounded_witness:
  "with_retry RPC_MAX_RETRIES flaky 0 = (Ok 2, 3)
   \<and> failed_attempts RPC_MAX_RETRIES flaky 0 \<le> RPC_MAX_RETRIES
   \<and> with_retry 1 flaky 0 = (Err ''busy'', 2) \<and> failed_attempts 1 flaky 0 = 2"
proof -
  have a: "with_retry RPC_MAX_RETRIES flaky 0 = (Ok 2, 3)" by code_simp
  have b: "with_retry 1 flaky 0 = (Err ''busy'', 2)" by code_simp
  show ?thesis
    using a b with_retry_bounded [of RPC_MAX_RETRIES flaky 0] with_retry_bounded [of 1 flaky 0]
    by auto
qed

text \<open>C39: the fee estimate is the size of the transaction times the fee rate, modulo $2^{64}$: eleven
  bytes, 69 for each P2WPKH input, 62 and a quarter of the witness script for each taproot input,
  34 and 43 for the outputs; the only error is a number of witness sizes that differs from the
  number of taproot inputs.\<close>

theorem estimate_fee_is_size_times_rate:
  "estimate_fee wpkh_in tr_in wpkh_out tr_out witnesses rate =
     (if tr_in = of_nat (length witnesses)
      then Ok (of_nat (size_spec (unat wpkh_in) (unat wpkh_out) (unat tr_out) (map unat witnesses)
             * unat rate))
      else Err (FeeEstimationFailed ''Invalid witness sizes count''))"
  by (simp add: estimate_fee_eq)

end
