(* ===== verification/Ref_Hex.thy ===== *)
theory Ref_Hex
  imports Via_Prelude
begin

text \<open>Hexadecimal text as the crate \<^verbatim>\<open>hex\<close> writes and reads it, for the concrete libraries.\<close>

definition hex_char :: "nat \<Rightarrow> u8" where
  "hex_char k = (if k < 10 then of_nat (48 + k) else of_nat (87 + k))"

definition hex_val :: "u8 \<Rightarrow> nat option" where
  "hex_val c = (if 48 \<le> c \<and> c \<le> 57 then Some (unat c - 48)
     else if 97 \<le> c \<and> c \<le> 102 then Some (unat c - 87) else None)"

fun hex_encode :: "bytes \<Rightarrow> bytes" where
  "hex_encode [] = []"
| "hex_encode (b # bs) = hex_char (unat b div 16) # hex_char (unat b mod 16) # hex_encode bs"

fun hex_decode :: "bytes \<Rightarrow> bytes option" where
  "hex_decode [] = Some []"
| "hex_decode [c] = None"
| "hex_decode (a # b # cs) =
     (case (hex_val a, hex_val b, hex_decode cs) of
        (Some x, Some y, Some bs) \<Rightarrow> Some (of_nat (16 * x + y) # bs)
      | _ \<Rightarrow> None)"

lemma hex_val_char: "k < 16 \<Longrightarrow> hex_val (hex_char k) = Some k"
proof -
  assume k: "k < 16"
  have "unat (of_nat (48 + k) :: u8) = 48 + k" "unat (of_nat (87 + k) :: u8) = 87 + k"
    using k by (simp_all add: unat_of_nat del: of_nat_add)
  then show ?thesis using k
    by (auto simp: hex_val_def hex_char_def word_le_nat_alt simp del: of_nat_add)
qed

lemma hex_decode_encode [simp]: "hex_decode (hex_encode bs) = Some bs"
proof (induction bs)
  case (Cons b bs)
  have "unat b < 256" using unsigned_less [of b, where 'a = nat] by simp
  then have "hex_val (hex_char (unat b div 16)) = Some (unat b div 16)"
    "hex_val (hex_char (unat b mod 16)) = Some (unat b mod 16)"
    by (simp_all add: hex_val_char less_mult_imp_div_less)
  moreover have "(of_nat (16 * (unat b div 16) + unat b mod 16) :: u8) = b"
    unfolding mult_div_mod_eq by simp
  ultimately show ?case using Cons.IH by simp
qed simp

lemma hex_encode_inj [simp]: "hex_encode xs = hex_encode ys \<longleftrightarrow> xs = ys"
  by (metis hex_decode_encode option.inject)

lemma length_hex_encode [simp]: "length (hex_encode bs) = 2 * length bs"
  by (induction bs) simp_all

end
