(* ===== verification/Json_Value.thy ===== *)
theory Json_Value
  imports Via_Prelude
begin

text \<open>
  JSON values as \<^verbatim>\<open>serde_json::Value\<close> has them, and how \<^verbatim>\<open>serde\<close> writes and reads the shapes that
  the transactions use: a vector of bytes is an array of numbers, an option is the value or
  \<^verbatim>\<open>null\<close>, a vector is an array.  Text is its bytes.  No number here has a fraction.
\<close>

datatype json =
    JNull
  | JBool bool
  | JNumber int
  | JString bytes
  | JArray "json list"
  | JObject "(string \<times> json) list"

section \<open>Writing\<close>

definition u8_to_json :: "u8 \<Rightarrow> json" where
  "u8_to_json b = JNumber (uint b)"

definition vec_to_json :: "('a \<Rightarrow> json) \<Rightarrow> 'a list \<Rightarrow> json" where
  "vec_to_json f xs = JArray (map f xs)"

fun option_to_json :: "('a \<Rightarrow> json) \<Rightarrow> 'a option \<Rightarrow> json" where
  "option_to_json f None = JNull"
| "option_to_json f (Some x) = f x"

section \<open>Reading\<close>

fun u8_from_json :: "json \<Rightarrow> u8 option" where
  "u8_from_json (JNumber n) = (if 0 \<le> n \<and> n < 256 then Some (word_of_int n) else None)"
| "u8_from_json _ = None"

fun all_some :: "('a \<Rightarrow> 'b option) \<Rightarrow> 'a list \<Rightarrow> 'b list option" where
  "all_some f [] = Some []"
| "all_some f (x # xs) =
     Option.bind (f x) (\<lambda>y. Option.bind (all_some f xs) (\<lambda>ys. Some (y # ys)))"

fun vec_from_json :: "(json \<Rightarrow> 'a option) \<Rightarrow> json \<Rightarrow> 'a list option" where
  "vec_from_json f (JArray xs) = all_some f xs"
| "vec_from_json f _ = None"

fun option_from_json :: "(json \<Rightarrow> 'a option) \<Rightarrow> json \<Rightarrow> 'a option option" where
  "option_from_json f JNull = Some None"
| "option_from_json f j = map_option Some (f j)"

text \<open>A field that has to be there, and an optional one.\<close>

definition required_field :: "(string \<times> json) list \<Rightarrow> string \<Rightarrow> (json \<Rightarrow> 'a option) \<Rightarrow> 'a option" where
  "required_field fields k f = Option.bind (map_of fields k) f"

definition optional_field ::
    "(string \<times> json) list \<Rightarrow> string \<Rightarrow> (json \<Rightarrow> 'a option option) \<Rightarrow> 'a option option" where
  "optional_field fields k f = (case map_of fields k of None \<Rightarrow> Some None | Some j \<Rightarrow> f j)"

section \<open>Round trips\<close>

lemma u8_roundtrip [simp]: "u8_from_json (u8_to_json b) = Some b"
  using unsigned_less [of b, where 'a = int] by (simp add: u8_to_json_def)

lemma all_some_map: "(\<And>x. x \<in> set xs \<Longrightarrow> f (g x) = Some x) \<Longrightarrow> all_some f (map g xs) = Some xs"
  by (induction xs) simp_all

lemma vec_roundtrip:
  "(\<And>x. x \<in> set xs \<Longrightarrow> f (g x) = Some x) \<Longrightarrow> vec_from_json f (vec_to_json g xs) = Some xs"
  by (simp add: vec_to_json_def all_some_map)

lemma option_vec_roundtrip:
  "(\<And>x. x \<in> set xs \<Longrightarrow> f (g x) = Some x) \<Longrightarrow>
     option_from_json (vec_from_json f) (option_to_json (vec_to_json g) (Some xs)) = Some (Some xs)"
  by (simp add: vec_to_json_def all_some_map)

end
