(* ===== verification/Via_Db.thy ===== *)
theory Via_Db
  imports Json_Value
begin

text \<open>
  The database behind the services: the tables that the Via queries of \<^verbatim>\<open>core/lib/dal/src\<close>
  read and write, with the columns they use and the constraints of the migrations, and the way a
  query runs.  A table is the list of its rows in insertion order.  The tables \<^verbatim>\<open>l1_batches\<close>,
  \<^verbatim>\<open>commitments\<close>, \<^verbatim>\<open>protocol_versions\<close>, \<^verbatim>\<open>proof_generation_details\<close> and the numbers of
  \<^verbatim>\<open>miniblocks\<close> are filled by other services and only read here.  Any query may fail, as the connection may be lost: the state
  carries the schedule of the failures to come.  Rolling a transaction back restores the tables
  and not the identity counters, as in Postgres.
\<close>

section \<open>Rows\<close>

type_synonym i32 = "32 word"

record l1_batch_row =
  lb_number :: u32
  lb_timestamp :: i64
  lb_hash :: "bytes option"
  lb_protocol_version :: "i32 option"
  lb_commitment :: "bytes option"
  lb_pubdata_input :: "bytes option"

record commitments_row =
  cm_l1_batch_number :: u32
  events_queue_commitment :: "bytes option"
  bootloader_initial_content_commitment :: "bytes option"

record protocol_version_row =
  pv_id :: i32
  pv_bootloader_code_hash :: bytes
  pv_default_account_code_hash :: bytes
  pv_upgrade_tx_hash :: "bytes option"

record proof_generation_row =
  pg_l1_batch_number :: u32
  pg_status :: string
  pg_proof_blob_url :: "bytes option"

text \<open>\<^verbatim>\<open>via_btc_inscriptions_request\<close>.\<close>

record inscription_request_row =
  rq_id :: i64
  rq_request_type :: string
  rq_inscription_message :: "bytes option"
  rq_predicted_fee :: "i64 option"
  rq_confirmed_history_id :: "i64 option"

text \<open>\<^verbatim>\<open>via_btc_inscriptions_request_history\<close>.\<close>

record request_history_row =
  hs_id :: i64
  hs_commit_tx_id :: bytes
  hs_reveal_tx_id :: bytes
  hs_inscription_request_id :: i64
  hs_signed_commit_tx :: bytes
  hs_signed_reveal_tx :: bytes
  hs_actual_fees :: i64
  hs_sent_at_block :: i64
  hs_confirmed_at :: "nat option"
  hs_created_at :: nat

text \<open>\<^verbatim>\<open>via_l1_batch_inscription_request\<close>.\<close>

record batch_inscription_row =
  bi_l1_batch_number :: u32
  bi_commit_id :: i64
  bi_proof_id :: "i64 option"

text \<open>\<^verbatim>\<open>via_data_availability\<close>.\<close>

record da_row =
  da_l1_batch_number :: u32
  da_is_proof :: bool
  da_blob_id :: bytes
  da_inclusion_data :: "bytes option"
  da_sent_at :: nat

text \<open>\<^verbatim>\<open>transactions\<close>: decimals are natural numbers, and a time is the number of milliseconds since
  1970.\<close>

record transaction_row =
  tr_hash :: bytes
  tr_is_priority :: bool
  tr_priority_op_id :: "i64 option"
  tr_full_fee :: "nat option"
  tr_layer_2_tip_fee :: "nat option"
  tr_initiator_address :: bytes
  tr_nonce :: "i64 option"
  tr_signature :: "bytes option"
  tr_gas_limit :: "nat option"
  tr_max_fee_per_gas :: "nat option"
  tr_max_priority_fee_per_gas :: "nat option"
  tr_gas_per_pubdata_limit :: "nat option"
  tr_input :: "bytes option"
  tr_tx_format :: "i32 option"
  tr_data :: json
  tr_received_at :: u64
  tr_in_mempool :: bool
  tr_miniblock_number :: "i64 option"
  tr_error :: "string option"
  tr_contract_address :: "bytes option"
  tr_value :: nat
  tr_paymaster :: bytes
  tr_paymaster_input :: bytes
  tr_l1_tx_mint :: "nat option"
  tr_l1_tx_refund_recipient :: "bytes option"
  tr_upgrade_id :: "i32 option"
  tr_l1_block_number :: "i32 option"

section \<open>The database\<close>

record tables =
  l1_batches :: "l1_batch_row list"
  commitments :: "commitments_row list"
  protocol_versions :: "protocol_version_row list"
  proof_generation_details :: "proof_generation_row list"
  inscriptions_request :: "inscription_request_row list"
  request_history :: "request_history_row list"
  batch_inscription :: "batch_inscription_row list"
  data_availability :: "da_row list"
  transactions :: "transaction_row list"
  miniblocks :: "i64 list"

record db =
  db_tables :: tables
  next_request_id :: i64
  next_history_id :: i64
  db_now :: nat
  db_faults :: "bool list"

datatype db_error = ConnectionError | ConstraintError | RowNotFound | SqlError

type_synonym 'a query = "(db, db_error, 'a) io"

text \<open>One round trip to the database: it fails when the schedule says so.\<close>

definition round_trip :: "'a query \<Rightarrow> 'a query" where
  "round_trip q d = (case db_faults d of
       True # fs \<Rightarrow> (Err ConnectionError, d\<lparr>db_faults := fs\<rparr>)
     | False # fs \<Rightarrow> q (d\<lparr>db_faults := fs\<rparr>)
     | [] \<Rightarrow> q d)"

definition select_rows :: "(tables \<Rightarrow> 'a) \<Rightarrow> 'a query" where
  "select_rows f = round_trip (io_get (f \<circ> db_tables))"

definition update_tables :: "(tables \<Rightarrow> tables) \<Rightarrow> unit query" where
  "update_tables f = io_modify (\<lambda>d. d\<lparr>db_tables := f (db_tables d)\<rparr>)"

text \<open>A statement that the constraints of the tables refuse in some states.\<close>

definition guarded_update :: "(tables \<Rightarrow> bool) \<Rightarrow> (tables \<Rightarrow> tables) \<Rightarrow> unit query" where
  "guarded_update violated f =
     round_trip (\<lambda>d. if violated (db_tables d) then (Err ConstraintError, d)
                     else update_tables f d)"

text \<open>An insertion into a table with an identity column: the id is taken whether or not the
  constraints accept the row.\<close>

definition insert_row ::
    "(db \<Rightarrow> 'r) \<Rightarrow> (db \<Rightarrow> db) \<Rightarrow> ('r \<Rightarrow> tables \<Rightarrow> bool) \<Rightarrow> ('r \<Rightarrow> tables \<Rightarrow> tables) \<Rightarrow>
       ('r \<Rightarrow> (db_error, 'a) res) \<Rightarrow> 'a query" where
  "insert_row row_of take_id violated add ret =
     round_trip (\<lambda>d.
       if violated (row_of d) (db_tables d) then (Err ConstraintError, take_id d)
       else (ret (row_of d), (take_id d)\<lparr>db_tables := add (row_of d) (db_tables d)\<rparr>))"

text \<open>\<^verbatim>\<open>LIMIT\<close> refuses a negative number.\<close>

definition sql_limit :: "i64 \<Rightarrow> 'a list \<Rightarrow> 'a list query" where
  "sql_limit n rows = (if sint n < 0 then io_err SqlError else io_return (take (nat (sint n)) rows))"

text \<open>A transaction: started, run, and committed when the body succeeds.  A body that fails is
  rolled back when the guard is dropped.\<close>

definition rollback :: "tables \<Rightarrow> db \<Rightarrow> db" where
  "rollback t d = d\<lparr>db_tables := t\<rparr>"

definition db_transaction :: "'a query \<Rightarrow> 'a query" where
  "db_transaction body =
     io_bind (round_trip (io_return ())) (\<lambda>_ d0.
       case body d0 of
         (Ok a, d1) \<Rightarrow>
           (case round_trip (io_return ()) d1 of
              (Ok _, d2) \<Rightarrow> (Ok a, d2)
            | (Err e, d2) \<Rightarrow> (Err e, rollback (db_tables d0) d2)
            | (Panic, d2) \<Rightarrow> (Panic, rollback (db_tables d0) d2))
       | (Err e, d1) \<Rightarrow> (Err e, rollback (db_tables d0) d1)
       | (Panic, d1) \<Rightarrow> (Panic, rollback (db_tables d0) d1))"

text \<open>A service runs its queries on the database part of a larger state; a transaction around such
  steps rolls back the tables only.\<close>

definition on_db :: "(db_error \<Rightarrow> 'e) \<Rightarrow> 'a query \<Rightarrow> (db \<times> 'x, 'e, 'a) io" where
  "on_db f q = io_zoom fst (\<lambda>d s. (d, snd s)) (io_map_err f q)"

definition in_transaction ::
    "(db_error \<Rightarrow> 'e) \<Rightarrow> (db \<times> 'x, 'e, 'a) io \<Rightarrow> (db \<times> 'x, 'e, 'a) io" where
  "in_transaction f body =
     io_bind (on_db f (round_trip (io_return ()))) (\<lambda>_ s0.
       case body s0 of
         (Ok a, s1) \<Rightarrow>
           (case on_db f (round_trip (io_return ())) s1 of
              (Ok _, s2) \<Rightarrow> (Ok a, s2)
            | (Err e, s2) \<Rightarrow> (Err e, rollback (db_tables (fst s0)) (fst s2), snd s2)
            | (Panic, s2) \<Rightarrow> (Panic, rollback (db_tables (fst s0)) (fst s2), snd s2))
       | (Err e, s1) \<Rightarrow> (Err e, rollback (db_tables (fst s0)) (fst s1), snd s1)
       | (Panic, s1) \<Rightarrow> (Panic, rollback (db_tables (fst s0)) (fst s1), snd s1))"

section \<open>Lemmas on queries\<close>

lemma sint_of_int_i64: "- (2 ^ 63) \<le> x \<Longrightarrow> x < 2 ^ 63 \<Longrightarrow> sint (word_of_int x :: i64) = x"
  by (simp add: signed_of_int signed_take_bit_int_eq_self)

lemma sint_of_nat_i64: "n < 2 ^ 63 \<Longrightarrow> sint (of_nat n :: i64) = int n"
  using sint_of_int_i64 [of "int n"] by simp

lemma sint_small: "unat (i :: i64) < 2 ^ 63 \<Longrightarrow> sint i = int (unat i)"
  using sint_of_nat_i64 [of "unat i"] by simp

lemma list_ex_update_where:
  "list_ex P (update_where p g xs) \<longleftrightarrow> list_ex (\<lambda>x. if p x then P (g x) else P x) xs"
  by (induction xs) (simp_all add: update_where_def)

lemma filter_update_where:
  "(\<And>x. P (g x) = P x) \<Longrightarrow> filter P (update_where p g xs) = update_where p g (filter P xs)"
  by (induction xs) (simp_all add: update_where_def)

lemma update_where_eq_Nil [simp]: "update_where p g xs = [] \<longleftrightarrow> xs = []"
  by (simp add: update_where_def)

lemma find_update_where:
  "(\<And>x. p (g x) = p x) \<Longrightarrow>
     List.find p (update_where q g xs) = map_option (\<lambda>x. if q x then g x else x) (List.find p xs)"
  by (induction xs) (auto simp: update_where_def)

lemma find_snoc: "List.find p (xs @ [y]) =
    (case List.find p xs of None \<Rightarrow> (if p y then Some y else None) | Some x \<Rightarrow> Some x)"
  by (induction xs) auto

lemma round_trip_Ok [io_ok]:
  "round_trip q d = (Ok a, d') \<longleftrightarrow>
     (db_faults d = [] \<and> q d = (Ok a, d')
      \<or> (\<exists>fs. db_faults d = False # fs \<and> q (d\<lparr>db_faults := fs\<rparr>) = (Ok a, d')))"
  by (auto simp: round_trip_def split: list.splits bool.splits)

lemma select_rows_Ok:
  "select_rows f d = (Ok a, d') \<Longrightarrow> a = f (db_tables d) \<and> db_tables d' = db_tables d"
  by (auto simp: select_rows_def round_trip_Ok)

lemma select_rows_tables: "io_pres (\<lambda>d. P (db_tables d)) (select_rows f)"
  by (auto simp: io_pres_def select_rows_def round_trip_def split: list.splits bool.splits)

lemma io_pres_round_trip [io_pres_intro]:
  "io_pres (\<lambda>d. P (db_tables d)) q \<Longrightarrow> io_pres (\<lambda>d. P (db_tables d)) (round_trip q)"
  by (auto simp: io_pres_def round_trip_def split: list.splits bool.splits)

lemma io_pres_update_tables [io_pres_intro]:
  "(\<And>t. P t \<Longrightarrow> P (f t)) \<Longrightarrow> io_pres (\<lambda>d. P (db_tables d)) (update_tables f)"
  by (simp add: io_pres_def update_tables_def)

lemma io_pres_guarded_update [io_pres_intro]:
  "(\<And>t. P t \<Longrightarrow> \<not> violated t \<Longrightarrow> P (f t)) \<Longrightarrow>
     io_pres (\<lambda>d. P (db_tables d)) (guarded_update violated f)"
  unfolding guarded_update_def
  by (rule io_pres_round_trip) (simp add: io_pres_def update_tables_def)

lemma guarded_update_Ok:
  "guarded_update violated f d = (Ok (), d') \<Longrightarrow>
     \<not> violated (db_tables d) \<and> db_tables d' = f (db_tables d)"
  by (auto simp: guarded_update_def round_trip_Ok update_tables_def split: if_splits)

lemma io_pres_insert_row [io_pres_intro]:
  assumes "\<And>d. db_tables (take_id d) = db_tables d"
    and "\<And>d t. P t \<Longrightarrow> \<not> violated (row_of d) t \<Longrightarrow> P (add (row_of d) t)"
  shows "io_pres (\<lambda>d. P (db_tables d)) (insert_row row_of take_id violated add ret)"
  unfolding insert_row_def
  by (rule io_pres_round_trip) (simp add: io_pres_def assms)

lemma insert_row_Ok:
  assumes "insert_row row_of take_id violated add ret d = (Ok a, d')"
  shows "\<exists>d0. db_tables d0 = db_tables d \<and> \<not> violated (row_of d0) (db_tables d)
    \<and> ret (row_of d0) = Ok a \<and> db_tables d' = add (row_of d0) (db_tables d)"
proof -
  consider "db_faults d = []" | fs where "db_faults d = False # fs"
    using assms by (auto simp: insert_row_def round_trip_Ok)
  then show ?thesis
  proof cases
    case 1
    then show ?thesis
      using assms by (intro exI [of _ d]) (auto simp: insert_row_def round_trip_def split: if_splits)
  next
    case 2
    then show ?thesis
      using assms
      by (intro exI [of _ "d\<lparr>db_faults := fs\<rparr>"])
        (auto simp: insert_row_def round_trip_def split: if_splits)
  qed
qed

lemma insert_row_not_Ok:
  assumes "insert_row row_of take_id violated add ret d = (r, d')"
    and "\<And>d. db_tables (take_id d) = db_tables d" and "\<And>row. is_Ok (ret row)" and "\<not> is_Ok r"
  shows "db_tables d' = db_tables d"
  using assms by (auto simp: insert_row_def round_trip_def split: list.splits bool.splits if_splits)

lemma io_pres_sql_limit [io_pres_intro]: "io_pres I (sql_limit n rows)"
  by (simp add: sql_limit_def io_pres_intro)

lemma sql_limit_Ok: "sql_limit n rows d = (Ok xs, d') \<longleftrightarrow>
    0 \<le> sint n \<and> xs = take (nat (sint n)) rows \<and> d' = d"
  by (auto simp: sql_limit_def)

lemma round_trip_return: "round_trip (io_return x) d = (r, d') \<Longrightarrow> db_tables d' = db_tables d"
  by (auto simp: round_trip_def split: list.splits bool.splits)

lemma transaction_cases:
  assumes "db_transaction body d = (r, d')"
  shows "\<not> is_Ok r \<and> db_tables d' = db_tables d
    \<or> (\<exists>a d0 d1. r = Ok a \<and> db_tables d0 = db_tables d \<and> body d0 = (Ok a, d1)
         \<and> db_tables d' = db_tables d1)"
proof -
  obtain x d0 where start: "round_trip (io_return ()) d = (x, d0)"
    by (cases "round_trip (io_return ()) d :: (db_error, unit) res \<times> db")
  obtain y d1 where body: "body d0 = (y, d1)" by (cases "body d0")
  obtain z d2 where comm: "round_trip (io_return ()) d1 = (z, d2)"
    by (cases "round_trip (io_return ()) d1 :: (db_error, unit) res \<times> db")
  have same: "db_tables d0 = db_tables d" "db_tables d2 = db_tables d1"
    using round_trip_return [OF start] round_trip_return [OF comm] by simp_all
  show ?thesis
    using assms start body comm same
    by (cases x; cases y; cases z) (auto simp: db_transaction_def io_bind_def rollback_def)
qed

lemma io_pres_transaction [io_pres_intro]:
  assumes "io_pres (\<lambda>d. P (db_tables d)) body"
  shows "io_pres (\<lambda>d. P (db_tables d)) (db_transaction body)"
proof (rule io_presI)
  fix d :: db
  assume P: "P (db_tables d)"
  obtain r d' where run: "db_transaction body d = (r, d')" by (cases "db_transaction body d")
  from transaction_cases [OF run] have "P (db_tables d')"
    using P assms unfolding io_pres_def by (metis snd_conv)
  then show "P (db_tables (snd (db_transaction body d)))" by (simp add: run)
qed

text \<open>A transaction that does not return a value leaves the tables as they were.\<close>

lemma transaction_atomic:
  "db_transaction body d = (r, d') \<Longrightarrow> \<not> is_Ok r \<Longrightarrow> db_tables d' = db_tables d"
  by (auto dest: transaction_cases)

lemma on_db_Ok [io_ok]:
  "on_db f q s = (Ok a, s') \<longleftrightarrow> (\<exists>d. q (fst s) = (Ok a, d) \<and> s' = (d, snd s))"
  by (auto simp: on_db_def io_ok)

lemma on_db_round_trip_return:
  "on_db f (round_trip (io_return x)) s = (r, s') \<Longrightarrow>
     db_tables (fst s') = db_tables (fst s) \<and> snd s' = snd s"
  by (auto simp: on_db_def io_zoom_def io_map_err_def split: prod.splits dest: round_trip_return)

lemma in_transaction_cases:
  assumes "in_transaction f body s = (r, s')"
  shows "\<not> is_Ok r \<and> db_tables (fst s') = db_tables (fst s)
    \<or> (\<exists>a s0 s1. r = Ok a \<and> db_tables (fst s0) = db_tables (fst s) \<and> snd s0 = snd s
         \<and> body s0 = (Ok a, s1) \<and> db_tables (fst s') = db_tables (fst s1) \<and> snd s' = snd s1)"
proof -
  obtain x s0 where start: "on_db f (round_trip (io_return ())) s = (x, s0)"
    using prod.exhaust by blast
  obtain y s1 where body: "body s0 = (y, s1)" using prod.exhaust by blast
  obtain z s2 where comm: "on_db f (round_trip (io_return ())) s1 = (z, s2)"
    using prod.exhaust by blast
  show ?thesis
    using assms start body comm on_db_round_trip_return [OF start] on_db_round_trip_return [OF comm]
    by (cases x; cases y; cases z; cases s0; cases s1)
      (auto simp: in_transaction_def io_bind_def rollback_def)
qed

text \<open>Atomicity: whatever the body did, a transaction that does not succeed leaves the tables as
  they were.\<close>

lemma in_transaction_atomic:
  "in_transaction f body s = (r, s') \<Longrightarrow> \<not> is_Ok r \<Longrightarrow> db_tables (fst s') = db_tables (fst s)"
  by (auto dest: in_transaction_cases)

lemma io_pres_on_db [io_pres_intro]:
  "io_pres (\<lambda>d. P (db_tables d)) q \<Longrightarrow> io_pres (\<lambda>s. P (db_tables (fst s))) (on_db f q)"
  by (auto simp: io_pres_def on_db_def io_zoom_def io_map_err_def split: prod.splits)

section \<open>Specifications over the tables\<close>

text \<open>The view of a query is the tables; the view of a service, the tables of its database.\<close>

abbreviation service_tables :: "db \<times> 'x \<Rightarrow> tables" where
  "service_tables s \<equiv> db_tables (fst s)"

lemma io_spec_round_trip [io_spec_intro]:
  assumes "io_spec db_tables P q Q E" "\<And>t. P t \<Longrightarrow> E t"
  shows "io_spec db_tables P (round_trip q) Q E"
proof (rule io_specI)
  fix d r d'
  assume P: "P (db_tables d)" and run: "round_trip q d = (r, d')"
  consider "db_faults d = []" | fs where "db_faults d = True # fs"
    | fs where "db_faults d = False # fs"
    by (metis (full_types) list.exhaust)
  then show "case r of Ok a \<Rightarrow> Q a (db_tables d') | Err e \<Rightarrow> E (db_tables d') | Panic \<Rightarrow> E (db_tables d')"
  proof cases
    case 1
    then show ?thesis using io_specD [OF assms(1) P] run by (simp add: round_trip_def)
  next
    case 2
    then show ?thesis using P assms(2) run by (auto simp: round_trip_def)
  next
    case 3
    then show ?thesis
      using io_specD [OF assms(1), of "d\<lparr>db_faults := fs\<rparr>"] P run by (simp add: round_trip_def)
  qed
qed

lemma io_spec_select [io_spec_intro]:
  "(\<And>t. P t \<Longrightarrow> Q (f t) t) \<Longrightarrow> (\<And>t. P t \<Longrightarrow> E t) \<Longrightarrow> io_spec db_tables P (select_rows f) Q E"
  unfolding select_rows_def by (rule io_spec_round_trip) (auto simp: io_spec_def)

text \<open>Queries that only read.\<close>

definition reads_only :: "'a query \<Rightarrow> bool" where
  "reads_only q \<longleftrightarrow> (\<forall>d. db_tables (snd (q d)) = db_tables d)"

lemma reads_only_pres: "reads_only q \<longleftrightarrow> (\<forall>t. io_pres (\<lambda>d. db_tables d = t) q)"
  by (auto simp: reads_only_def io_pres_def)

lemma reads_only_select [intro]: "reads_only (select_rows f)"
  unfolding reads_only_pres by (intro allI select_rows_tables)

lemma reads_only_bind [intro]:
  "reads_only m \<Longrightarrow> (\<And>a. reads_only (f a)) \<Longrightarrow> reads_only (io_bind m f)"
  unfolding reads_only_pres by (blast intro: io_pres_bind)

lemma reads_only_basic [intro]:
  "reads_only (io_return a)" "reads_only (io_lift r)" "reads_only (sql_limit n rows)"
  unfolding reads_only_pres by (simp_all add: io_pres_intro)

lemma io_spec_query:
  assumes "reads_only q" "\<And>d a d'. P (db_tables d) \<Longrightarrow> q d = (Ok a, d') \<Longrightarrow> Q a (db_tables d)"
    "\<And>t. P t \<Longrightarrow> E t"
  shows "io_spec db_tables P q Q E"
proof (rule io_specI)
  fix d r d'
  assume P: "P (db_tables d)" and q: "q d = (r, d')"
  have "db_tables d' = db_tables d" using assms(1) q by (auto simp: reads_only_def) (metis snd_conv)
  then show "case r of Ok a \<Rightarrow> Q a (db_tables d') | Err e \<Rightarrow> E (db_tables d') | Panic \<Rightarrow> E (db_tables d')"
    using assms(2) [OF P] assms(3) [OF P] q by (cases r) auto
qed

lemma on_db_reads_only: "reads_only q \<Longrightarrow> service_tables (snd (on_db f q s)) = service_tables s"
  by (auto simp: reads_only_def on_db_def io_zoom_def io_map_err_def split: prod.splits) (metis snd_conv)

lemma io_spec_reads_only:
  "reads_only q \<Longrightarrow> (\<And>t. P t \<Longrightarrow> E t) \<Longrightarrow> io_spec service_tables P (on_db f q) (\<lambda>_. P) E"
  by (rule io_spec_silent) (auto simp: on_db_reads_only)

lemma io_spec_update_tables [io_spec_intro]:
  "(\<And>t. P t \<Longrightarrow> Q () (f t)) \<Longrightarrow> io_spec db_tables P (update_tables f) Q E"
  by (simp add: io_spec_def update_tables_def)

lemma io_spec_guarded_update [io_spec_intro]:
  "(\<And>t. P t \<Longrightarrow> \<not> violated t \<Longrightarrow> Q () (f t)) \<Longrightarrow> (\<And>t. P t \<Longrightarrow> E t) \<Longrightarrow>
     io_spec db_tables P (guarded_update violated f) Q E"
  unfolding guarded_update_def
  by (rule io_spec_round_trip) (auto simp: io_spec_def update_tables_def)

lemma io_spec_insert_row [io_spec_intro]:
  assumes "\<And>d. db_tables (take_id d) = db_tables d"
    and "\<And>d t a. P t \<Longrightarrow> \<not> violated (row_of d) t \<Longrightarrow> ret (row_of d) = Ok a \<Longrightarrow>
        Q a (add (row_of d) t)"
    and "\<And>d t. P t \<Longrightarrow> \<not> violated (row_of d) t \<Longrightarrow> \<not> is_Ok (ret (row_of d)) \<Longrightarrow>
        E (add (row_of d) t)"
    and "\<And>t. P t \<Longrightarrow> E t"
  shows "io_spec db_tables P (insert_row row_of take_id violated add ret) Q E"
  unfolding insert_row_def
  by (rule io_spec_round_trip) (auto simp: io_spec_def assms split: res.splits)

lemma io_spec_sql_limit [io_spec_intro]:
  "(\<And>t. P t \<Longrightarrow> Q (take (nat (sint n)) rows) t) \<Longrightarrow> (\<And>t. P t \<Longrightarrow> E t) \<Longrightarrow>
     io_spec db_tables P (sql_limit n rows) Q E"
  by (simp add: sql_limit_def io_spec_def)

lemma io_spec_on_db [io_spec_intro]:
  assumes "io_spec db_tables P q Q E"
  shows "io_spec service_tables P (on_db f q) Q E"
proof (rule io_specI)
  fix s r s'
  assume P: "P (service_tables s)" and run: "on_db f q s = (r, s')"
  obtain x d where q: "q (fst s) = (x, d)" by (cases "q (fst s)")
  show "case r of Ok a \<Rightarrow> Q a (service_tables s') | Err e \<Rightarrow> E (service_tables s')
      | Panic \<Rightarrow> E (service_tables s')"
    using io_specD [OF assms P q] run q
    by (cases x) (auto simp: on_db_def io_zoom_def io_map_err_def)
qed

text \<open>A transaction that fails leaves the tables it started with.\<close>

lemma io_spec_transaction [io_spec_intro]:
  assumes "\<And>t0. P t0 \<Longrightarrow> io_spec db_tables (\<lambda>t. t = t0) body Q (\<lambda>_. True)"
    and "\<And>t. P t \<Longrightarrow> E t"
  shows "io_spec db_tables P (db_transaction body) Q E"
proof (rule io_specI)
  fix d r d'
  assume P: "P (db_tables d)" and run: "db_transaction body d = (r, d')"
  show "case r of Ok a \<Rightarrow> Q a (db_tables d') | Err e \<Rightarrow> E (db_tables d') | Panic \<Rightarrow> E (db_tables d')"
    using transaction_cases [OF run] P assms(2)
    by (cases r) (auto intro: io_spec_Ok [OF assms(1) [OF P]])
qed

lemma io_spec_in_transaction [io_spec_intro]:
  assumes "\<And>t0. P t0 \<Longrightarrow> io_spec service_tables (\<lambda>t. t = t0) body Q (\<lambda>_. True)"
    and "\<And>t. P t \<Longrightarrow> E t"
  shows "io_spec service_tables P (in_transaction f body) Q E"
proof (rule io_specI)
  fix s r s'
  assume P: "P (service_tables s)" and run: "in_transaction f body s = (r, s')"
  show "case r of Ok a \<Rightarrow> Q a (service_tables s') | Err e \<Rightarrow> E (service_tables s')
      | Panic \<Rightarrow> E (service_tables s')"
    using in_transaction_cases [OF run] P assms(2)
    by (cases r) (auto dest: io_spec_Ok [OF assms(1) [OF P], rotated])
qed

lemma io_pres_in_transaction [io_pres_intro]:
  assumes "io_pres (\<lambda>s. P (service_tables s)) body"
  shows "io_pres (\<lambda>s. P (service_tables s)) (in_transaction f body)"
proof -
  have "io_spec service_tables P body (\<lambda>_. P) P"
    using assms io_pres_spec [of P service_tables body] by blast
  then have "io_spec service_tables P (in_transaction f body) (\<lambda>_. P) P"
    by (intro io_spec_in_transaction) (auto elim: io_spec_weaken)
  then show ?thesis using io_pres_spec [of P service_tables "in_transaction f body"] by blast
qed

end
