(* ===== verification/Sender_Dal.thy ===== *)
theory Sender_Dal
  imports Via_Db Btc_Types
begin

text \<open>
  The queries of the Bitcoin sender: \<^verbatim>\<open>core/lib/dal/src/btc_sender_dal.rs\<close> and
  \<^verbatim>\<open>via_blocks_dal.rs\<close>, their row models (\<^verbatim>\<open>models/storage_btc_inscription_request.rs\<close>,
  \<^verbatim>\<open>models/storage_btc_block.rs\<close>) and the types of \<^verbatim>\<open>core/lib/types/src/btc_*.rs\<close>.  The text
  form of a transaction id and the serialisations are library functions, the record
  \<open>sender_lib\<close>.  Casts between integer widths are written out.
\<close>

section \<open>Types\<close>

datatype request_type = CommitL1BatchOnchain | CommitProofOnchain

fun request_type_as_str :: "request_type \<Rightarrow> string" where
  "request_type_as_str CommitL1BatchOnchain = ''CommitL1BatchOnchain''"
| "request_type_as_str CommitProofOnchain = ''CommitProofOnchain''"

definition request_type_from_str :: "string \<Rightarrow> request_type option" where
  "request_type_from_str s =
     (if s = ''CommitL1BatchOnchain'' then Some CommitL1BatchOnchain
      else if s = ''CommitProofOnchain'' then Some CommitProofOnchain
      else None)"

lemma request_type_roundtrip [simp]: "request_type_from_str (request_type_as_str t) = Some t"
  by (cases t) (simp_all add: request_type_from_str_def)

record btc_l1_block_details =
  bd_number :: u32
  bd_timestamp :: i64
  bd_hash :: "bytes option"
  bd_commit_tx_id :: txid
  bd_reveal_tx_id :: txid
  bd_blob_id :: bytes

record btc_inscription_request =
  ir_id :: i64
  ir_request_type :: request_type
  ir_inscription_message :: "bytes option"
  ir_predicted_fee :: "i64 option"
  ir_confirmed_history_id :: "i64 option"

record btc_inscription_request_history =
  rh_id :: i64
  rh_commit_tx_id :: txid
  rh_reveal_tx_id :: txid
  rh_inscription_request_id :: i64
  rh_sent_at_block :: i64
  rh_actual_fees :: i64
  rh_confirmed_at :: "nat option"

record sender_lib =
  txid_to_string :: "txid \<Rightarrow> bytes"
  txid_from_str :: "bytes \<Rightarrow> txid option"
  message_to_bytes :: "inscription_message \<Rightarrow> bytes"
  message_from_bytes :: "bytes \<Rightarrow> inscription_message option"
  tx_serialize :: "transaction \<Rightarrow> bytes option"

text \<open>Documented behaviour: the text of a transaction id reads back, the empty text is none, and a
  serialised message reads back.\<close>

definition sender_lib_ok :: "sender_lib \<Rightarrow> bool" where
  "sender_lib_ok T \<longleftrightarrow>
     (\<forall>t. length t = 32 \<longrightarrow> txid_from_str T (txid_to_string T t) = Some t)
   \<and> txid_from_str T [] = None
   \<and> (\<forall>m. message_from_bytes T (message_to_bytes T m) = Some m)"

section \<open>Row conversions\<close>

record storage_l1_block_details =
  sd_number :: i64
  sd_timestamp :: i64
  sd_hash :: "bytes option"
  sd_commit_tx_id :: "bytes option"
  sd_reveal_tx_id :: "bytes option"
  sd_blob_id :: "bytes option"

definition unwrap_or_default :: "bytes option \<Rightarrow> bytes" where
  "unwrap_or_default x = (case x of Some b \<Rightarrow> b | None \<Rightarrow> [])"

definition txid_or_zeros :: "txid option \<Rightarrow> txid" where
  "txid_or_zeros x = (case x of Some t \<Rightarrow> t | None \<Rightarrow> replicate 32 0)"

text \<open>Both transaction ids are read from the column of the commit transaction.\<close>

definition block_details_from :: "sender_lib \<Rightarrow> storage_l1_block_details \<Rightarrow> btc_l1_block_details" where
  "block_details_from T details =
     \<lparr>bd_number = ucast (sd_number details),
      bd_timestamp = sd_timestamp details,
      bd_hash = sd_hash details,
      bd_commit_tx_id =
        txid_or_zeros (txid_from_str T (unwrap_or_default (sd_commit_tx_id details))),
      bd_reveal_tx_id =
        txid_or_zeros (txid_from_str T (unwrap_or_default (sd_commit_tx_id details))),
      bd_blob_id = unwrap_or_default (sd_blob_id details)\<rparr>"

definition inscription_request_from ::
    "inscription_request_row \<Rightarrow> ('e, btc_inscription_request) res" where
  "inscription_request_from req =
     res_bind (unwrap (request_type_from_str (rq_request_type req))) (\<lambda>t.
     Ok \<lparr>ir_id = rq_id req, ir_request_type = t,
         ir_inscription_message = rq_inscription_message req,
         ir_predicted_fee = rq_predicted_fee req,
         ir_confirmed_history_id = rq_confirmed_history_id req\<rparr>)"

definition request_history_from ::
    "sender_lib \<Rightarrow> request_history_row \<Rightarrow> ('e, btc_inscription_request_history) res" where
  "request_history_from T h =
     res_bind (unwrap (txid_from_str T (hs_commit_tx_id h))) (\<lambda>commit.
     res_bind (unwrap (txid_from_str T (hs_reveal_tx_id h))) (\<lambda>reveal.
     Ok \<lparr>rh_id = hs_id h, rh_commit_tx_id = commit, rh_reveal_tx_id = reveal,
         rh_inscription_request_id = hs_inscription_request_id h,
         rh_sent_at_block = hs_sent_at_block h, rh_actual_fees = hs_actual_fees h,
         rh_confirmed_at = hs_confirmed_at h\<rparr>))"

text \<open>\<^verbatim>\<open>x as i32\<close> stored in a \<^verbatim>\<open>bigint\<close> column.\<close>

definition as_i32 :: "i64 \<Rightarrow> i64" where
  "as_i32 x = scast (ucast x :: i32)"

section \<open>The sender's queries\<close>

text \<open>What the statements write.\<close>

definition add_request :: "inscription_request_row \<Rightarrow> tables \<Rightarrow> tables" where
  "add_request row t = t\<lparr>inscriptions_request := inscriptions_request t @ [row]\<rparr>"

definition add_history :: "request_history_row \<Rightarrow> tables \<Rightarrow> tables" where
  "add_history row t = t\<lparr>request_history := request_history t @ [row]\<rparr>"

definition mark_history :: "i64 \<Rightarrow> nat \<Rightarrow> tables \<Rightarrow> tables" where
  "mark_history hid now t = t\<lparr>request_history :=
     update_where (\<lambda>h. hs_id h = hid) (\<lambda>h. h\<lparr>hs_confirmed_at := Some now\<rparr>) (request_history t)\<rparr>"

definition mark_request :: "i64 \<Rightarrow> i64 \<Rightarrow> tables \<Rightarrow> tables" where
  "mark_request rid hid t = t\<lparr>inscriptions_request :=
     update_where (\<lambda>r. rq_id r = rid) (\<lambda>r. r\<lparr>rq_confirmed_history_id := Some hid\<rparr>)
       (inscriptions_request t)\<rparr>"

definition add_link :: "batch_inscription_row \<Rightarrow> tables \<Rightarrow> tables" where
  "add_link b t = t\<lparr>batch_inscription := batch_inscription t @ [b]\<rparr>"

definition awaits_proof_id :: "u32 \<Rightarrow> batch_inscription_row \<Rightarrow> bool" where
  "awaits_proof_id batch_number b \<longleftrightarrow> bi_l1_batch_number b = batch_number \<and> bi_proof_id b = None"

definition link_proof :: "u32 \<Rightarrow> i64 \<Rightarrow> tables \<Rightarrow> tables" where
  "link_proof batch_number p t = t\<lparr>batch_inscription :=
     update_where (awaits_proof_id batch_number) (\<lambda>b. b\<lparr>bi_proof_id := Some p\<rparr>)
       (batch_inscription t)\<rparr>"

lemmas write_defs =
  add_request_def add_history_def mark_history_def mark_request_def add_link_def link_proof_def

definition via_save_btc_inscriptions_request ::
    "request_type \<Rightarrow> bytes \<Rightarrow> u64 \<Rightarrow> btc_inscription_request query" where
  "via_save_btc_inscriptions_request ty msg predicted_fee =
     insert_row
       (\<lambda>d. \<lparr>rq_id = next_request_id d, rq_request_type = request_type_as_str ty,
             rq_inscription_message = Some msg, rq_predicted_fee = Some predicted_fee,
             rq_confirmed_history_id = None\<rparr>)
       (\<lambda>d. d\<lparr>next_request_id := next_request_id d + 1\<rparr>)
       (\<lambda>row t. list_ex (\<lambda>r. rq_id r = rq_id row) (inscriptions_request t))
       add_request inscription_request_from"

definition histories_of :: "tables \<Rightarrow> i64 \<Rightarrow> request_history_row list" where
  "histories_of t rid = filter (\<lambda>h. hs_inscription_request_id h = rid) (request_history t)"

text \<open>\<^verbatim>\<open>ORDER BY created_at DESC LIMIT 1\<close>.  The statement does not say which row it takes of several
  created at the same time; the histories of a request are inserted by transactions of their own, one
  after the other, and here the last inserted is taken.\<close>

definition latest_history :: "request_history_row list \<Rightarrow> request_history_row option" where
  "latest_history hs =
     (case filter (\<lambda>h. list_all (\<lambda>h'. hs_created_at h' \<le> hs_created_at h) hs) hs of
        [] \<Rightarrow> None
      | h # rest \<Rightarrow> Some (last (h # rest)))"

definition inflight_rows :: "tables \<Rightarrow> inscription_request_row list" where
  "inflight_rows t =
     sort_key (sint \<circ> rq_id)
       (concat (map (\<lambda>r. map (\<lambda>h. r)
          (filter (\<lambda>h. hs_inscription_request_id h = rq_id r
                    \<and> rq_confirmed_history_id r = None
                    \<and> map_option hs_id (latest_history (histories_of t (rq_id r))) = Some (hs_id h))
             (request_history t))) (inscriptions_request t)))"

definition get_inflight_inscriptions :: "btc_inscription_request list query" where
  "get_inflight_inscriptions =
     io_bind (select_rows inflight_rows) (\<lambda>rows. io_lift (res_map inscription_request_from rows))"

definition new_request_rows :: "tables \<Rightarrow> inscription_request_row list" where
  "new_request_rows t =
     sort_key (sint \<circ> rq_id)
       (filter (\<lambda>r. histories_of t (rq_id r) = []) (inscriptions_request t))"

definition list_new_inscription_request :: "i64 \<Rightarrow> btc_inscription_request list query" where
  "list_new_inscription_request limit =
     io_bind (select_rows new_request_rows) (\<lambda>rows.
     io_bind (sql_limit limit rows) (\<lambda>limited.
     io_lift (res_map inscription_request_from limited)))"

definition insert_inscription_request_history ::
    "sender_lib \<Rightarrow> txid \<Rightarrow> txid \<Rightarrow> i64 \<Rightarrow> bytes \<Rightarrow> bytes \<Rightarrow> i64 \<Rightarrow> i64 \<Rightarrow> u32 option query" where
  "insert_inscription_request_history T commit_tx_id reveal_tx_id rid signed_commit signed_reveal
     actual_fees sent_at_block =
     insert_row
       (\<lambda>d. \<lparr>hs_id = next_history_id d,
             hs_commit_tx_id = txid_to_string T commit_tx_id,
             hs_reveal_tx_id = txid_to_string T reveal_tx_id,
             hs_inscription_request_id = rid,
             hs_signed_commit_tx = signed_commit, hs_signed_reveal_tx = signed_reveal,
             hs_actual_fees = actual_fees, hs_sent_at_block = as_i32 sent_at_block,
             hs_confirmed_at = None, hs_created_at = db_now d\<rparr>)
       (\<lambda>d. d\<lparr>next_history_id := next_history_id d + 1\<rparr>)
       (\<lambda>row t. list_ex (\<lambda>h. hs_id h = hs_id row \<or> hs_commit_tx_id h = hs_commit_tx_id row
                 \<or> hs_reveal_tx_id h = hs_reveal_tx_id row) (request_history t)
              \<or> \<not> list_ex (\<lambda>r. rq_id r = rid) (inscriptions_request t))
       add_history (\<lambda>row. Ok (Some (ucast (hs_id row))))"

definition get_last_inscription_request_history ::
    "sender_lib \<Rightarrow> i64 \<Rightarrow> btc_inscription_request_history option query" where
  "get_last_inscription_request_history T rid =
     io_bind (select_rows (\<lambda>t. sort_key (\<lambda>h. - sint (hs_id h)) (histories_of t rid))) (\<lambda>rows.
       case rows of
         [] \<Rightarrow> io_return None
       | h # _ \<Rightarrow> io_bind (io_lift (request_history_from T h)) (\<lambda>x. io_return (Some x)))"

definition get_total_inscription_request_history :: "i64 \<Rightarrow> i64 query" where
  "get_total_inscription_request_history rid =
     select_rows (\<lambda>t. of_nat (length (histories_of t rid)))"

text \<open>Two updates in a transaction; the second is subject to the uniqueness of the confirmed
  history and to its existence.\<close>

definition set_history_confirmed :: "i64 \<Rightarrow> unit query" where
  "set_history_confirmed hid =
     round_trip (\<lambda>d. update_tables (mark_history hid (db_now d)) d)"

definition set_request_confirmed :: "i64 \<Rightarrow> i64 \<Rightarrow> unit query" where
  "set_request_confirmed rid hid =
     guarded_update
       (\<lambda>t. list_ex (\<lambda>r. rq_id r = rid) (inscriptions_request t)
          \<and> (list_ex (\<lambda>r. rq_id r \<noteq> rid \<and> rq_confirmed_history_id r = Some hid)
               (inscriptions_request t)
             \<or> \<not> list_ex (\<lambda>h. hs_id h = hid) (request_history t)))
       (mark_request rid hid)"

definition confirm_inscription :: "i64 \<Rightarrow> i64 \<Rightarrow> unit query" where
  "confirm_inscription rid hid =
     db_transaction (io_bind (set_history_confirmed hid) (\<lambda>_. set_request_confirmed rid hid))"

section \<open>The batch queries\<close>

text \<open>The statement inserts nothing when the batch or the request is already present, which the
  method reports as an error.\<close>

definition insert_commit_request_id :: "u32 \<Rightarrow> i64 \<Rightarrow> unit query" where
  "insert_commit_request_id batch_number rid =
     guarded_update
       (\<lambda>t. list_ex (\<lambda>b. bi_l1_batch_number b = batch_number \<or> bi_commit_id b = as_i32 rid)
              (batch_inscription t)
          \<or> \<not> list_ex (\<lambda>b. lb_number b = batch_number) (l1_batches t)
          \<or> \<not> list_ex (\<lambda>r. rq_id r = as_i32 rid) (inscriptions_request t))
       (add_link \<lparr>bi_l1_batch_number = batch_number, bi_commit_id = as_i32 rid,
          bi_proof_id = None\<rparr>)"

definition set_proof_request_id :: "u32 \<Rightarrow> i64 \<Rightarrow> unit query" where
  "set_proof_request_id batch_number rid =
     guarded_update
       (\<lambda>t. \<not> list_ex (awaits_proof_id batch_number) (batch_inscription t)
          \<or> list_ex (\<lambda>b. bi_proof_id b = Some (as_i32 rid)) (batch_inscription t)
          \<or> \<not> list_ex (\<lambda>r. rq_id r = as_i32 rid) (inscriptions_request t))
       (link_proof batch_number (as_i32 rid))"

definition insert_l1_batch_inscription_request_id :: "u32 \<Rightarrow> i64 \<Rightarrow> request_type \<Rightarrow> unit query" where
  "insert_l1_batch_inscription_request_id batch_number rid ty =
     (case ty of
        CommitL1BatchOnchain \<Rightarrow> insert_commit_request_id batch_number rid
      | CommitProofOnchain \<Rightarrow> set_proof_request_id batch_number rid)"

definition storage_details ::
    "l1_batch_row \<Rightarrow> bytes \<Rightarrow> bytes \<Rightarrow> da_row \<Rightarrow> storage_l1_block_details" where
  "storage_details b commit reveal a =
     \<lparr>sd_number = ucast (lb_number b), sd_timestamp = lb_timestamp b, sd_hash = lb_hash b,
      sd_commit_tx_id = Some commit, sd_reveal_tx_id = Some reveal,
      sd_blob_id = Some (da_blob_id a)\<rparr>"

text \<open>The rows of the join that pass the \<^verbatim>\<open>WHERE\<close> clause.  A batch with no row in the joined
  tables has nulls there; the clause keeps it only where it asks for a null.\<close>

definition protocol_ok :: "tables \<Rightarrow> bytes \<Rightarrow> bytes \<Rightarrow> i32 \<Rightarrow> l1_batch_row \<Rightarrow> bool" where
  "protocol_ok t bootloader_hash default_aa_hash protocol_version_id b =
     list_ex (\<lambda>v. Some (pv_id v) = lb_protocol_version b
         \<and> pv_bootloader_code_hash v = bootloader_hash
         \<and> pv_default_account_code_hash v = default_aa_hash
         \<and> (pv_id v = protocol_version_id \<or> pv_upgrade_tx_hash v = None)) (protocol_versions t)"

definition commitments_ok :: "tables \<Rightarrow> l1_batch_row \<Rightarrow> bool" where
  "commitments_ok t b =
     list_ex (\<lambda>c. cm_l1_batch_number c = lb_number b \<and> events_queue_commitment c \<noteq> None
         \<and> bootloader_initial_content_commitment c \<noteq> None) (commitments t)"

definition ready_for_commit_rows ::
    "bytes \<Rightarrow> bytes \<Rightarrow> i32 \<Rightarrow> tables \<Rightarrow> storage_l1_block_details list" where
  "ready_for_commit_rows bootloader_hash default_aa_hash protocol_version_id t =
     concat (map (\<lambda>b.
       map (storage_details b [] [])
         (filter (\<lambda>a. da_l1_batch_number a = lb_number b \<and> \<not> da_is_proof a
                    \<and> da_inclusion_data a \<noteq> None) (data_availability t)))
       (filter (\<lambda>b. \<not> list_ex (\<lambda>i. bi_l1_batch_number i = lb_number b) (batch_inscription t)
                 \<and> lb_number b \<noteq> 0
                 \<and> protocol_ok t bootloader_hash default_aa_hash protocol_version_id b
                 \<and> lb_commitment b \<noteq> None \<and> commitments_ok t b)
          (sort_key lb_number (l1_batches t))))"

definition get_ready_for_commit_l1_batches ::
    "sender_lib \<Rightarrow> i64 \<Rightarrow> bytes \<Rightarrow> bytes \<Rightarrow> i32 \<Rightarrow> btc_l1_block_details list query" where
  "get_ready_for_commit_l1_batches T limit bootloader_hash default_aa_hash protocol_version_id =
     io_bind (select_rows (ready_for_commit_rows bootloader_hash default_aa_hash
         protocol_version_id)) (\<lambda>rows.
     io_bind (sql_limit limit rows) (\<lambda>limited.
     io_return (map (block_details_from T) limited)))"

definition history_txids :: "tables \<Rightarrow> i64 \<Rightarrow> bytes \<times> bytes" where
  "history_txids t rid = (case latest_history (histories_of t rid) of
       Some h \<Rightarrow> (hs_commit_tx_id h, hs_reveal_tx_id h)
     | None \<Rightarrow> ([], []))"

definition ready_for_proof_rows :: "tables \<Rightarrow> storage_l1_block_details list" where
  "ready_for_proof_rows t =
     concat (map (\<lambda>b.
       concat (map (\<lambda>i.
         concat (map (\<lambda>a.
           map (\<lambda>r. storage_details b (fst (history_txids t (rq_id r)))
                    (snd (history_txids t (rq_id r))) a)
             (filter (\<lambda>r. rq_id r = bi_commit_id i \<and> rq_confirmed_history_id r \<noteq> None)
                (inscriptions_request t)))
           (filter (\<lambda>a. da_l1_batch_number a = lb_number b \<and> da_is_proof a)
              (data_availability t))))
         (filter (\<lambda>i. bi_l1_batch_number i = lb_number b \<and> bi_proof_id i = None)
            (batch_inscription t))))
       (sort_key lb_number (l1_batches t)))"

definition get_ready_for_commit_proof_l1_batches ::
    "sender_lib \<Rightarrow> i64 \<Rightarrow> btc_l1_block_details list query" where
  "get_ready_for_commit_proof_l1_batches T limit =
     io_bind (select_rows ready_for_proof_rows) (\<lambda>rows.
     io_bind (sql_limit limit rows) (\<lambda>limited.
     io_return (map (block_details_from T) limited)))"

section \<open>The constraints of the tables\<close>

text \<open>What the key, unique and foreign-key constraints of the migrations state, and the code never
  breaks: a batch has at most one commit inscription and at most one proof inscription, no request
  serves two batches, and the ids that refer to requests and histories refer to existing ones.\<close>

definition request_ids :: "tables \<Rightarrow> i64 list" where
  "request_ids t = map rq_id (inscriptions_request t)"

definition history_ids :: "tables \<Rightarrow> i64 list" where
  "history_ids t = map hs_id (request_history t)"

definition proof_ids :: "tables \<Rightarrow> i64 list" where
  "proof_ids t = map the (filter (\<lambda>p. p \<noteq> None) (map bi_proof_id (batch_inscription t)))"

definition batch_inscription_ok :: "tables \<Rightarrow> bool" where
  "batch_inscription_ok t \<longleftrightarrow>
     distinct (map bi_l1_batch_number (batch_inscription t))
   \<and> distinct (map bi_commit_id (batch_inscription t))
   \<and> distinct (proof_ids t)
   \<and> distinct (request_ids t)
   \<and> set (map bi_commit_id (batch_inscription t)) \<subseteq> set (request_ids t)
   \<and> set (proof_ids t) \<subseteq> set (request_ids t)"

definition history_ok :: "tables \<Rightarrow> bool" where
  "history_ok t \<longleftrightarrow>
     distinct (history_ids t)
   \<and> distinct (map hs_commit_tx_id (request_history t))
   \<and> distinct (map hs_reveal_tx_id (request_history t))
   \<and> set (map hs_inscription_request_id (request_history t)) \<subseteq> set (request_ids t)
   \<and> (\<forall>r \<in> set (inscriptions_request t). \<forall>hid. rq_confirmed_history_id r = Some hid \<longrightarrow>
        hid \<in> set (history_ids t))"

definition sender_inv :: "tables \<Rightarrow> bool" where
  "sender_inv t \<longleftrightarrow> batch_inscription_ok t \<and> history_ok t"

lemmas sender_inv_defs =
  sender_inv_def batch_inscription_ok_def history_ok_def request_ids_def history_ids_def
  proof_ids_def

lemma ids_update [simp]:
  "request_ids (t\<lparr>inscriptions_request := rs\<rparr>) = map rq_id rs"
  "request_ids (t\<lparr>request_history := hs\<rparr>) = request_ids t"
  "request_ids (t\<lparr>batch_inscription := bs\<rparr>) = request_ids t"
  "history_ids (t\<lparr>inscriptions_request := rs\<rparr>) = history_ids t"
  "history_ids (t\<lparr>request_history := hs\<rparr>) = map hs_id hs"
  "history_ids (t\<lparr>batch_inscription := bs\<rparr>) = history_ids t"
  "proof_ids (t\<lparr>inscriptions_request := rs\<rparr>) = proof_ids t"
  "proof_ids (t\<lparr>request_history := hs\<rparr>) = proof_ids t"
  by (simp_all add: request_ids_def history_ids_def proof_ids_def)

lemma map_ids:
  "map rq_id (inscriptions_request t) = request_ids t"
  "map hs_id (request_history t) = history_ids t"
  by (simp_all add: request_ids_def history_ids_def)

lemma list_ex_ids:
  "list_ex (\<lambda>r. rq_id r = i) (inscriptions_request t) \<longleftrightarrow> i \<in> set (request_ids t)"
  "list_ex (\<lambda>h. hs_id h = i) (request_history t) \<longleftrightarrow> i \<in> set (history_ids t)"
  by (auto simp: request_ids_def history_ids_def list_ex_iff)

lemmas sender_inv_parts = sender_inv_def batch_inscription_ok_def history_ok_def

lemma save_request_inv:
  "io_pres (\<lambda>d. sender_inv (db_tables d)) (via_save_btc_inscriptions_request ty msg fee)"
  unfolding via_save_btc_inscriptions_request_def
  by (rule io_pres_insert_row) (auto simp: sender_inv_parts map_ids list_ex_ids add_request_def)

lemma insert_history_inv:
  "io_pres (\<lambda>d. sender_inv (db_tables d))
     (insert_inscription_request_history T c r rid sc sr fees block)"
  unfolding insert_inscription_request_history_def
  by (rule io_pres_insert_row)
    (auto simp: sender_inv_defs list_ex_iff add_history_def)

lemma set_history_confirmed_inv:
  "io_pres (\<lambda>d. sender_inv (db_tables d)) (set_history_confirmed hid)"
  unfolding set_history_confirmed_def
  by (rule io_pres_round_trip)
    (simp add: io_pres_def update_tables_def mark_history_def sender_inv_defs update_where_field
      del: set_map)

lemma set_request_confirmed_inv:
  "io_pres (\<lambda>d. sender_inv (db_tables d)) (set_request_confirmed rid hid)"
  unfolding set_request_confirmed_def
proof (rule io_pres_guarded_update)
  fix t :: tables
  assume "sender_inv t" and
    "\<not> (list_ex (\<lambda>r. rq_id r = rid) (inscriptions_request t)
       \<and> (list_ex (\<lambda>r. rq_id r \<noteq> rid \<and> rq_confirmed_history_id r = Some hid)
            (inscriptions_request t)
          \<or> \<not> list_ex (\<lambda>h. hs_id h = hid) (request_history t)))"
  then show "sender_inv (mark_request rid hid t)"
    by (auto simp: sender_inv_defs mark_request_def update_where_field set_update_where list_ex_iff
        simp del: set_map)
      (auto simp: image_iff)
qed

lemma confirm_inscription_inv:
  "io_pres (\<lambda>d. sender_inv (db_tables d)) (confirm_inscription rid hid)"
  unfolding confirm_inscription_def
  by (intro io_pres_transaction io_pres_bind set_history_confirmed_inv set_request_confirmed_inv)

lemma insert_commit_request_id_inv:
  "io_pres (\<lambda>d. sender_inv (db_tables d)) (insert_commit_request_id n rid)"
  unfolding insert_commit_request_id_def
  by (rule io_pres_guarded_update) (auto simp: sender_inv_defs add_link_def list_ex_iff intro: rev_image_eqI)

text \<open>At most one row of a batch awaits its proof, as batch numbers are unique.\<close>

lemma proof_ids_update:
  assumes "distinct (map bi_l1_batch_number bs)"
    and "distinct (map the (filter (\<lambda>p. p \<noteq> None) (map bi_proof_id bs)))"
    and "\<not> list_ex (\<lambda>b. bi_proof_id b = Some x) bs"
    and bs': "bs' = update_where (awaits_proof_id n) (\<lambda>b. b\<lparr>bi_proof_id := Some x\<rparr>) bs"
  shows "distinct (map the (filter (\<lambda>p. p \<noteq> None) (map bi_proof_id bs')))
    \<and> set (map the (filter (\<lambda>p. p \<noteq> None) (map bi_proof_id bs')))
      \<subseteq> insert x (set (map the (filter (\<lambda>p. p \<noteq> None) (map bi_proof_id bs))))"
  using assms(1-3) unfolding bs'
proof (induction bs)
  case (Cons b bs)
  have none: "update_where (awaits_proof_id n) (\<lambda>b. b\<lparr>bi_proof_id := Some x\<rparr>) bs = bs"
    if "awaits_proof_id n b"
  proof (rule update_where_none)
    fix x
    assume "x \<in> set bs"
    then have "bi_l1_batch_number x \<in> bi_l1_batch_number ` set bs" by (rule imageI)
    then have "bi_l1_batch_number x \<noteq> bi_l1_batch_number b" using Cons.prems(1) by auto
    then show "\<not> awaits_proof_id n x" using that by (simp add: awaits_proof_id_def)
  qed
  show ?case
  proof (cases "awaits_proof_id n b")
    case True
    have "x \<notin> set (map the (filter (\<lambda>p. p \<noteq> None) (map bi_proof_id bs)))"
      using Cons.prems(3) by (auto simp: list_ex_iff)
    then show ?thesis
      using True none Cons.prems by (auto simp: update_where_def awaits_proof_id_def)
  next
    case False
    then show ?thesis
      using Cons by (cases "bi_proof_id b") (auto simp: update_where_def)
  qed
qed (simp add: update_where_def)

lemma set_proof_request_id_inv:
  "io_pres (\<lambda>d. sender_inv (db_tables d)) (set_proof_request_id n rid)"
  unfolding set_proof_request_id_def
proof (rule io_pres_guarded_update)
  fix t :: tables
  assume inv: "sender_inv t" and
    ok: "\<not> (\<not> list_ex (awaits_proof_id n) (batch_inscription t)
          \<or> list_ex (\<lambda>b. bi_proof_id b = Some (as_i32 rid)) (batch_inscription t)
          \<or> \<not> list_ex (\<lambda>r. rq_id r = as_i32 rid) (inscriptions_request t))"
  have "as_i32 rid \<in> set (request_ids t)" using ok by (force simp: request_ids_def list_ex_iff)
  with inv ok proof_ids_update [OF _ _ _ refl, of "batch_inscription t" "as_i32 rid" n]
  show "sender_inv (link_proof n (as_i32 rid) t)"
    by (auto simp: sender_inv_defs link_proof_def update_where_field simp del: set_map filter_map)
qed

lemma insert_l1_batch_inscription_request_id_inv:
  "io_pres (\<lambda>d. sender_inv (db_tables d)) (insert_l1_batch_inscription_request_id n rid ty)"
  by (cases ty)
    (simp_all add: insert_l1_batch_inscription_request_id_def insert_commit_request_id_inv
      set_proof_request_id_inv)

end
