(* ===== verification/Btc_Sender.thy ===== *)
theory Btc_Sender
  imports Sender_Dal Inscriber
begin

text \<open>
  The Bitcoin sender (\<^verbatim>\<open>core/node/via_btc_sender/src\<close>): the publication criteria
  (\<^verbatim>\<open>publish_criterion.rs\<close>), the aggregator that picks the next operation
  (\<^verbatim>\<open>aggregator.rs\<close>, \<^verbatim>\<open>aggregated_operations.rs\<close>), the service that turns an operation into
  inscription requests (\<^verbatim>\<open>btc_inscription_aggregator.rs\<close>), and the service that inscribes the
  requests and follows them to confirmation (\<^verbatim>\<open>btc_inscription_manager.rs\<close>).  A service runs on
  the database, the inscriber's queue and the Bitcoin node; the wall clock is an argument.
\<close>

section \<open>Configuration and operations\<close>

definition BLOCK_RESEND :: u32 where "BLOCK_RESEND = 6"
definition BLOCK_TIME_TO_COMMIT :: u32 where "BLOCK_TIME_TO_COMMIT = 3600"
definition BLOCK_TIME_TO_PROOF :: u32 where "BLOCK_TIME_TO_PROOF = 7200"

record btc_sender_config =
  max_aggregated_blocks_to_commit :: i32
  max_aggregated_proofs_to_commit :: i32
  max_txs_in_flight :: i64
  cfg_da_identifier :: bytes
  block_confirmations :: u32

definition btc_sender_config_for_tests :: btc_sender_config where
  "btc_sender_config_for_tests =
     \<lparr>max_aggregated_blocks_to_commit = 1, max_aggregated_proofs_to_commit = 1,
      max_txs_in_flight = 1, cfg_da_identifier = ascii ''da_identifier_celestia'',
      block_confirmations = 0\<rparr>"

datatype aggregated_operation =
    OpCommitL1Batch "btc_l1_block_details list"
  | OpCommitProof "btc_l1_block_details list"

fun get_l1_batches_detail :: "aggregated_operation \<Rightarrow> btc_l1_block_details list" where
  "get_l1_batches_detail (OpCommitL1Batch bs) = bs"
| "get_l1_batches_detail (OpCommitProof bs) = bs"

fun get_inscription_request_type :: "aggregated_operation \<Rightarrow> request_type" where
  "get_inscription_request_type (OpCommitL1Batch bs) = CommitL1BatchOnchain"
| "get_inscription_request_type (OpCommitProof bs) = CommitProofOnchain"

section \<open>Publication criteria\<close>

type_synonym criterion = "btc_l1_block_details list \<Rightarrow> u32 option"

definition via_number_criterion :: "u32 \<Rightarrow> criterion" where
  "via_number_criterion limit batches =
     (case map bd_number batches of
        [] \<Rightarrow> None
      | first # rest \<Rightarrow>
          let last_batch_number = (if rest = [] then first else last rest);
              batch_count = last_batch_number - first + 1
          in if limit \<le> batch_count then Some (first + limit - 1) else None)"

fun timestamp_scan :: "u32 \<Rightarrow> u64 \<Rightarrow> btc_l1_block_details list \<Rightarrow> u32 option \<Rightarrow> u32 option" where
  "timestamp_scan deadline now [] acc = acc"
| "timestamp_scan deadline now (b # bs) acc =
     (if bd_timestamp b + ucast deadline \<le> now
      then timestamp_scan deadline now bs (Some (bd_number b))
      else acc)"

definition timestamp_deadline_criterion :: "u32 \<Rightarrow> u64 \<Rightarrow> criterion" where
  "timestamp_deadline_criterion deadline now batches = timestamp_scan deadline now batches None"

fun min_by_criteria ::
    "criterion list \<Rightarrow> btc_l1_block_details list \<Rightarrow> u32 option \<Rightarrow> u32 option" where
  "min_by_criteria [] bs acc = acc"
| "min_by_criteria (c # cs) bs acc =
     min_by_criteria cs bs (case c bs of
         Some n \<Rightarrow> Some (case acc of Some m \<Rightarrow> min m n | None \<Rightarrow> n)
       | None \<Rightarrow> acc)"

definition extract_ready_subrange ::
    "criterion list \<Rightarrow> btc_l1_block_details list \<Rightarrow> btc_l1_block_details list option" where
  "extract_ready_subrange criteria batches =
     map_option (\<lambda>last_l1_batch. takeWhile (\<lambda>b. bd_number b \<le> last_l1_batch) batches)
       (min_by_criteria criteria batches None)"

fun sequential :: "btc_l1_block_details list \<Rightarrow> bool" where
  "sequential [] = True"
| "sequential [b] = True"
| "sequential (b # b' # bs) = (bd_number b + 1 = bd_number b' \<and> sequential (b' # bs))"

definition validate_l1_batch_sequence :: "btc_l1_block_details list \<Rightarrow> ('e, unit) res" where
  "validate_l1_batch_sequence bs = (if sequential bs then Ok () else Panic)"

section \<open>The aggregator\<close>

record aggregator =
  commit_l1_block_criteria :: "u64 \<Rightarrow> criterion list"
  commit_proof_criteria :: "u64 \<Rightarrow> criterion list"
  ag_config :: btc_sender_config

definition aggregator_new :: "btc_sender_config \<Rightarrow> aggregator" where
  "aggregator_new config =
     \<lparr>commit_l1_block_criteria = (\<lambda>now.
        [via_number_criterion (max_aggregated_blocks_to_commit config),
         timestamp_deadline_criterion BLOCK_TIME_TO_COMMIT now]),
      commit_proof_criteria = (\<lambda>now.
        [via_number_criterion (max_aggregated_proofs_to_commit config),
         timestamp_deadline_criterion BLOCK_TIME_TO_PROOF now]),
      ag_config = config\<rparr>"

text \<open>\<^verbatim>\<open>config.max() as usize\<close> given to a query as \<^verbatim>\<open>limit as i64\<close>.\<close>

definition limit_of :: "i32 \<Rightarrow> i64" where
  "limit_of n = scast n"

definition get_commit_l1_batch_operation ::
    "sender_lib \<Rightarrow> aggregator \<Rightarrow> u64 \<Rightarrow> bytes \<Rightarrow> bytes \<Rightarrow> i32 \<Rightarrow> aggregated_operation option query" where
  "get_commit_l1_batch_operation T ag now bootloader default_aa protocol_version_id =
     io_bind (get_ready_for_commit_l1_batches T
         (limit_of (max_aggregated_blocks_to_commit (ag_config ag)))
         bootloader default_aa protocol_version_id) (\<lambda>batches.
     io_bind (io_lift (validate_l1_batch_sequence batches)) (\<lambda>_.
     io_return (map_option OpCommitL1Batch
       (extract_ready_subrange (commit_l1_block_criteria ag now) batches))))"

definition get_commit_proof_operation ::
    "sender_lib \<Rightarrow> aggregator \<Rightarrow> u64 \<Rightarrow> aggregated_operation option query" where
  "get_commit_proof_operation T ag now =
     io_bind (get_ready_for_commit_proof_l1_batches T
         (limit_of (max_aggregated_proofs_to_commit (ag_config ag)))) (\<lambda>batches.
     io_bind (io_lift (validate_l1_batch_sequence batches)) (\<lambda>_.
     io_return (map_option OpCommitProof
       (extract_ready_subrange (commit_proof_criteria ag now) batches))))"

definition get_next_ready_operation ::
    "sender_lib \<Rightarrow> aggregator \<Rightarrow> u64 \<Rightarrow> bytes \<Rightarrow> bytes \<Rightarrow> i32 \<Rightarrow> aggregated_operation option query" where
  "get_next_ready_operation T ag now bootloader default_aa protocol_version_id =
     io_bind (get_commit_proof_operation T ag now) (\<lambda>op.
       case op of
         Some op \<Rightarrow> io_return (Some op)
       | None \<Rightarrow> get_commit_l1_batch_operation T ag now bootloader default_aa protocol_version_id)"

datatype sender_error =
    DbError db_error
  | BatchHashNone
  | InscriberFailed inscriber_error
  | NodeError bitcoin_error
  | SerializeError

definition construct_inscription_message ::
    "btc_lib \<Rightarrow> aggregator \<Rightarrow> request_type \<Rightarrow> btc_l1_block_details \<Rightarrow>
       (sender_error, inscription_message) res" where
  "construct_inscription_message L ag ty batch =
     (case ty of
        CommitL1BatchOnchain \<Rightarrow>
          res_bind (res_of_option BatchHashNone (bd_hash batch)) (\<lambda>h.
          res_bind (h256_of_slice L h) (\<lambda>hash.
          Ok (L1BatchDAReference \<lparr>l1_batch_hash = hash, l1_batch_index = bd_number batch,
                da_identifier = cfg_da_identifier (ag_config ag), blob_id = bd_blob_id batch\<rparr>)))
      | CommitProofOnchain \<Rightarrow>
          Ok (ProofDAReference \<lparr>l1_batch_reveal_txid = bd_reveal_tx_id batch,
                proof_da_identifier = cfg_da_identifier (ag_config ag),
                proof_blob_id = bd_blob_id batch\<rparr>))"

section \<open>The inscription aggregator\<close>

text \<open>The state of the two services: the database, and the inscriber's queue with the node.\<close>

type_synonym ('w, 'a) sender_m = "(db \<times> inscriber_context \<times> 'w, sender_error, 'a) io"

definition on_inscriber :: "('w, 'a) ins_m \<Rightarrow> ('w, 'a) sender_m" where
  "on_inscriber m = io_zoom snd (\<lambda>x s. (fst s, x)) (io_map_err InscriberFailed m)"

definition on_node :: "('w, bitcoin_error, 'a) io \<Rightarrow> ('w, 'a) sender_m" where
  "on_node m = io_zoom (snd \<circ> snd) (\<lambda>w s. (fst s, fst (snd s), w)) (io_map_err NodeError m)"

text \<open>The hard-coded hashes of the base system contracts.\<close>

fun hex_digit :: "char \<Rightarrow> nat" where
  "hex_digit c = (let k = of_char c in if k \<le> (57 :: nat) then k - 48 else k - 87)"

fun hex_bytes :: "string \<Rightarrow> bytes" where
  "hex_bytes (a # b # cs) = of_nat (16 * hex_digit a + hex_digit b) # hex_bytes cs"
| "hex_bytes cs = []"

definition get_bootloader_code_hash :: bytes where
  "get_bootloader_code_hash =
     hex_bytes ''010008e742608b21bf7eb23c1a9d0602047e3618b464c9b59c0fba3b3d7ab66e''"

definition get_aa_code_hash :: bytes where
  "get_aa_code_hash =
     hex_bytes ''01000563374c277a2c1e34659a2a1e87371bb6d852ce142022d497bfb50b9e32''"

definition process_batch ::
    "btc_lib \<Rightarrow> sender_lib \<Rightarrow> 'w inscriber \<Rightarrow> aggregator \<Rightarrow> request_type \<Rightarrow>
       btc_l1_block_details \<Rightarrow> ('w, unit) sender_m" where
  "process_batch L T I ag ty batch =
     io_bind (io_lift (construct_inscription_message L ag ty batch)) (\<lambda>msg.
     io_bind (on_inscriber (prepare_inscribe L I msg inscription_config_default None)) (\<lambda>info.
     io_bind (io_lift (unwrap (amount_add L (reveal_fee (reveal_tx_output_info info))
         (commit_tx_fee (commit_tx_output_info info))))) (\<lambda>prediction_fee.
     io_bind (on_db DbError (via_save_btc_inscriptions_request ty (message_to_bytes T msg)
         prediction_fee)) (\<lambda>request.
     on_db DbError (insert_l1_batch_inscription_request_id (bd_number batch) (ir_id request) ty)))))"

definition aggregator_loop_iteration ::
    "btc_lib \<Rightarrow> sender_lib \<Rightarrow> 'w inscriber \<Rightarrow> aggregator \<Rightarrow> u64 \<Rightarrow> i32 \<Rightarrow> ('w, unit) sender_m" where
  "aggregator_loop_iteration L T I ag now protocol_version_id =
     io_bind (on_db DbError (get_next_ready_operation T ag now get_bootloader_code_hash
         get_aa_code_hash protocol_version_id)) (\<lambda>op.
       case op of
         Some operation \<Rightarrow>
           in_transaction DbError (io_for (get_l1_batches_detail operation)
             (process_batch L T I ag (get_inscription_request_type operation)))
       | None \<Rightarrow> io_return ())"

section \<open>The inscription manager\<close>

definition send_inscription_tx ::
    "btc_lib \<Rightarrow> sender_lib \<Rightarrow> 'w inscriber \<Rightarrow> btc_inscription_request \<Rightarrow> inscription_config \<Rightarrow>
       ('w, unit) sender_m" where
  "send_inscription_tx L T I tx config =
     io_bind (on_node (ops_fetch_block_height (ins_client I))) (\<lambda>height.
     let sent_at_block = ucast height in
     io_bind (io_lift (unwrap (message_from_bytes T
         (unwrap_or_default (ir_inscription_message tx))))) (\<lambda>input.
     io_bind (on_inscriber (inscribe L I input config)) (\<lambda>info.
     io_bind (io_lift (res_of_option SerializeError
         (tx_serialize T (ftx_tx (final_commit_tx info))))) (\<lambda>signed_commit_tx.
     io_bind (io_lift (res_of_option SerializeError
         (tx_serialize T (ftx_tx (final_reveal_tx info))))) (\<lambda>signed_reveal_tx.
     io_bind (io_lift (unwrap (amount_add L (reveal_fee (reveal_tx_output_info info))
         (commit_tx_fee (commit_tx_output_info info))))) (\<lambda>actual_fees.
     io_bind (on_db DbError (insert_inscription_request_history T
         (ftx_txid (final_commit_tx info)) (ftx_txid (final_reveal_tx info)) (ir_id tx)
         signed_commit_tx signed_reveal_tx actual_fees sent_at_block)) (\<lambda>_.
     io_return ())))))))"

definition resend_inscription ::
    "btc_lib \<Rightarrow> sender_lib \<Rightarrow> 'w inscriber \<Rightarrow> btc_inscription_request \<Rightarrow> ('w, unit) sender_m" where
  "resend_inscription L T I inscription =
     io_bind (on_db DbError (get_total_inscription_request_history (ir_id inscription))) (\<lambda>total.
     send_inscription_tx L T I inscription \<lparr>fee_multiplier = total + 1\<rparr>)"

definition confirm_or_resend ::
    "btc_lib \<Rightarrow> sender_lib \<Rightarrow> 'w inscriber \<Rightarrow> btc_sender_config \<Rightarrow> btc_inscription_request \<Rightarrow>
       btc_inscription_request_history \<Rightarrow> ('w, unit) sender_m" where
  "confirm_or_resend L T I config inscription h =
     io_bind (on_node (ops_check_tx_confirmation (ins_client I) (rh_reveal_tx_id h)
         (block_confirmations config))) (\<lambda>is_confirmed.
     if is_confirmed then on_db DbError (confirm_inscription (ir_id inscription) (rh_id h))
     else
       io_bind (on_node (ops_fetch_block_height (ins_client I))) (\<lambda>current_block.
       if sint (rh_sent_at_block h + ucast BLOCK_RESEND) > sint (ucast current_block :: i64)
       then io_return ()
       else resend_inscription L T I inscription))"

definition update_one ::
    "btc_lib \<Rightarrow> sender_lib \<Rightarrow> 'w inscriber \<Rightarrow> btc_sender_config \<Rightarrow> btc_inscription_request \<Rightarrow>
       ('w, unit) sender_m" where
  "update_one L T I config inscription =
     io_bind (on_db DbError (get_last_inscription_request_history T (ir_id inscription)))
       (\<lambda>last_history.
       case last_history of
         None \<Rightarrow> io_return ()
       | Some h \<Rightarrow> confirm_or_resend L T I config inscription h)"

definition update_inscription_status_or_resend ::
    "btc_lib \<Rightarrow> sender_lib \<Rightarrow> 'w inscriber \<Rightarrow> btc_sender_config \<Rightarrow> ('w, unit) sender_m" where
  "update_inscription_status_or_resend L T I config =
     io_bind (on_db DbError get_inflight_inscriptions) (\<lambda>inflight.
       io_for inflight (update_one L T I config))"

text \<open>\<^verbatim>\<open>i64::saturating_sub\<close>.\<close>

definition saturating_sub_i64 :: "i64 \<Rightarrow> i64 \<Rightarrow> i64" where
  "saturating_sub_i64 a b =
     word_of_int (max (- (2 ^ 63)) (min (2 ^ 63 - 1) (sint a - sint b)))"

definition send_new_inscription_txs ::
    "btc_lib \<Rightarrow> sender_lib \<Rightarrow> 'w inscriber \<Rightarrow> btc_sender_config \<Rightarrow> ('w, unit) sender_m" where
  "send_new_inscription_txs L T I config =
     io_bind (on_db DbError get_inflight_inscriptions) (\<lambda>inflight.
     let slots = saturating_sub_i64 (max_txs_in_flight config) (of_nat (length inflight)) in
     if sint slots > 0 then
       io_bind (on_db DbError (list_new_inscription_request slots)) (\<lambda>new_requests.
         io_for new_requests (\<lambda>r. send_inscription_tx L T I r inscription_config_default))
     else io_return ())"

definition manager_loop_iteration ::
    "btc_lib \<Rightarrow> sender_lib \<Rightarrow> 'w inscriber \<Rightarrow> btc_sender_config \<Rightarrow> ('w, unit) sender_m" where
  "manager_loop_iteration L T I config =
     io_bind (update_inscription_status_or_resend L T I config) (\<lambda>_.
       send_new_inscription_txs L T I config)"

section \<open>What the aggregator reads\<close>

lemma ucast_u32_i64 [simp]: "ucast (ucast (n :: u32) :: i64) = n"
  by (rule bit_word_eqI) (simp add: bit_ucast_iff)

lemma block_details_number [simp]:
  "sd_number row = ucast n \<Longrightarrow> bd_number (block_details_from T row) = n"
  by (simp add: block_details_from_def)

lemma ready_for_commit_Ok:
  "get_ready_for_commit_l1_batches T limit bl aa pv d = (Ok bs, d') \<Longrightarrow>
     0 \<le> sint limit
   \<and> bs = map (block_details_from T) (take (nat (sint limit)) (ready_for_commit_rows bl aa pv (db_tables d)))
   \<and> db_tables d' = db_tables d"
  by (auto simp: get_ready_for_commit_l1_batches_def io_ok sql_limit_Ok dest!: select_rows_Ok)

lemma ready_for_proof_Ok:
  "get_ready_for_commit_proof_l1_batches T limit d = (Ok bs, d') \<Longrightarrow>
     0 \<le> sint limit
   \<and> bs = map (block_details_from T) (take (nat (sint limit)) (ready_for_proof_rows (db_tables d)))
   \<and> db_tables d' = db_tables d"
  by (auto simp: get_ready_for_commit_proof_l1_batches_def io_ok sql_limit_Ok dest!: select_rows_Ok)

lemma validate_Ok [simp]: "validate_l1_batch_sequence bs = Ok u \<longleftrightarrow> sequential bs"
  by (simp add: validate_l1_batch_sequence_def)

lemma proof_operation_Ok:
  "get_commit_proof_operation T ag now d = (Ok op, d') \<Longrightarrow>
     \<exists>bs d1. get_ready_for_commit_proof_l1_batches T
         (limit_of (max_aggregated_proofs_to_commit (ag_config ag))) d = (Ok bs, d1)
       \<and> sequential bs \<and> d' = d1
       \<and> map_option OpCommitProof (extract_ready_subrange (commit_proof_criteria ag now) bs) = op"
  by (auto simp: get_commit_proof_operation_def io_ok)

lemma commit_operation_Ok:
  "get_commit_l1_batch_operation T ag now bl aa pv d = (Ok op, d') \<Longrightarrow>
     \<exists>bs d1. get_ready_for_commit_l1_batches T
         (limit_of (max_aggregated_blocks_to_commit (ag_config ag))) bl aa pv d = (Ok bs, d1)
       \<and> sequential bs \<and> d' = d1
       \<and> map_option OpCommitL1Batch (extract_ready_subrange (commit_l1_block_criteria ag now) bs) = op"
  by (auto simp: get_commit_l1_batch_operation_def io_ok)

section \<open>Criteria\<close>

text \<open>Consecutive batch numbers that do not wrap around.\<close>

definition consecutive :: "btc_l1_block_details list \<Rightarrow> bool" where
  "consecutive bs \<longleftrightarrow>
     (\<forall>i < length bs. unat (bd_number (bs ! i)) = unat (bd_number (bs ! 0)) + i)"

lemma consecutive_number:
  "consecutive bs \<Longrightarrow> i < length bs \<Longrightarrow> unat (bd_number (bs ! i)) = unat (bd_number (bs ! 0)) + i"
  by (simp add: consecutive_def)

lemma consecutive_length: "consecutive bs \<Longrightarrow> length bs \<le> 2 ^ 32"
proof (cases bs)
  case (Cons b bs')
  assume "consecutive bs"
  then have "unat (bd_number (bs ! (length bs - 1))) = unat (bd_number (bs ! 0)) + (length bs - 1)"
    using Cons by (simp add: consecutive_number)
  moreover have "unat (bd_number (bs ! (length bs - 1))) < 2 ^ 32"
    using unsigned_less [of "bd_number (bs ! (length bs - 1))", where 'a = nat] by simp
  ultimately show ?thesis by simp
qed simp

lemma sequential_consecutive:
  assumes "sequential bs" "bs \<noteq> [] \<longrightarrow> unat (bd_number (hd bs)) + length bs \<le> 2 ^ 32"
  shows "consecutive bs"
  unfolding consecutive_def
proof (intro allI impI)
  fix i
  assume "i < length bs"
  with assms show "unat (bd_number (bs ! i)) = unat (bd_number (bs ! 0)) + i"
  proof (induction bs arbitrary: i rule: sequential.induct)
    case (3 b b' bs)
    have step: "unat (bd_number b') = Suc (unat (bd_number b))"
    proof -
      have "bd_number b' = bd_number b + 1" using 3(2) by simp
      moreover have "Suc (unat (bd_number b)) < 2 ^ 32" using 3(3) by simp
      ultimately show ?thesis by (simp add: unat_word_ariths(1))
    qed
    show ?case
    proof (cases i)
      case (Suc j)
      have "unat (bd_number ((b' # bs) ! j)) = unat (bd_number ((b' # bs) ! 0)) + j"
        using 3(2-4) Suc step by (intro 3(1)) simp_all
      then show ?thesis using Suc step by simp
    qed simp
  qed simp_all
qed

text \<open>The contract of a criterion: on consecutive batches it names one of them.\<close>

locale commit_criterion =
  fixes publish :: criterion
  assumes publish_member: "consecutive bs \<Longrightarrow> publish bs = Some n \<Longrightarrow> n \<in> bd_number ` set bs"
begin

lemma publish_nonempty: "consecutive bs \<Longrightarrow> publish bs = Some n \<Longrightarrow> bs \<noteq> []"
  using publish_member by fastforce

lemma publish_ge_first:
  assumes "consecutive bs" "publish bs = Some n"
  shows "bd_number (hd bs) \<le> n"
proof -
  obtain i where i: "i < length bs" "n = bd_number (bs ! i)"
    using publish_member [OF assms] by (auto simp: in_set_conv_nth)
  then have "unat n = unat (bd_number (bs ! 0)) + i"
    using consecutive_number [OF assms(1)] by simp
  then show ?thesis using i(1) by (cases bs) (simp_all add: word_le_nat_alt)
qed

end

lemma timestamp_scan_spec:
  "timestamp_scan d now bs acc =
     (case takeWhile (\<lambda>b. bd_timestamp b + ucast d \<le> now) bs of
        [] \<Rightarrow> acc
      | b # xs \<Rightarrow> Some (bd_number (last (b # xs))))"
  by (induction bs arbitrary: acc) (auto split: list.splits)

interpretation deadline: commit_criterion "timestamp_deadline_criterion d now" for d now
proof
  fix bs n
  assume "consecutive bs" "timestamp_deadline_criterion d now bs = Some n"
  then obtain b xs where xs: "takeWhile (\<lambda>b. bd_timestamp b + ucast d \<le> now) bs = b # xs"
    and n: "n = bd_number (last (b # xs))"
    by (auto simp: timestamp_deadline_criterion_def timestamp_scan_spec split: list.splits)
  have "last (b # xs) \<in> set (takeWhile (\<lambda>b. bd_timestamp b + ucast d \<le> now) bs)"
    unfolding xs by (rule last_in_set) simp
  then show "n \<in> bd_number ` set bs" using n set_takeWhileD by fast
qed

lemma number_criterion_count:
  assumes "consecutive bs" "bs \<noteq> []" "length bs < 2 ^ 32"
  shows "via_number_criterion limit bs =
    (if unat limit \<le> length bs then Some (bd_number (hd bs) + limit - 1) else None)"
proof -
  have "last bs = bs ! (length bs - 1)" using assms(2) by (rule last_conv_nth)
  then have l: "unat (bd_number (last bs)) = unat (bd_number (hd bs)) + (length bs - 1)"
    using consecutive_number [OF assms(1), of "length bs - 1"] assms(2)
    by (simp add: hd_conv_nth)
  have "bd_number (last bs) = of_nat (unat (bd_number (hd bs)) + (length bs - 1))"
    unfolding l [symmetric] by simp
  then have diff: "bd_number (last bs) - bd_number (hd bs) + 1 = of_nat (length bs)"
    using assms(2) by (simp add: of_nat_diff algebra_simps Suc_leI)
  have "(limit \<le> of_nat (length bs)) = (unat limit \<le> length bs)"
    using assms(3) by (simp add: word_le_nat_alt unat_of_nat)
  moreover have "via_number_criterion limit bs =
      (if limit \<le> bd_number (last bs) - bd_number (hd bs) + 1
       then Some (bd_number (hd bs) + limit - 1) else None)"
    using assms(2) by (cases bs) (auto simp: via_number_criterion_def last_map)
  ultimately show ?thesis by (simp add: diff)
qed

text \<open>A number criterion keeps the contract when its limit is positive.\<close>

locale positive_limit =
  fixes limit :: u32
  assumes limit_pos: "0 < limit"
begin

lemma number_publish:
  assumes "consecutive bs" "via_number_criterion limit bs = Some n"
  shows "unat limit \<le> length bs" and "n = bd_number (bs ! (unat limit - 1))"
proof -
  have ne: "bs \<noteq> []" using assms(2) by (auto simp: via_number_criterion_def)
  have pos: "0 < unat limit" using limit_pos by (simp add: word_less_nat_alt)
  have small: "unat limit < 2 ^ 32" using unsigned_less [of limit, where 'a = nat] by simp
  consider "length bs < 2 ^ 32" | "length bs = 2 ^ 32"
    using consecutive_length [OF assms(1)] by fastforce
  then show le: "unat limit \<le> length bs"
    using number_criterion_count [OF assms(1) ne] assms(2) small by cases (auto split: if_splits)
  have n: "n = bd_number (hd bs) + limit - 1"
    using assms(2) ne by (cases bs) (auto simp: via_number_criterion_def Let_def split: if_splits)
  have u: "unat (bd_number (bs ! (unat limit - 1))) = unat (bd_number (hd bs)) + (unat limit - 1)"
    using consecutive_number [OF assms(1), of "unat limit - 1"] pos le ne
    by (simp add: hd_conv_nth)
  have "bd_number (bs ! (unat limit - 1))
      = of_nat (unat (bd_number (hd bs)) + (unat limit - 1))"
    unfolding u [symmetric] by simp
  then show "n = bd_number (bs ! (unat limit - 1))"
    using pos by (simp add: n of_nat_diff Suc_leI algebra_simps)
qed

end

sublocale positive_limit \<subseteq> number: commit_criterion "via_number_criterion limit"
proof
  fix bs n
  assume "consecutive bs" "via_number_criterion limit bs = Some n"
  from number_publish [OF this] limit_pos show "n \<in> bd_number ` set bs"
    by (auto simp: word_less_nat_alt)
qed

text \<open>The limit the configuration asks for (``should be one'').\<close>

interpretation configured: positive_limit "max_aggregated_blocks_to_commit btc_sender_config_for_tests"
  by unfold_locales (simp add: btc_sender_config_for_tests_def)

lemma takeWhile_le_number:
  assumes "consecutive bs" "i < length bs"
  shows "takeWhile (\<lambda>b. bd_number b \<le> bd_number (bs ! i)) bs = take (Suc i) bs"
proof (rule takeWhile_eq_take_P_nth)
  fix j
  assume "j < Suc i" "j < length bs"
  then show "bd_number (bs ! j) \<le> bd_number (bs ! i)"
    using consecutive_number [OF assms(1)] assms(2) by (simp add: word_le_nat_alt)
next
  assume "Suc i < length bs"
  then show "\<not> bd_number (bs ! Suc i) \<le> bd_number (bs ! i)"
    using consecutive_number [OF assms(1)] by (simp add: word_le_nat_alt)
qed

text \<open>How many batches a pair of criteria takes: the number limit, and the leading batches that have
  reached their deadline.\<close>

definition overdue :: "u32 \<Rightarrow> u64 \<Rightarrow> btc_l1_block_details list \<Rightarrow> nat" where
  "overdue d now bs = length (takeWhile (\<lambda>b. bd_timestamp b + ucast d \<le> now) bs)"

definition ready_count :: "u32 \<Rightarrow> u32 \<Rightarrow> u64 \<Rightarrow> btc_l1_block_details list \<Rightarrow> nat" where
  "ready_count limit d now bs =
     (let by_deadline = overdue d now bs in
      if length bs < unat limit then by_deadline
      else if by_deadline = 0 then unat limit
      else min (unat limit) by_deadline)"

lemma overdue_le: "overdue d now bs \<le> length bs"
  by (simp add: overdue_def length_takeWhile_le)

lemma deadline_publish:
  "timestamp_deadline_criterion d now bs =
     (if overdue d now bs = 0 then None else Some (bd_number (bs ! (overdue d now bs - 1))))"
proof -
  let ?w = "takeWhile (\<lambda>b. bd_timestamp b + ucast d \<le> now) bs"
  have "last ?w = bs ! (length ?w - 1)" if "?w \<noteq> []"
    using that by (simp add: last_conv_nth takeWhile_nth)
  then show ?thesis
    by (cases ?w) (auto simp: timestamp_deadline_criterion_def timestamp_scan_spec overdue_def)
qed

lemma extract_ready_count:
  assumes "consecutive bs" "length bs < 2 ^ 32" "0 < limit"
  shows "extract_ready_subrange
      [via_number_criterion limit, timestamp_deadline_criterion d now] bs =
    (if ready_count limit d now bs = 0 then None else Some (take (ready_count limit d now bs) bs))"
proof -
  define k where "k = overdue d now bs"
  have k: "k \<le> length bs" by (simp add: k_def overdue_le)
  have pos: "0 < unat limit" using assms(3) by (simp add: word_less_nat_alt)
  have num: "via_number_criterion limit bs =
      (if unat limit \<le> length bs then Some (bd_number (bs ! (unat limit - 1))) else None)"
  proof (cases "bs = []")
    case False
    show ?thesis
      using number_criterion_count [OF assms(1) False assms(2), of limit]
        positive_limit.number_publish(2) [OF positive_limit.intro [OF assms(3)] assms(1)]
      by auto
  qed (use pos in \<open>simp add: via_number_criterion_def\<close>)
  have tw: "takeWhile (\<lambda>b. bd_number b \<le> bd_number (bs ! (j - 1))) bs = take j bs"
    if "0 < j" "j \<le> length bs" for j
    using takeWhile_le_number [OF assms(1), of "j - 1"] that by simp
  have le: "min (bd_number (bs ! (i - 1))) (bd_number (bs ! (j - 1))) = bd_number (bs ! (min i j - 1))"
    if "0 < i" "i \<le> length bs" "0 < j" "j \<le> length bs" for i j
    using consecutive_number [OF assms(1), of "i - 1"] consecutive_number [OF assms(1), of "j - 1"] that
    by (auto simp: min_def word_le_nat_alt)
  show ?thesis
    using k pos tw le
    by (auto simp: extract_ready_subrange_def num deadline_publish k_def [symmetric]
        ready_count_def Let_def)
qed

end
