(* ===== verification/Sender_Lifecycle.thy ===== *)
theory Sender_Lifecycle
  imports Btc_Sender
begin

text \<open>
  The contract of the Bitcoin sender: the life of a batch.  An abstract machine of seven stages,
  from a batch nobody inscribed to a batch whose proof inscription is confirmed, and the lemmas that
  every query and every iteration of the two services moves each batch along it.
\<close>

section \<open>The abstract machine\<close>

datatype stage =
    Uninscribed
  | CommitRequested
  | CommitInscribed
  | CommitConfirmed
  | ProofRequested
  | ProofInscribed
  | ProofConfirmed

fun stage_index :: "stage \<Rightarrow> nat" where
  "stage_index Uninscribed = 0"
| "stage_index CommitRequested = 1"
| "stage_index CommitInscribed = 2"
| "stage_index CommitConfirmed = 3"
| "stage_index ProofRequested = 4"
| "stage_index ProofInscribed = 5"
| "stage_index ProofConfirmed = 6"

lemma stage_index_inj: "stage_index a = stage_index b \<longleftrightarrow> a = b"
  by (cases a; cases b) simp_all

instantiation stage :: linorder
begin

definition less_eq_stage :: "stage \<Rightarrow> stage \<Rightarrow> bool" where
  "less_eq_stage a b \<longleftrightarrow> stage_index a \<le> stage_index b"

definition less_stage :: "stage \<Rightarrow> stage \<Rightarrow> bool" where
  "less_stage a b \<longleftrightarrow> stage_index a < stage_index b"

instance
  by standard (auto simp: less_eq_stage_def less_stage_def stage_index_inj)

end

text \<open>One move of the machine.\<close>

inductive stage_step :: "stage \<Rightarrow> stage \<Rightarrow> bool" where
  request_commit: "stage_step Uninscribed CommitRequested"
| inscribe_commit: "stage_step CommitRequested CommitInscribed"
| confirm_commit: "stage_step CommitInscribed CommitConfirmed"
| request_proof: "stage_step CommitConfirmed ProofRequested"
| inscribe_proof: "stage_step ProofRequested ProofInscribed"
| confirm_proof: "stage_step ProofInscribed ProofConfirmed"

inductive_simps stage_step_simps: "stage_step a b"

lemma stage_step_index: "stage_step a b \<longleftrightarrow> stage_index b = Suc (stage_index a)"
  by (cases a; cases b) (simp_all add: stage_step_simps)

lemma stage_step_less: "stage_step a b \<Longrightarrow> a < b"
  by (simp add: stage_step_index less_stage_def)

section \<open>The stage of a batch in the tables\<close>

datatype request_state = Requested | Inscribed | Confirmed

definition request_confirmed :: "tables \<Rightarrow> i64 \<Rightarrow> bool" where
  "request_confirmed t rid =
     list_ex (\<lambda>r. rq_id r = rid \<and> rq_confirmed_history_id r \<noteq> None) (inscriptions_request t)"

definition request_state :: "tables \<Rightarrow> i64 \<Rightarrow> request_state" where
  "request_state t rid =
     (if request_confirmed t rid then Confirmed
      else if histories_of t rid = [] then Requested
      else Inscribed)"

fun commit_stage :: "request_state \<Rightarrow> stage" where
  "commit_stage Requested = CommitRequested"
| "commit_stage Inscribed = CommitInscribed"
| "commit_stage Confirmed = CommitConfirmed"

fun proof_stage :: "request_state \<Rightarrow> stage" where
  "proof_stage Requested = ProofRequested"
| "proof_stage Inscribed = ProofInscribed"
| "proof_stage Confirmed = ProofConfirmed"

definition batch_link :: "tables \<Rightarrow> u32 \<Rightarrow> batch_inscription_row option" where
  "batch_link t n = List.find (\<lambda>b. bi_l1_batch_number b = n) (batch_inscription t)"

definition link_stage :: "(i64 \<Rightarrow> request_state) \<Rightarrow> batch_inscription_row option \<Rightarrow> stage" where
  "link_stage st l = (case l of
       None \<Rightarrow> Uninscribed
     | Some b \<Rightarrow> (case bi_proof_id b of
         None \<Rightarrow> commit_stage (st (bi_commit_id b))
       | Some p \<Rightarrow> proof_stage (st p)))"

definition batch_stage :: "tables \<Rightarrow> u32 \<Rightarrow> stage" where
  "batch_stage t n = link_stage (request_state t) (batch_link t n)"

text \<open>What the services keep beyond the constraints of the tables: a proof is requested only for a
  batch whose commitment is confirmed, and a request is confirmed by one of its own histories, which
  carries its confirmation time.\<close>

definition proofs_follow_commits :: "tables \<Rightarrow> bool" where
  "proofs_follow_commits t \<longleftrightarrow>
     (\<forall>b \<in> set (batch_inscription t). bi_proof_id b \<noteq> None \<longrightarrow> request_confirmed t (bi_commit_id b))"

definition confirmed_by_own_history :: "tables \<Rightarrow> bool" where
  "confirmed_by_own_history t \<longleftrightarrow>
     (\<forall>r \<in> set (inscriptions_request t). \<forall>hid. rq_confirmed_history_id r = Some hid \<longrightarrow>
        (\<exists>h \<in> set (request_history t). hs_id h = hid
           \<and> hs_inscription_request_id h = rq_id r \<and> hs_confirmed_at h \<noteq> None))"

definition lifecycle_inv :: "tables \<Rightarrow> bool" where
  "lifecycle_inv t \<longleftrightarrow> sender_inv t \<and> proofs_follow_commits t \<and> confirmed_by_own_history t"

text \<open>The identifiers that the queries cast to 32 bits keep their value.\<close>

definition ids_fit :: "tables \<Rightarrow> bool" where
  "ids_fit t \<longleftrightarrow> (\<forall>i \<in> set (request_ids t). as_i32 i = i)"

section \<open>Requests\<close>

text \<open>How the services move the requests: at most one move each, and the links untouched.\<close>

definition requests_move :: "(request_state \<times> request_state) set \<Rightarrow> tables \<Rightarrow> tables \<Rightarrow> bool" where
  "requests_move R t t' \<longleftrightarrow>
     batch_inscription t' = batch_inscription t
   \<and> (\<forall>rid. (request_state t rid, request_state t' rid) \<in> R\<^sup>=)"

lemma requests_move_refl [simp]: "requests_move R t t"
  by (simp add: requests_move_def)

lemma requests_move_trans:
  "requests_move {(a, b)} t t' \<Longrightarrow> requests_move {(a, b)} t' t'' \<Longrightarrow> a \<noteq> b \<Longrightarrow>
     requests_move {(a, b)} t t''"
  unfolding requests_move_def by (metis (no_types, lifting) Pair_inject Un_iff pair_in_Id_conv singletonD)

lemma link_stage_move:
  assumes "\<And>rid. st' rid = st rid
      \<or> (st rid, st' rid) \<in> {(Requested, Inscribed), (Inscribed, Confirmed)}"
  shows "link_stage st' l = link_stage st l \<or> stage_step (link_stage st l) (link_stage st' l)"
proof (cases l)
  case (Some b)
  show ?thesis
  proof (cases "bi_proof_id b")
    case None
    then show ?thesis using Some assms [of "bi_commit_id b"]
      by (auto simp: link_stage_def stage_step_simps)
  next
    case (Some p)
    then show ?thesis using \<open>l = Some b\<close> assms [of p]
      by (auto simp: link_stage_def stage_step_simps)
  qed
qed (simp add: link_stage_def)

lemma requests_move_stages:
  assumes "requests_move {(Requested, Inscribed), (Inscribed, Confirmed)} t t'"
  shows "batch_stage t' n = batch_stage t n \<or> stage_step (batch_stage t n) (batch_stage t' n)"
proof -
  have "batch_link t' n = batch_link t n"
    using assms by (simp add: requests_move_def batch_link_def)
  moreover have "request_state t' rid = request_state t rid
      \<or> (request_state t rid, request_state t' rid)
          \<in> {(Requested, Inscribed), (Inscribed, Confirmed)}" for rid
    using assms unfolding requests_move_def by (metis UnE pair_in_Id_conv)
  ultimately show ?thesis unfolding batch_stage_def by (metis link_stage_move)
qed

subsection \<open>The effect of the queries\<close>

lemma insert_history_effect:
  "io_spec db_tables (\<lambda>t. t = t0)
     (insert_inscription_request_history T c r rid sc sr fees block)
     (\<lambda>_ t. \<exists>h. t = add_history h t0 \<and> hs_inscription_request_id h = rid)
     (\<lambda>t. t = t0)"
  unfolding insert_inscription_request_history_def
  by (rule io_spec_insert_row) (auto intro: exI)

lemma confirm_effect:
  "io_spec db_tables (\<lambda>t. t = t0) (confirm_inscription rid hid)
     (\<lambda>_ t. \<exists>now. t = mark_request rid hid (mark_history hid now t0)) (\<lambda>t. t = t0)"
  unfolding confirm_inscription_def
proof (rule io_spec_transaction)
  fix t1
  assume t1: "t1 = t0"
  have "io_spec db_tables (\<lambda>t. t = t0) (set_history_confirmed hid)
      (\<lambda>_ t. \<exists>now. t = mark_history hid now t0) (\<lambda>_. True)"
    unfolding set_history_confirmed_def
    by (rule io_spec_round_trip) (auto simp: io_spec_def update_tables_def)
  then show "io_spec db_tables (\<lambda>t. t = t1)
     (io_bind (set_history_confirmed hid) (\<lambda>_. set_request_confirmed rid hid))
     (\<lambda>_ t. \<exists>now. t = mark_request rid hid (mark_history hid now t0)) (\<lambda>_. True)"
    unfolding t1 set_request_confirmed_def by (rule io_spec_bind) (rule io_spec_guarded_update, auto)
qed simp

lemma save_request_effect:
  "io_spec db_tables (\<lambda>t. t = t0) (via_save_btc_inscriptions_request ty msg fee)
     (\<lambda>a t. \<exists>r. t = add_request r t0 \<and> rq_id r \<notin> set (request_ids t0)
        \<and> rq_confirmed_history_id r = None \<and> ir_id a = rq_id r)
     (\<lambda>t. t = t0)"
  unfolding via_save_btc_inscriptions_request_def
  by (rule io_spec_insert_row) (auto simp: inscription_request_from_def list_ex_ids intro: exI)

lemma insert_commit_request_id_effect:
  "io_spec db_tables (\<lambda>t. t = t0) (insert_commit_request_id n rid)
     (\<lambda>_ t. batch_link t0 n = None
        \<and> t = add_link \<lparr>bi_l1_batch_number = n, bi_commit_id = as_i32 rid, bi_proof_id = None\<rparr> t0)
     (\<lambda>t. t = t0)"
  unfolding insert_commit_request_id_def
  by (rule io_spec_guarded_update) (auto simp: batch_link_def find_None_iff list_ex_iff)

lemma set_proof_request_id_effect:
  "io_spec db_tables (\<lambda>t. t = t0) (set_proof_request_id n rid)
     (\<lambda>_ t. list_ex (awaits_proof_id n) (batch_inscription t0) \<and> t = link_proof n (as_i32 rid) t0)
     (\<lambda>t. t = t0)"
  unfolding set_proof_request_id_def
  by (rule io_spec_guarded_update) auto

subsection \<open>Moves\<close>

lemma request_confirmed_writes [simp]:
  "request_confirmed (add_history h t) = request_confirmed t"
  "request_confirmed (mark_history hid now t) = request_confirmed t"
  "request_confirmed (add_link b t) = request_confirmed t"
  "request_confirmed (link_proof n p t) = request_confirmed t"
  "rq_confirmed_history_id r = None \<Longrightarrow> request_confirmed (add_request r t) = request_confirmed t"
  by (simp_all add: fun_eq_iff request_confirmed_def write_defs)

lemma request_confirmed_mark [simp]:
  "request_confirmed (mark_request rid hid t) i \<longleftrightarrow>
     request_confirmed t i \<or> (i = rid \<and> rid \<in> set (request_ids t))"
  unfolding request_confirmed_def mark_request_def request_ids_def
  by (simp add: list_ex_update_where) (auto simp: list_ex_iff split: if_splits)

lemma histories_of_writes [simp]:
  "histories_of (add_history h t) i =
     histories_of t i @ (if hs_inscription_request_id h = i then [h] else [])"
  "histories_of (mark_history hid now t) i = [] \<longleftrightarrow> histories_of t i = []"
  "histories_of (mark_request rid hid t) = histories_of t"
  "histories_of (add_request r t) = histories_of t"
  "histories_of (add_link b t) = histories_of t"
  "histories_of (link_proof n p t) = histories_of t"
  by (auto simp: fun_eq_iff histories_of_def write_defs filter_update_where)

lemma links_writes [simp]:
  "batch_inscription (add_history h t) = batch_inscription t"
  "batch_inscription (mark_history hid now t) = batch_inscription t"
  "batch_inscription (mark_request rid hid t) = batch_inscription t"
  "batch_inscription (add_request r t) = batch_inscription t"
  by (simp_all add: write_defs)

lemma request_state_writes [simp]:
  "request_state (add_link b t) = request_state t"
  "request_state (link_proof n p t) = request_state t"
  "rq_confirmed_history_id r = None \<Longrightarrow> request_state (add_request r t) = request_state t"
  by (simp_all add: fun_eq_iff request_state_def)

lemma add_history_moves: "requests_move {(Requested, Inscribed)} t (add_history h t)"
  by (auto simp: requests_move_def request_state_def)

lemma add_history_again:
  "histories_of t (hs_inscription_request_id h) \<noteq> [] \<Longrightarrow> requests_move {} t (add_history h t)"
  by (auto simp: requests_move_def request_state_def)

lemma mark_moves:
  "histories_of t rid \<noteq> [] \<Longrightarrow>
     requests_move {(Inscribed, Confirmed)} t (mark_request rid hid (mark_history hid now t))"
  by (auto simp: requests_move_def request_state_def)

definition services_inv :: "tables \<Rightarrow> bool" where
  "services_inv t \<longleftrightarrow> proofs_follow_commits t \<and> confirmed_by_own_history t"

lemma services_inv_add_history: "services_inv t \<Longrightarrow> services_inv (add_history h t)"
  by (auto simp: services_inv_def proofs_follow_commits_def confirmed_by_own_history_def add_history_def
      request_confirmed_def)

lemma services_inv_mark:
  assumes "services_inv t" "row \<in> set (histories_of t rid)" "hs_id row = hid"
  shows "services_inv (mark_request rid hid (mark_history hid now t))"
proof -
  have "\<exists>h \<in> set (request_history (mark_history hid now t)). hs_id h = hs_id g
      \<and> hs_inscription_request_id h = hs_inscription_request_id g
      \<and> (hs_id g = hid \<or> hs_confirmed_at g \<noteq> None \<longrightarrow> hs_confirmed_at h \<noteq> None)"
    if "g \<in> set (request_history t)" for g
    using that
    by (intro bexI [of _ "if hs_id g = hid then g\<lparr>hs_confirmed_at := Some now\<rparr> else g"])
      (auto simp: mark_history_def update_where_def)
  note kept = this
  have "confirmed_by_own_history (mark_request rid hid (mark_history hid now t))"
    unfolding confirmed_by_own_history_def
  proof (intro ballI allI impI)
    fix r i
    let ?t = "mark_request rid hid (mark_history hid now t)"
    assume r: "r \<in> set (inscriptions_request ?t)" "rq_confirmed_history_id r = Some i"
    have hist: "request_history ?t = request_history (mark_history hid now t)"
      by (simp add: mark_request_def)
    from r(1) obtain q where q: "q \<in> set (inscriptions_request t)" "rq_id r = rq_id q"
      "r = (if rq_id q = rid then q\<lparr>rq_confirmed_history_id := Some hid\<rparr> else q)"
      by (auto simp: mark_request_def mark_history_def update_where_def split: if_splits)
    obtain g where "g \<in> set (request_history t)" "hs_id g = i"
      "hs_inscription_request_id g = rq_id r" "hs_id g = hid \<or> hs_confirmed_at g \<noteq> None"
    proof (cases "rq_id q = rid")
      case True
      then show ?thesis using that [of row] assms(2,3) q r(2) by (auto simp: histories_of_def)
    next
      case False
      then show ?thesis
        using that assms(1) q r(2) unfolding services_inv_def confirmed_by_own_history_def by metis
    qed
    with kept [of g] show "\<exists>h \<in> set (request_history ?t). hs_id h = i
        \<and> hs_inscription_request_id h = rq_id r \<and> hs_confirmed_at h \<noteq> None"
      unfolding hist by metis
  qed
  then show ?thesis
    using assms(1) by (auto simp: services_inv_def proofs_follow_commits_def)
qed

section \<open>The inscription manager\<close>

lemma on_node_silent [simp]: "service_tables (snd (on_node m s)) = service_tables s"
  by (simp add: on_node_def io_zoom_def split: prod.splits)

lemma on_inscriber_silent [simp]: "service_tables (snd (on_inscriber m s)) = service_tables s"
  by (simp add: on_inscriber_def io_zoom_def split: prod.splits)

lemma send_inscription_tx_effect:
  "io_spec service_tables (\<lambda>t. t = t0) (send_inscription_tx L T I tx config)
     (\<lambda>_ t. \<exists>h. t = add_history h t0 \<and> hs_inscription_request_id h = ir_id tx) (\<lambda>t. t = t0)"
  unfolding send_inscription_tx_def Let_def
  by (rule io_spec_bind io_spec_silent io_spec_lift io_spec_on_db [OF insert_history_effect]
      io_spec_return | simp | assumption)+

text \<open>The invariant of a phase of the manager that makes the moves \<open>R\<close> on the requests.\<close>

definition phase_inv :: "(request_state \<times> request_state) set \<Rightarrow> tables \<Rightarrow> tables \<Rightarrow> bool" where
  "phase_inv R t0 t \<longleftrightarrow> services_inv t \<and> requests_move R t0 t"

lemma get_last_history_spec:
  "io_spec db_tables P (get_last_inscription_request_history T rid)
     (\<lambda>a t. P t \<and> (\<forall>h. a = Some h \<longrightarrow> (\<exists>row \<in> set (histories_of t rid). hs_id row = rh_id h))) P"
  unfolding get_last_inscription_request_history_def
proof (rule io_spec_bind)
  show "io_spec db_tables P (select_rows (\<lambda>t. sort_key (\<lambda>h. - sint (hs_id h)) (histories_of t rid)))
      (\<lambda>rows t. P t \<and> rows = sort_key (\<lambda>h. - sint (hs_id h)) (histories_of t rid)) P"
    by (rule io_spec_select) auto
next
  fix rows
  show "io_spec db_tables (\<lambda>t. P t \<and> rows = sort_key (\<lambda>h. - sint (hs_id h)) (histories_of t rid))
     (case rows of [] \<Rightarrow> io_return None
      | h # _ \<Rightarrow> io_bind (io_lift (request_history_from T h)) (\<lambda>x. io_return (Some x)))
     (\<lambda>a t. P t \<and> (\<forall>h. a = Some h \<longrightarrow> (\<exists>row \<in> set (histories_of t rid). hs_id row = rh_id h))) P"
  proof (cases rows)
    case (Cons h hs)
    have "h \<in> set (histories_of t rid)"
      if "rows = sort_key (\<lambda>h. - sint (hs_id h)) (histories_of t rid)" for t
      using that Cons by (metis list.set_intros(1) set_sort)
    then show ?thesis
      using Cons
      by (auto simp: io_spec_def io_bind_def request_history_from_def res_bind_Ok_iff
          split: res.splits)
  qed (auto intro: io_spec_return)
qed

lemma phase_inv_mark:
  assumes "phase_inv {(Inscribed, Confirmed)} t0 t" "row \<in> set (histories_of t rid)" "hs_id row = hid"
  shows "phase_inv {(Inscribed, Confirmed)} t0 (mark_request rid hid (mark_history hid now t))"
proof -
  have "requests_move {(Inscribed, Confirmed)} t (mark_request rid hid (mark_history hid now t))"
    using assms(2) by (intro mark_moves) auto
  then show ?thesis
    using assms services_inv_mark [of t row rid hid] requests_move_trans
    unfolding phase_inv_def by blast
qed

lemma phase_inv_again:
  assumes "phase_inv R t0 t" "histories_of t (hs_inscription_request_id h) \<noteq> []"
  shows "phase_inv R t0 (add_history h t)"
  using assms add_history_again [OF assms(2)] services_inv_add_history
  by (auto simp: phase_inv_def requests_move_def)

lemma phase_inv_new:
  assumes "phase_inv {(Requested, Inscribed)} t0 t"
  shows "phase_inv {(Requested, Inscribed)} t0 (add_history h t)"
  using assms add_history_moves [of t h] requests_move_trans services_inv_add_history
  unfolding phase_inv_def by blast

text \<open>The first phase confirms inscribed requests and sends them again; the second inscribes the
  requests that have no history.\<close>

abbreviation confirming :: "tables \<Rightarrow> tables \<Rightarrow> bool" where
  "confirming \<equiv> phase_inv {(Inscribed, Confirmed)}"

abbreviation inscribing :: "tables \<Rightarrow> tables \<Rightarrow> bool" where
  "inscribing \<equiv> phase_inv {(Requested, Inscribed)}"

lemma confirm_or_resend_phase:
  "io_spec service_tables
     (\<lambda>t. confirming t0 t \<and> (\<exists>row \<in> set (histories_of t (ir_id ins)). hs_id row = rh_id h))
     (confirm_or_resend L T I config ins h) (\<lambda>_. confirming t0) (confirming t0)"
  (is "io_spec _ ?H _ _ _")
  unfolding confirm_or_resend_def
proof (rule io_spec_bind [OF io_spec_silent [where E = "confirming t0"]], simp, simp, rule io_spec_if)
  show "io_spec service_tables ?H (on_db DbError (confirm_inscription (ir_id ins) (rh_id h)))
      (\<lambda>_. confirming t0) (confirming t0)"
    by (rule io_spec_on_db, rule io_spec_at, rule io_spec_weaken [OF confirm_effect])
      (auto intro: phase_inv_mark)
next
  have "io_spec service_tables ?H (send_inscription_tx L T I ins c) (\<lambda>_. confirming t0)
      (confirming t0)" for c
    by (rule io_spec_at, rule io_spec_weaken [OF send_inscription_tx_effect])
      (auto intro!: phase_inv_again)
  then have resend: "io_spec service_tables ?H (resend_inscription L T I ins) (\<lambda>_. confirming t0)
      (confirming t0)"
    unfolding resend_inscription_def get_total_inscription_request_history_def
    by (intro io_spec_bind [OF io_spec_reads_only]) auto
  show "io_spec service_tables ?H
      (io_bind (on_node (ops_fetch_block_height (ins_client I))) (\<lambda>current_block.
         if sint (rh_sent_at_block h + ucast BLOCK_RESEND) > sint (ucast current_block :: i64)
         then io_return () else resend_inscription L T I ins))
      (\<lambda>_. confirming t0) (confirming t0)"
    by (rule io_spec_bind [OF io_spec_silent [where E = "confirming t0"]], simp, simp)
      (auto intro!: io_spec_if resend io_spec_return)
qed

lemma update_one_phase:
  "io_spec service_tables (confirming t0) (update_one L T I config ins)
     (\<lambda>_. confirming t0) (confirming t0)"
  unfolding update_one_def
proof (rule io_spec_bind [OF io_spec_on_db [OF get_last_history_spec]], rule io_spec_option)
  fix last :: "btc_inscription_request_history option" and h
  assume "last = Some h"
  then show "io_spec service_tables
      (\<lambda>t. confirming t0 t \<and> (\<forall>h'. last = Some h' \<longrightarrow>
         (\<exists>row \<in> set (histories_of t (ir_id ins)). hs_id row = rh_id h')))
      (confirm_or_resend L T I config ins h) (\<lambda>_. confirming t0) (confirming t0)"
    using confirm_or_resend_phase by simp
qed (auto intro: io_spec_return)

lemma inflight_reads_only [intro]: "reads_only get_inflight_inscriptions"
  unfolding get_inflight_inscriptions_def by blast

lemma list_new_reads_only [intro]: "reads_only (list_new_inscription_request n)"
  unfolding list_new_inscription_request_def by blast

lemma update_status_phase:
  "io_spec service_tables (confirming t0) (update_inscription_status_or_resend L T I config)
     (\<lambda>_. confirming t0) (confirming t0)"
  unfolding update_inscription_status_or_resend_def
  by (intro io_spec_bind [OF io_spec_reads_only] io_spec_for update_one_phase) auto

lemma send_new_phase:
  "io_spec service_tables (inscribing t0) (send_new_inscription_txs L T I config)
     (\<lambda>_. inscribing t0) (inscribing t0)"
proof -
  have "io_spec service_tables (inscribing t0) (send_inscription_tx L T I r c) (\<lambda>_. inscribing t0)
      (inscribing t0)" for r c
    by (rule io_spec_at, rule io_spec_weaken [OF send_inscription_tx_effect])
      (auto intro: phase_inv_new)
  then show ?thesis
    unfolding send_new_inscription_txs_def Let_def
    by (intro io_spec_bind [OF io_spec_reads_only] io_spec_if io_spec_for io_spec_return) auto
qed

text \<open>An iteration of the manager: at most one move of each request.\<close>

lemma manager_iteration_moves:
  assumes "services_inv t0"
  shows "io_spec service_tables (\<lambda>t. t = t0) (manager_loop_iteration L T I config)
     (\<lambda>_. phase_inv {(Requested, Inscribed), (Inscribed, Confirmed)} t0)
     (phase_inv {(Requested, Inscribed), (Inscribed, Confirmed)} t0)"
  unfolding manager_loop_iteration_def
proof (rule io_spec_bind)
  show "io_spec service_tables (\<lambda>t. t = t0) (update_inscription_status_or_resend L T I config)
      (\<lambda>_. confirming t0) (phase_inv {(Requested, Inscribed), (Inscribed, Confirmed)} t0)"
    using assms
    by (intro io_spec_weaken [OF update_status_phase]) (auto simp: phase_inv_def requests_move_def)
  show "io_spec service_tables (confirming t0) (send_new_inscription_txs L T I config)
      (\<lambda>_. phase_inv {(Requested, Inscribed), (Inscribed, Confirmed)} t0)
      (phase_inv {(Requested, Inscribed), (Inscribed, Confirmed)} t0)"
  proof (rule io_spec_at)
    fix t1
    assume t1: "confirming t0 t1"
    have "phase_inv {(Requested, Inscribed), (Inscribed, Confirmed)} t0 t" if "inscribing t1 t" for t
      using t1 that unfolding phase_inv_def requests_move_def
      by (metis (no_types, lifting) UnCI UnE insertCI insertE pair_in_Id_conv prod.inject
          request_state.distinct(5) singletonD)
    moreover have "inscribing t1 t1" using t1 by (simp add: phase_inv_def)
    ultimately show "io_spec service_tables (\<lambda>t. t = t1) (send_new_inscription_txs L T I config)
        (\<lambda>_. phase_inv {(Requested, Inscribed), (Inscribed, Confirmed)} t0)
        (phase_inv {(Requested, Inscribed), (Inscribed, Confirmed)} t0)"
      by (intro io_spec_weaken [OF send_new_phase [of t1]]) auto
  qed
qed

lemma last_history_reads_only [intro]: "reads_only (get_last_inscription_request_history T rid)"
  unfolding get_last_inscription_request_history_def
  by (rule reads_only_bind) (auto split: list.split)

lemma total_reads_only [intro]: "reads_only (get_total_inscription_request_history rid)"
  unfolding get_total_inscription_request_history_def by blast

lemma io_pres_node [io_pres_intro]: "io_pres (\<lambda>s. P (service_tables s)) (on_node m)"
  by (simp add: io_pres_def)

lemma io_pres_inscriber [io_pres_intro]: "io_pres (\<lambda>s. P (service_tables s)) (on_inscriber m)"
  by (simp add: io_pres_def)

lemma io_pres_reads_only: "reads_only q \<Longrightarrow> io_pres (\<lambda>s. P (service_tables s)) (on_db f q)"
  by (simp add: io_pres_def on_db_reads_only)

lemma send_inscription_tx_inv:
  "io_pres (\<lambda>s. sender_inv (service_tables s)) (send_inscription_tx L T I tx config)"
  unfolding send_inscription_tx_def Let_def
  by (intro io_pres_intro insert_history_inv)

lemma manager_iteration_inv:
  "io_pres (\<lambda>s. sender_inv (service_tables s)) (manager_loop_iteration L T I config)"
  unfolding manager_loop_iteration_def update_inscription_status_or_resend_def
    send_new_inscription_txs_def update_one_def confirm_or_resend_def resend_inscription_def Let_def
  by (intro io_pres_bind io_pres_for io_pres_if io_pres_option io_pres_basic io_pres_node
      send_inscription_tx_inv io_pres_on_db [OF confirm_inscription_inv]
      io_pres_reads_only inflight_reads_only list_new_reads_only last_history_reads_only
      total_reads_only)

section \<open>The inscription aggregator\<close>

text \<open>The batches a proof operation may hold: their commitment is confirmed.\<close>

definition commit_confirmed :: "tables \<Rightarrow> u32 \<Rightarrow> bool" where
  "commit_confirmed t n \<longleftrightarrow>
     (\<forall>b \<in> set (batch_inscription t). bi_l1_batch_number b = n \<longrightarrow> request_confirmed t (bi_commit_id b))"

lemma distinct_map_eq: "distinct (map f xs) \<Longrightarrow> x \<in> set xs \<Longrightarrow> y \<in> set xs \<Longrightarrow> f x = f y \<Longrightarrow> x = y"
  by (meson distinct_map inj_onD)

lemma ready_for_proof_confirmed:
  assumes "sender_inv t" "row \<in> set (ready_for_proof_rows t)"
  shows "commit_confirmed t (bd_number (block_details_from T row))"
proof -
  obtain b :: l1_batch_row and i :: batch_inscription_row and r :: inscription_request_row
    where b: "i \<in> set (batch_inscription t)" "bi_l1_batch_number i = lb_number b"
    "r \<in> set (inscriptions_request t)" "rq_id r = bi_commit_id i" "rq_confirmed_history_id r \<noteq> None"
    and row: "sd_number row = ucast (lb_number b)"
    using assms(2) by (auto simp: ready_for_proof_rows_def storage_details_def)
  have n: "bd_number (block_details_from T row) = lb_number b"
    using row by simp
  have "j = i" if "j \<in> set (batch_inscription t)" "bi_l1_batch_number j = lb_number b" for j
    using assms(1) that b(1,2) by (auto simp: sender_inv_parts intro: distinct_map_eq)
  moreover have "request_confirmed t (bi_commit_id i)"
    using b by (auto simp: request_confirmed_def list_ex_iff)
  ultimately show ?thesis by (auto simp: commit_confirmed_def n)
qed

lemma extract_ready_subset: "extract_ready_subrange cs bs = Some bs' \<Longrightarrow> set bs' \<subseteq> set bs"
  by (auto simp: extract_ready_subrange_def dest: set_takeWhileD)

lemma operations_read_only [intro]:
  "reads_only (get_commit_proof_operation T ag now)"
  "reads_only (get_commit_l1_batch_operation T ag now bl aa pv)"
  unfolding get_commit_proof_operation_def get_ready_for_commit_proof_l1_batches_def
    get_commit_l1_batch_operation_def get_ready_for_commit_l1_batches_def
  by blast+

lemma next_operation_reads_only [intro]: "reads_only (get_next_ready_operation T ag now bl aa pv)"
  unfolding get_next_ready_operation_def by (rule reads_only_bind) (auto split: option.split)

lemma next_operation_confirmed:
  assumes "sender_inv (db_tables d)" "get_next_ready_operation T ag now bl aa pv d = (Ok (Some op), d')"
    "get_inscription_request_type op = CommitProofOnchain" "b \<in> set (get_l1_batches_detail op)"
  shows "commit_confirmed (db_tables d) (bd_number b)"
proof -
  obtain bs where op: "op = OpCommitProof bs" using assms(3) by (cases op) auto
  obtain d1 where bs: "get_commit_proof_operation T ag now d = (Ok (Some (OpCommitProof bs)), d1)"
    using assms(2) unfolding op
    by (auto simp: get_next_ready_operation_def io_ok dest!: commit_operation_Ok split: option.splits)
  obtain k where "set bs \<subseteq> set (map (block_details_from T) (take k (ready_for_proof_rows (db_tables d))))"
    using proof_operation_Ok [OF bs] by (auto dest!: ready_for_proof_Ok extract_ready_subset)
  then show ?thesis
    using assms(4) op ready_for_proof_confirmed [OF assms(1)] by (force dest: in_set_takeD)
qed

subsection \<open>Linking requests to batches\<close>

lemma batch_link_writes [simp]:
  "batch_link (add_request r t) = batch_link t"
  "batch_link (add_link b t) n = (case batch_link t n of
       None \<Rightarrow> if bi_l1_batch_number b = n then Some b else None
     | Some x \<Rightarrow> Some x)"
  "batch_link (link_proof m p t) n =
     map_option (\<lambda>x. if awaits_proof_id m x then x\<lparr>bi_proof_id := Some p\<rparr> else x) (batch_link t n)"
  by (simp_all add: batch_link_def fun_eq_iff write_defs find_snoc find_update_where)

lemma request_ids_writes [simp]:
  "request_ids (add_request r t) = request_ids t @ [rq_id r]"
  "request_ids (add_link b t) = request_ids t"
  "request_ids (link_proof m p t) = request_ids t"
  by (simp_all add: request_ids_def write_defs)

lemma fresh_request_state:
  assumes "sender_inv t" "i \<notin> set (request_ids t)"
  shows "request_state t i = Requested"
  using assms
  by (auto simp: request_state_def request_confirmed_def histories_of_def sender_inv_defs list_ex_iff
      filter_empty_conv)

text \<open>The moves of the aggregator: no request changes its state, and some batches make the move
  from \<open>a\<close> to \<open>b\<close>.\<close>

definition links_move :: "stage \<Rightarrow> stage \<Rightarrow> tables \<Rightarrow> tables \<Rightarrow> bool" where
  "links_move a b t0 t \<longleftrightarrow> services_inv t \<and> request_state t = request_state t0
     \<and> (\<forall>n. batch_stage t n = batch_stage t0 n \<or> batch_stage t0 n = a \<and> batch_stage t n = b)"

lemma links_move_refl [simp]: "links_move a b t t \<longleftrightarrow> services_inv t"
  by (simp add: links_move_def)

lemma links_move_self: "links_move a b t0 t \<Longrightarrow> links_move c d t t"
  by (simp add: links_move_def)

lemma links_move_step:
  assumes "links_move a b t0 t" "a \<noteq> b" "services_inv t'" "request_state t' = request_state t"
    and "\<And>n. batch_stage t' n = batch_stage t n \<or> batch_stage t n = a \<and> batch_stage t' n = b"
  shows "links_move a b t0 t'"
  using assms unfolding links_move_def by metis

lemma services_inv_add_request:
  "services_inv t \<Longrightarrow> rq_confirmed_history_id r = None \<Longrightarrow> services_inv (add_request r t)"
  by (auto simp: services_inv_def proofs_follow_commits_def confirmed_by_own_history_def)
    (auto simp: add_request_def)

lemma services_inv_add_link:
  "services_inv t \<Longrightarrow> bi_proof_id b = None \<Longrightarrow> services_inv (add_link b t)"
  by (auto simp: services_inv_def proofs_follow_commits_def confirmed_by_own_history_def)
    (auto simp: add_link_def)

lemma services_inv_link_proof:
  "services_inv t \<Longrightarrow> commit_confirmed t n \<Longrightarrow> services_inv (link_proof n p t)"
  by (auto simp: services_inv_def proofs_follow_commits_def confirmed_by_own_history_def
      commit_confirmed_def)
    (auto simp: link_proof_def update_where_def awaits_proof_id_def split: if_splits)

lemma commit_confirmed_writes:
  "rq_confirmed_history_id r = None \<Longrightarrow> commit_confirmed (add_request r t) = commit_confirmed t"
  "commit_confirmed t m \<Longrightarrow> commit_confirmed (link_proof n p t) m"
  by (auto simp: commit_confirmed_def fun_eq_iff)
    (auto simp: link_proof_def update_where_def split: if_splits)

lemma link_commit_moves:
  assumes "links_move Uninscribed CommitRequested t0 t" "batch_link t n = None"
    and "request_state t i = Requested" "rq_confirmed_history_id r = None"
  shows "links_move Uninscribed CommitRequested t0
    (add_link \<lparr>bi_l1_batch_number = n, bi_commit_id = i, bi_proof_id = None\<rparr> (add_request r t))"
proof (rule links_move_step [OF assms(1)])
  show "services_inv (add_link \<lparr>bi_l1_batch_number = n, bi_commit_id = i, bi_proof_id = None\<rparr>
      (add_request r t))"
    using assms by (auto simp: links_move_def intro!: services_inv_add_link services_inv_add_request)
qed (use assms in \<open>auto simp: batch_stage_def link_stage_def split: option.splits\<close>)

lemma link_proof_moves:
  assumes "links_move CommitConfirmed ProofRequested t0 t" "commit_confirmed t n"
    and "request_state t i = Requested" "rq_confirmed_history_id r = None"
  shows "links_move CommitConfirmed ProofRequested t0 (link_proof n i (add_request r t))"
proof (rule links_move_step [OF assms(1)])
  show "services_inv (link_proof n i (add_request r t))"
    using assms
    by (auto simp: links_move_def commit_confirmed_writes intro!: services_inv_link_proof
        services_inv_add_request)
  fix m
  have "request_state t (bi_commit_id b) = Confirmed"
    if "batch_link t m = Some b" "awaits_proof_id n b" for b
    using that assms(2)
    by (auto simp: batch_link_def find_Some_iff commit_confirmed_def awaits_proof_id_def request_state_def)
  then show "batch_stage (link_proof n i (add_request r t)) m = batch_stage t m
      \<or> batch_stage t m = CommitConfirmed
        \<and> batch_stage (link_proof n i (add_request r t)) m = ProofRequested"
    using assms(3,4)
    by (auto simp: batch_stage_def link_stage_def awaits_proof_id_def split: option.splits)
qed (use assms in simp_all)

lemma link_commit_stage:
  "batch_link t n = None \<Longrightarrow> request_state t i = Requested \<Longrightarrow> rq_confirmed_history_id r = None \<Longrightarrow>
     batch_stage (add_link \<lparr>bi_l1_batch_number = n, bi_commit_id = i, bi_proof_id = None\<rparr>
       (add_request r t)) n = CommitRequested"
  by (simp add: batch_stage_def link_stage_def)

lemma link_proof_stage:
  assumes "sender_inv t" "list_ex (awaits_proof_id n) (batch_inscription t)"
    and "request_state t i = Requested" "rq_confirmed_history_id r = None"
  shows "batch_stage (link_proof n i (add_request r t)) n = ProofRequested"
proof -
  obtain b where b: "b \<in> set (batch_inscription t)" "awaits_proof_id n b"
    using assms(2) by (auto simp: list_ex_iff)
  obtain b' where b': "batch_link t n = Some b'"
    using b by (cases "batch_link t n") (auto simp: batch_link_def find_None_iff awaits_proof_id_def)
  then have "b' \<in> set (batch_inscription t)" "bi_l1_batch_number b' = n"
    by (auto simp: batch_link_def find_Some_iff)
  then have "b' = b"
    using b assms(1) by (auto simp: sender_inv_parts awaits_proof_id_def intro: distinct_map_eq)
  then show ?thesis using b' b(2) assms(3,4) by (simp add: batch_stage_def link_stage_def)
qed

lemma process_batch_spec:
  assumes link: "\<And>t r. J t \<Longrightarrow> rq_id r \<notin> set (request_ids t) \<Longrightarrow> rq_confirmed_history_id r = None \<Longrightarrow>
      io_spec db_tables (\<lambda>t'. t' = add_request r t)
        (insert_l1_batch_inscription_request_id (bd_number batch) (rq_id r) ty) (\<lambda>_. J') (\<lambda>_. True)"
  shows "io_spec service_tables J (process_batch L T I ag ty batch) (\<lambda>_. J') (\<lambda>_. True)"
proof -
  let ?K = "\<lambda>request t'. \<exists>t r. J t \<and> t' = add_request r t \<and> rq_id r \<notin> set (request_ids t)
      \<and> rq_confirmed_history_id r = None \<and> ir_id request = rq_id r"
  have save: "io_spec service_tables J
      (on_db DbError (via_save_btc_inscriptions_request ty msg fee)) ?K (\<lambda>_. True)" for msg fee
    by (rule io_spec_on_db, rule io_spec_at, rule io_spec_weaken [OF save_request_effect]) auto
  have "io_spec service_tables (?K request)
      (on_db DbError (insert_l1_batch_inscription_request_id (bd_number batch) (ir_id request) ty))
      (\<lambda>_. J') (\<lambda>_. True)" for request
    by (rule io_spec_on_db, rule io_spec_at) (auto intro: link)
  then show ?thesis
    unfolding process_batch_def
    by (intro io_spec_bind [OF io_spec_lift] io_spec_bind [OF io_spec_silent]
        io_spec_bind [OF save]) (auto simp: comp_def)
qed

lemma ids_fit_add: "ids_fit (add_request r t) \<longleftrightarrow> ids_fit t \<and> as_i32 (rq_id r) = rq_id r"
  by (auto simp: ids_fit_def)

lemma ids_fit_links [simp]:
  "ids_fit (add_link b t) = ids_fit t"
  "ids_fit (link_proof n p t) = ids_fit t"
  by (simp_all add: ids_fit_def)

fun source_stage :: "request_type \<Rightarrow> stage" where
  "source_stage CommitL1BatchOnchain = Uninscribed"
| "source_stage CommitProofOnchain = CommitConfirmed"

fun requested_stage :: "request_type \<Rightarrow> stage" where
  "requested_stage CommitL1BatchOnchain = CommitRequested"
| "requested_stage CommitProofOnchain = ProofRequested"

lemma request_stage_step: "stage_step (source_stage ty) (requested_stage ty)"
  by (cases ty) (simp_all add: stage_step_simps)

text \<open>The invariant of the aggregator's loop over the batches \<open>B\<close> of an operation, of which \<open>D\<close> are
  done.\<close>

definition linking :: "request_type \<Rightarrow> u32 set \<Rightarrow> u32 set \<Rightarrow> tables \<Rightarrow> tables \<Rightarrow> bool" where
  "linking ty B D t0 t \<longleftrightarrow> sender_inv t
     \<and> (ids_fit t \<longrightarrow> links_move (source_stage ty) (requested_stage ty) t0 t
          \<and> (\<forall>n \<in> D. batch_stage t n = requested_stage ty))
     \<and> (ty = CommitProofOnchain \<longrightarrow> (\<forall>n \<in> B. commit_confirmed t n))"

lemma linking_step:
  assumes "linking ty B D t0 t" "ids_fit t \<Longrightarrow> links_move (source_stage ty) (requested_stage ty) t t'"
    and "sender_inv t'" "ids_fit t' \<Longrightarrow> ids_fit t"
    and "ids_fit t' \<Longrightarrow> batch_stage t' n = requested_stage ty"
    and "ty = CommitProofOnchain \<Longrightarrow> \<forall>n \<in> B. commit_confirmed t' n"
  shows "linking ty B (insert n D) t0 t'"
proof -
  have "links_move (source_stage ty) (requested_stage ty) t0 t'
      \<and> (\<forall>m \<in> insert n D. batch_stage t' m = requested_stage ty)" if fit: "ids_fit t'"
  proof -
    have move: "links_move (source_stage ty) (requested_stage ty) t t'"
      and before: "links_move (source_stage ty) (requested_stage ty) t0 t"
      using assms(1,2,4) fit by (auto simp: linking_def)
    have "source_stage ty \<noteq> requested_stage ty" by (cases ty) simp_all
    then show ?thesis
      using links_move_step [OF before] move assms(1,4,5) fit
      unfolding linking_def links_move_def by (metis insert_iff)
  qed
  then show ?thesis using assms by (auto simp: linking_def)
qed

lemma sender_inv_add_request:
  "sender_inv t \<Longrightarrow> rq_id r \<notin> set (request_ids t) \<Longrightarrow> rq_confirmed_history_id r = None \<Longrightarrow>
     sender_inv (add_request r t)"
  by (auto simp: sender_inv_parts add_request_def map_ids)

lemma io_pres_effect:
  "io_pres (\<lambda>s. I (v s)) m \<Longrightarrow> I t0 \<Longrightarrow> io_spec v (\<lambda>t. t = t0) m (\<lambda>_. I) I"
  unfolding io_pres_spec by (auto elim: io_spec_weaken)

lemma link_commit_spec:
  assumes J: "linking CommitL1BatchOnchain B D t0 t" and fresh: "rq_id r \<notin> set (request_ids t)"
    and none: "rq_confirmed_history_id r = None"
  shows "io_spec db_tables (\<lambda>t'. t' = add_request r t) (insert_commit_request_id n (rq_id r))
     (\<lambda>_. linking CommitL1BatchOnchain B (insert n D) t0) (\<lambda>_. True)"
proof -
  have inv: "sender_inv t" using J by (simp add: linking_def)
  note pres = io_pres_effect [where I = sender_inv, OF insert_commit_request_id_inv
      sender_inv_add_request [OF inv fresh none]]
  have "linking CommitL1BatchOnchain B (insert n D) t0 t'"
    if "batch_link (add_request r t) n = None" "sender_inv t'"
      "t' = add_link \<lparr>bi_l1_batch_number = n, bi_commit_id = as_i32 (rq_id r), bi_proof_id = None\<rparr>
         (add_request r t)" for t'
  proof (cases "ids_fit t'")
    case True
    then show ?thesis
      using that J none fresh_request_state [OF inv fresh]
      by (intro linking_step [OF J])
        (auto simp: ids_fit_add linking_def link_commit_stage
          intro!: link_commit_moves intro: links_move_self)
  qed (use that in \<open>simp add: linking_def\<close>)
  then show ?thesis
    using io_spec_conj [OF pres insert_commit_request_id_effect [of "add_request r t" n "rq_id r"]]
    by (elim io_spec_weaken) auto
qed

lemma link_proof_spec:
  assumes J: "linking CommitProofOnchain B D t0 t" and fresh: "rq_id r \<notin> set (request_ids t)"
    and none: "rq_confirmed_history_id r = None" and n: "n \<in> B"
  shows "io_spec db_tables (\<lambda>t'. t' = add_request r t) (set_proof_request_id n (rq_id r))
     (\<lambda>_. linking CommitProofOnchain B (insert n D) t0) (\<lambda>_. True)"
proof -
  have inv: "sender_inv t" using J by (simp add: linking_def)
  note pres = io_pres_effect [where I = sender_inv,
      OF set_proof_request_id_inv sender_inv_add_request [OF inv fresh none]]
  have "linking CommitProofOnchain B (insert n D) t0 t'"
    if "list_ex (awaits_proof_id n) (batch_inscription (add_request r t))" "sender_inv t'"
      "t' = link_proof n (as_i32 (rq_id r)) (add_request r t)" for t'
  proof -
    have conf: "\<forall>m \<in> B. commit_confirmed t' m"
      using J none that(3) by (auto simp: linking_def commit_confirmed_writes)
    show ?thesis
    proof (cases "ids_fit t'")
      case True
      then show ?thesis
        using that J none n conf fresh_request_state [OF inv fresh]
        by (intro linking_step [OF J])
          (auto simp: ids_fit_add linking_def link_proof_stage
            intro!: link_proof_moves intro: links_move_self)
    qed (use that conf in \<open>simp add: linking_def\<close>)
  qed
  then show ?thesis
    using io_spec_conj [OF pres set_proof_request_id_effect [of "add_request r t" n "rq_id r"]]
    by (elim io_spec_weaken) auto
qed

lemma operation_loop_spec:
  assumes "\<And>b. b \<in> set bs \<Longrightarrow> bd_number b \<in> B"
  shows "io_spec service_tables (linking ty B D t0) (io_for bs (process_batch L T I ag ty))
     (\<lambda>_. linking ty B (D \<union> bd_number ` set bs) t0) (\<lambda>_. True)"
  using assms
proof (induction bs arbitrary: D)
  case Nil
  then show ?case by (simp add: io_spec_def)
next
  case (Cons b bs)
  have "io_spec service_tables (linking ty B D t0) (process_batch L T I ag ty b)
      (\<lambda>_. linking ty B (insert (bd_number b) D) t0) (\<lambda>_. True)"
    using Cons.prems
    by (intro process_batch_spec)
      (cases ty; simp add: insert_l1_batch_inscription_request_id_def link_commit_spec link_proof_spec)
  moreover have "io_spec service_tables (linking ty B (insert (bd_number b) D) t0)
      (io_for bs (process_batch L T I ag ty))
      (\<lambda>_. linking ty B (D \<union> bd_number ` set (b # bs)) t0) (\<lambda>_. True)"
    using Cons.IH [of "insert (bd_number b) D"] Cons.prems by simp
  ultimately show ?case unfolding io_for.simps by (rule io_spec_bind)
qed

text \<open>An iteration of the aggregator: the tables satisfy the constraints again, every batch stays
  where it is or makes one move, and the batches of the operation have made theirs; nothing at all
  changes when the iteration fails.\<close>

definition operation_requested :: "aggregated_operation option \<Rightarrow> tables \<Rightarrow> tables \<Rightarrow> bool" where
  "operation_requested op t0 t \<longleftrightarrow> (case op of
       None \<Rightarrow> t = t0
     | Some o' \<Rightarrow> sender_inv t \<and> (ids_fit t \<longrightarrow>
         links_move (source_stage (get_inscription_request_type o'))
           (requested_stage (get_inscription_request_type o')) t0 t
         \<and> (\<forall>b \<in> set (get_l1_batches_detail o').
              batch_stage t (bd_number b) = requested_stage (get_inscription_request_type o'))))"

lemma next_operation_linking:
  assumes "sender_inv t0" "services_inv t0" "db_tables d = t0"
    and "get_next_ready_operation T ag now bl aa pv d = (Ok (Some o'), d')"
  shows "linking (get_inscription_request_type o') (bd_number ` set (get_l1_batches_detail o')) {} t0 t0"
  using next_operation_confirmed [of d T ag now bl aa pv o' d'] assms by (auto simp: linking_def)

lemma aggregator_iteration_moves:
  assumes inv: "sender_inv t0" "services_inv t0" and d: "db_tables d = t0"
    and run: "aggregator_loop_iteration L T I ag now pv (d, x) = (r, s')"
  shows "(case r of
       Ok u \<Rightarrow> \<exists>op d'. get_next_ready_operation T ag now get_bootloader_code_hash get_aa_code_hash pv d
              = (Ok op, d') \<and> operation_requested op t0 (service_tables s')
     | Err e \<Rightarrow> service_tables s' = t0
     | Panic \<Rightarrow> service_tables s' = t0)"
proof -
  let ?next = "get_next_ready_operation T ag now get_bootloader_code_hash get_aa_code_hash pv"
  obtain y d1 where get: "?next d = (y, d1)" by (cases "?next d")
  have d1: "db_tables d1 = t0"
    using next_operation_reads_only [of T ag now] get d unfolding reads_only_def by (metis snd_conv)
  show ?thesis
  proof (cases y)
    case (Ok op)
    show ?thesis
    proof (cases op)
      case None
      then show ?thesis
        using run get Ok d1
        by (auto simp: aggregator_loop_iteration_def io_bind_def on_db_def io_zoom_def io_map_err_def
            operation_requested_def)
    next
      case (Some o')
      let ?ty = "get_inscription_request_type o'"
      let ?B = "bd_number ` set (get_l1_batches_detail o')"
      have "io_spec service_tables (\<lambda>t. t = t0)
          (in_transaction DbError (io_for (get_l1_batches_detail o') (process_batch L T I ag ?ty)))
          (\<lambda>_. linking ?ty ?B ?B t0) (\<lambda>t. t = t0)"
        using next_operation_linking [OF inv d] get Ok Some
        by (intro io_spec_in_transaction io_spec_weaken [OF operation_loop_spec [of _ ?B ?ty "{}" t0]])
          auto
      moreover have "in_transaction DbError
          (io_for (get_l1_batches_detail o') (process_batch L T I ag ?ty)) (d1, x) = (r, s')"
        using run get Ok Some
        by (simp add: aggregator_loop_iteration_def io_bind_def on_db_def io_zoom_def io_map_err_def)
      ultimately have "case r of Ok u \<Rightarrow> linking ?ty ?B ?B t0 (service_tables s')
          | Err e \<Rightarrow> service_tables s' = t0 | Panic \<Rightarrow> service_tables s' = t0"
        using d1 io_specD [where s = "(d1, x)"] by fastforce
      then show ?thesis
        using get Ok Some by (cases r) (auto simp: linking_def operation_requested_def)
    qed
  qed (use run get d1 in \<open>auto simp: aggregator_loop_iteration_def io_bind_def on_db_def io_zoom_def
      io_map_err_def\<close>)
qed

end
