(* ===== verification/Sender_System.thy ===== *)
theory Sender_System
  imports Sender_Lifecycle
begin

text \<open>
  The two services of the Bitcoin sender side by side.  An iteration of either is a step; between
  the steps the other services of the node change the tables they own, the Bitcoin node changes
  freely, and queries may fail at any moment.  The contract of a service is the locale
  \<open>batch_service\<close>, which both services are shown to satisfy.
\<close>

section \<open>Requests and links are never removed\<close>

text \<open>What the sender writes stays: no request disappears, and a link between a batch and the request
  of its commitment or of its proof is never changed.\<close>

definition keeps_links :: "tables \<Rightarrow> tables \<Rightarrow> bool" where
  "keeps_links t t' \<longleftrightarrow> set (request_ids t) \<subseteq> set (request_ids t')
   \<and> (\<forall>n b. batch_link t n = Some b \<longrightarrow> (\<exists>b'. batch_link t' n = Some b'
        \<and> bi_commit_id b' = bi_commit_id b \<and> (bi_proof_id b \<noteq> None \<longrightarrow> bi_proof_id b' = bi_proof_id b)))"

lemma keeps_links_refl [simp]: "keeps_links t t"
  by (simp add: keeps_links_def)

lemma keeps_links_trans: "keeps_links t t' \<Longrightarrow> keeps_links t' t'' \<Longrightarrow> keeps_links t t''"
  unfolding keeps_links_def by (meson order_trans) (metis option.distinct(1))

lemma keeps_links_same:
  "request_ids t' = request_ids t \<Longrightarrow> batch_inscription t' = batch_inscription t \<Longrightarrow> keeps_links t t'"
  by (simp add: keeps_links_def batch_link_def)

lemma keeps_links_add_request: "keeps_links t (add_request r t)"
  by (auto simp: keeps_links_def batch_link_def request_ids_def add_request_def)

lemma keeps_links_add_link:
  "batch_link t (bi_l1_batch_number b) = None \<Longrightarrow> keeps_links t (add_link b t)"
  by (auto simp: keeps_links_def batch_link_def request_ids_def add_link_def find_snoc)

lemma keeps_links_link_proof: "keeps_links t (link_proof n p t)"
  by (auto simp: keeps_links_def batch_link_def request_ids_def link_proof_def awaits_proof_id_def
      find_update_where)

lemma request_ids_history_writes [simp]:
  "request_ids (mark_request rid hid t) = request_ids t"
  "request_ids (mark_history hid now t) = request_ids t"
  "request_ids (add_history h t) = request_ids t"
  by (simp_all add: request_ids_def write_defs update_where_field)

lemma same_requests_queries:
  "io_pres (\<lambda>d. P (request_ids (db_tables d)) (batch_inscription (db_tables d))) (insert_inscription_request_history T c r rid sc sr f b)"
  "io_pres (\<lambda>d. P (request_ids (db_tables d)) (batch_inscription (db_tables d))) (confirm_inscription rid hid)"
proof -
  show "io_pres (\<lambda>d. P (request_ids (db_tables d)) (batch_inscription (db_tables d)))
      (insert_inscription_request_history T c r rid sc sr f b)"
    unfolding insert_inscription_request_history_def
    by (rule io_pres_insert_row) auto
  show "io_pres (\<lambda>d. P (request_ids (db_tables d)) (batch_inscription (db_tables d))) (confirm_inscription rid hid)"
    unfolding confirm_inscription_def set_history_confirmed_def set_request_confirmed_def
    by (intro io_pres_transaction io_pres_bind io_pres_guarded_update io_pres_round_trip)
      (auto simp: io_pres_def update_tables_def)
qed

lemma keeps_requests_queries:
  "io_pres (\<lambda>d. keeps_links t0 (db_tables d)) (via_save_btc_inscriptions_request ty msg fee)"
  "io_pres (\<lambda>d. keeps_links t0 (db_tables d)) (insert_l1_batch_inscription_request_id n i ty)"
proof -
  show "io_pres (\<lambda>d. keeps_links t0 (db_tables d)) (via_save_btc_inscriptions_request ty msg fee)"
    unfolding via_save_btc_inscriptions_request_def
    by (rule io_pres_insert_row) (auto intro: keeps_links_trans keeps_links_add_request)
  show "io_pres (\<lambda>d. keeps_links t0 (db_tables d)) (insert_l1_batch_inscription_request_id n i ty)"
    unfolding insert_l1_batch_inscription_request_id_def insert_commit_request_id_def
      set_proof_request_id_def
    by (cases ty) (auto intro!: io_pres_guarded_update keeps_links_trans [OF _ keeps_links_link_proof]
        keeps_links_trans [OF _ keeps_links_add_link] simp: batch_link_def find_None_iff list_ex_iff)
qed

lemma send_same_requests:
  "io_pres (\<lambda>s. P (request_ids (service_tables s)) (batch_inscription (service_tables s))) (send_inscription_tx L T I tx config)"
  unfolding send_inscription_tx_def Let_def
  by (intro io_pres_bind io_pres_basic io_pres_node io_pres_inscriber
      io_pres_on_db [OF same_requests_queries(1)])

lemma update_status_same_requests:
  "io_pres (\<lambda>s. P (request_ids (service_tables s)) (batch_inscription (service_tables s))) (update_inscription_status_or_resend L T I config)"
  unfolding update_inscription_status_or_resend_def update_one_def confirm_or_resend_def
    resend_inscription_def
  by (intro io_pres_bind io_pres_for io_pres_if io_pres_option io_pres_basic io_pres_node
      send_same_requests io_pres_on_db [OF same_requests_queries(2)]
      io_pres_reads_only inflight_reads_only last_history_reads_only total_reads_only)

lemma send_new_same_requests:
  "io_pres (\<lambda>s. P (request_ids (service_tables s)) (batch_inscription (service_tables s))) (send_new_inscription_txs L T I config)"
  unfolding send_new_inscription_txs_def Let_def
  by (intro io_pres_bind io_pres_for io_pres_if io_pres_basic send_same_requests
      io_pres_reads_only inflight_reads_only list_new_reads_only)

lemma manager_keeps_requests:
  "io_pres (\<lambda>s. P (request_ids (service_tables s)) (batch_inscription (service_tables s))) (manager_loop_iteration L T I config)"
  unfolding manager_loop_iteration_def
  by (intro io_pres_bind update_status_same_requests send_new_same_requests)

lemma aggregator_keeps_requests:
  "io_pres (\<lambda>s. keeps_links t0 (service_tables s)) (aggregator_loop_iteration L T I ag now pv)"
proof -
  have "io_pres (\<lambda>s. keeps_links t0 (service_tables s)) (process_batch L T I ag ty b)" for ty b
    unfolding process_batch_def
    by (intro io_pres_bind io_pres_basic io_pres_inscriber io_pres_on_db [OF keeps_requests_queries(1)]
        io_pres_on_db [OF keeps_requests_queries(2)])
  then have "io_pres (\<lambda>s. keeps_links t0 (service_tables s))
      (in_transaction DbError (io_for bs (process_batch L T I ag ty)))" for ty bs
    by (intro io_pres_in_transaction io_pres_for)
  then show ?thesis
    unfolding aggregator_loop_iteration_def
    by (intro io_pres_bind io_pres_option io_pres_basic io_pres_reads_only next_operation_reads_only)
qed

section \<open>The contract of a service\<close>

lemma lifecycle_inv_parts: "lifecycle_inv t \<longleftrightarrow> sender_inv t \<and> services_inv t"
  by (simp add: lifecycle_inv_def services_inv_def)

locale batch_service =
  fixes iteration :: "(db \<times> 'x, 'e, unit) io"
  assumes keeps_rows: "keeps_links (service_tables s) (service_tables (snd (iteration s)))"
    and keeps_lifecycle:
      "lifecycle_inv (service_tables s) \<Longrightarrow> ids_fit (service_tables (snd (iteration s))) \<Longrightarrow>
         lifecycle_inv (service_tables (snd (iteration s)))"
    and one_move:
      "lifecycle_inv (service_tables s) \<Longrightarrow> ids_fit (service_tables (snd (iteration s))) \<Longrightarrow>
         batch_stage (service_tables (snd (iteration s))) n = batch_stage (service_tables s) n
       \<or> stage_step (batch_stage (service_tables s) n) (batch_stage (service_tables (snd (iteration s))) n)"
begin

lemma ids_fit_before: "ids_fit (service_tables (snd (iteration s))) \<Longrightarrow> ids_fit (service_tables s)"
  using keeps_rows [of s] unfolding ids_fit_def keeps_links_def by blast

lemma stage_monotone:
  "lifecycle_inv (service_tables s) \<Longrightarrow> ids_fit (service_tables (snd (iteration s))) \<Longrightarrow>
     batch_stage (service_tables s) n \<le> batch_stage (service_tables (snd (iteration s))) n"
  using one_move [of s n] stage_step_less by fastforce

end

interpretation manager: batch_service "manager_loop_iteration L T I config" for L T I config
proof
  fix s and n
  let ?s' = "snd (manager_loop_iteration L T I config s)"
  show "keeps_links (service_tables s) (service_tables ?s')"
    using manager_keeps_requests [of "\<lambda>is ls. is = request_ids (service_tables s)
      \<and> ls = batch_inscription (service_tables s)"]
    unfolding io_pres_def by (metis keeps_links_same)
  assume inv: "lifecycle_inv (service_tables s)"
  have phase: "phase_inv {(Requested, Inscribed), (Inscribed, Confirmed)} (service_tables s)
      (service_tables ?s')"
    using io_spec_final [OF manager_iteration_moves [of "service_tables s"] refl] inv
    by (simp add: lifecycle_inv_parts)
  moreover have "sender_inv (service_tables ?s')"
    using manager_iteration_inv inv unfolding io_pres_def lifecycle_inv_parts by blast
  ultimately show "lifecycle_inv (service_tables ?s')"
    by (simp add: lifecycle_inv_parts phase_inv_def)
  show "batch_stage (service_tables ?s') n = batch_stage (service_tables s) n
      \<or> stage_step (batch_stage (service_tables s) n) (batch_stage (service_tables ?s') n)"
    using phase requests_move_stages unfolding phase_inv_def by blast
qed

lemma links_move_stages:
  "links_move a b t t' \<Longrightarrow> stage_step a b \<Longrightarrow>
     batch_stage t' n = batch_stage t n \<or> stage_step (batch_stage t n) (batch_stage t' n)"
  unfolding links_move_def by metis

lemma operation_requested_moves:
  assumes "operation_requested op t t'" "lifecycle_inv t" "ids_fit t'"
  shows "lifecycle_inv t' \<and> (batch_stage t' n = batch_stage t n
      \<or> stage_step (batch_stage t n) (batch_stage t' n))"
  using assms links_move_stages [OF _ request_stage_step, of _ t t' n]
  by (auto simp: operation_requested_def lifecycle_inv_parts links_move_def split: option.splits)

interpretation aggregation: batch_service "aggregator_loop_iteration L T I ag now pv" for L T I ag now pv
proof
  fix s and n
  let ?s' = "snd (aggregator_loop_iteration L T I ag now pv s)"
  let ?moved = "\<lambda>t. lifecycle_inv t \<and> (batch_stage t n = batch_stage (service_tables s) n
      \<or> stage_step (batch_stage (service_tables s) n) (batch_stage t n))"
  show "keeps_links (service_tables s) (service_tables ?s')"
    using aggregator_keeps_requests unfolding io_pres_def by (metis keeps_links_refl)
  assume inv: "lifecycle_inv (service_tables s)" and fit: "ids_fit (service_tables ?s')"
  obtain r where run: "aggregator_loop_iteration L T I ag now pv (fst s, snd s) = (r, ?s')"
    by (cases "aggregator_loop_iteration L T I ag now pv s") simp
  have "?moved (service_tables ?s')"
    using aggregator_iteration_moves [OF _ _ refl run] inv fit
      operation_requested_moves [OF _ inv fit, of _ n]
    by (cases r) (auto simp: lifecycle_inv_parts)
  then show "lifecycle_inv (service_tables ?s')"
    "batch_stage (service_tables ?s') n = batch_stage (service_tables s) n
      \<or> stage_step (batch_stage (service_tables s) n) (batch_stage (service_tables ?s') n)"
    by blast+
qed

section \<open>The system\<close>

text \<open>What the sender owns in the database; the other services change the rest.\<close>

definition same_sender_tables :: "tables \<Rightarrow> tables \<Rightarrow> bool" where
  "same_sender_tables t t' \<longleftrightarrow>
     inscriptions_request t' = inscriptions_request t
   \<and> request_history t' = request_history t
   \<and> batch_inscription t' = batch_inscription t"

lemma same_sender_tables_view:
  assumes "same_sender_tables t t'"
  shows "lifecycle_inv t' = lifecycle_inv t" "batch_stage t' = batch_stage t"
    "request_ids t' = request_ids t"
proof -
  have eq: "inscriptions_request t' = inscriptions_request t" "request_history t' = request_history t"
    "batch_inscription t' = batch_inscription t"
    using assms by (simp_all add: same_sender_tables_def)
  then have "request_confirmed t' = request_confirmed t" "histories_of t' = histories_of t"
    by (simp_all add: fun_eq_iff request_confirmed_def histories_of_def)
  moreover from this have "request_state t' = request_state t"
    by (simp add: fun_eq_iff request_state_def)
  ultimately show "lifecycle_inv t' = lifecycle_inv t" "request_ids t' = request_ids t"
    "batch_stage t' = batch_stage t"
    using eq
    by (simp_all add: lifecycle_inv_def sender_inv_defs proofs_follow_commits_def
        confirmed_by_own_history_def batch_stage_def [abs_def] batch_link_def)
qed

text \<open>The state: the database, the queues of the two inscribers and the Bitcoin node.\<close>

type_synonym 'w sender_state = "db \<times> inscriber_context \<times> inscriber_context \<times> 'w"

inductive sender_step ::
    "btc_lib \<Rightarrow> sender_lib \<Rightarrow> 'w inscriber \<Rightarrow> 'w inscriber \<Rightarrow> btc_sender_config \<Rightarrow>
       'w sender_state \<Rightarrow> 'w sender_state \<Rightarrow> bool"
  for L T A M config where
  aggregate: "aggregator_loop_iteration L T A (aggregator_new config) now pv (d, ca, w) = (r, d', ca', w') \<Longrightarrow>
    sender_step L T A M config (d, ca, cm, w) (d', ca', cm, w')"
| manage: "manager_loop_iteration L T M config (d, cm, w) = (r, d', cm', w') \<Longrightarrow>
    sender_step L T A M config (d, ca, cm, w) (d', ca, cm', w')"
| environment: "same_sender_tables (db_tables d) (db_tables d') \<Longrightarrow>
    sender_step L T A M config (d, ca, cm, w) (d', ca, cm, w')"

inductive_cases sender_stepE: "sender_step L T A M config s s'"

lemma sender_step_refines:
  assumes "sender_step L T A M config s s'" "ids_fit (service_tables s')"
  shows "ids_fit (service_tables s)"
    and "lifecycle_inv (service_tables s) \<Longrightarrow> lifecycle_inv (service_tables s')"
    and "lifecycle_inv (service_tables s) \<Longrightarrow>
      batch_stage (service_tables s') n = batch_stage (service_tables s) n
    \<or> stage_step (batch_stage (service_tables s) n) (batch_stage (service_tables s') n)"
proof -
  have "ids_fit (service_tables s)
    \<and> (lifecycle_inv (service_tables s) \<longrightarrow> lifecycle_inv (service_tables s')
        \<and> (batch_stage (service_tables s') n = batch_stage (service_tables s) n
           \<or> stage_step (batch_stage (service_tables s) n) (batch_stage (service_tables s') n)))"
    using assms
  proof cases
    case (aggregate now pv d ca w r d' ca' w' cm)
    note [simp] = aggregate(1,2)
    note run = aggregation.ids_fit_before [of L T A "aggregator_new config" now pv "(d, ca, w)"]
      aggregation.keeps_lifecycle [of "(d, ca, w)" L T A "aggregator_new config" now pv]
      aggregation.one_move [of "(d, ca, w)" L T A "aggregator_new config" now pv n]
    show ?thesis using run assms(2) unfolding aggregate(3) by auto
  next
    case (manage d cm w r d' cm' w' ca)
    note [simp] = manage(1,2)
    note run = manager.ids_fit_before [of L T M config "(d, cm, w)"]
      manager.keeps_lifecycle [of "(d, cm, w)" L T M config]
      manager.one_move [of "(d, cm, w)" L T M config n]
    show ?thesis using run assms(2) unfolding manage(3) by auto
  next
    case (environment d d' ca cm w w')
    then show ?thesis using assms(2) by (simp add: same_sender_tables_view ids_fit_def)
  qed
  then show "ids_fit (service_tables s)"
    and "lifecycle_inv (service_tables s) \<Longrightarrow> lifecycle_inv (service_tables s')"
    and "lifecycle_inv (service_tables s) \<Longrightarrow>
      batch_stage (service_tables s') n = batch_stage (service_tables s) n
    \<or> stage_step (batch_stage (service_tables s) n) (batch_stage (service_tables s') n)"
    by blast+
qed

lemma sender_run_refines:
  assumes "(sender_step L T A M config)\<^sup>*\<^sup>* s s'" "lifecycle_inv (service_tables s)"
    and "ids_fit (service_tables s')"
  shows "lifecycle_inv (service_tables s')
    \<and> stage_step\<^sup>*\<^sup>* (batch_stage (service_tables s) n) (batch_stage (service_tables s') n)"
  using assms(1,3)
proof (induction rule: rtranclp_induct)
  case base
  then show ?case using assms(2) by simp
next
  case (step y z)
  from sender_step_refines [OF step.hyps(2) step.prems] step.IH show ?case
    by (metis rtranclp.rtrancl_into_rtrancl)
qed

lemma sender_run_keeps_links:
  "(sender_step L T A M config)\<^sup>*\<^sup>* s s' \<Longrightarrow> keeps_links (service_tables s) (service_tables s')"
proof (induction rule: rtranclp_induct)
  case (step y z)
  from step.hyps(2) have "keeps_links (service_tables y) (service_tables z)"
  proof cases
    case (aggregate now pv d ca w r d' ca' w' cm)
    then show ?thesis
      using aggregation.keeps_rows [of "(d, ca, w)" L T A "aggregator_new config" now pv] by simp
  next
    case (manage d cm w r d' cm' w' ca)
    then show ?thesis using manager.keeps_rows [of "(d, cm, w)" L T M config] by simp
  next
    case (environment d d' ca cm w w')
    from same_sender_tables_view(3) [OF this(3)] this(3) show ?thesis
      unfolding environment(1,2) same_sender_tables_def by (simp add: keeps_links_same)
  qed
  with step.IH show ?case by (rule keeps_links_trans)
qed simp

end
