(* ===== verification/Sender_Facts.thy ===== *)
theory Sender_Facts
  imports Sender_System
begin

text \<open>
  Functional facts about the Bitcoin sender: which operation the aggregator takes, how many
  inscriptions are in flight, and what one update of a request does.
\<close>

section \<open>The operation the aggregator takes\<close>

lemma sorted_sequential_consecutive:
  assumes "sequential bs" "sorted (map bd_number bs)"
  shows "consecutive bs"
proof (rule sequential_consecutive [OF assms(1)], rule impI)
  assume "bs \<noteq> []"
  then show "unat (bd_number (hd bs)) + length bs \<le> 2 ^ 32"
    using assms
  proof (induction bs rule: sequential.induct)
    case (2 b)
    have "unat (bd_number b) < 2 ^ 32"
      using unsigned_less [of "bd_number b", where 'a = nat] by simp
    then show ?case by simp
  next
    case (3 b b' bs)
    have "unat (bd_number b') = Suc (unat (bd_number b))"
    proof -
      have eq: "bd_number b' = bd_number b + 1" and "bd_number b \<le> bd_number b'"
        using "3.prems" by auto
      then have "bd_number b + 1 \<noteq> 0" by (metis add_cancel_left_right word_le_0_iff zero_neq_one)
      then show ?thesis unfolding eq by (metis add.commute unatSuc)
    qed
    with 3 show ?case by simp
  qed simp
qed

lemma sorted_concat_map:
  assumes "sorted (map k xs)" "\<And>x y. y \<in> set (f x) \<Longrightarrow> g y = k x"
  shows "sorted (map g (concat (map f xs)))"
  using assms(1)
proof (induction xs)
  case (Cons x xs)
  have "map g (f x) = replicate (length (f x)) (k x)"
    using assms(2) by (intro replicate_eqI) auto
  then have "sorted (map g (f x))" by simp
  moreover have "g y \<le> g z" if "y \<in> set (f x)" "z \<in> set (concat (map f xs))" for y z
    using that Cons.prems assms(2) by auto
  ultimately show ?case using Cons by (auto simp: sorted_append)
qed simp

lemma ready_rows_sorted:
  "sorted (map (bd_number \<circ> block_details_from T) (ready_for_commit_rows bl aa pv t))"
  "sorted (map (bd_number \<circ> block_details_from T) (ready_for_proof_rows t))"
proof -
  have sorted: "sorted (map lb_number (filter p (sort_key lb_number bs)))"
    "sorted (map lb_number (sort_key lb_number bs))" for p and bs :: "l1_batch_row list"
    by (simp_all add: sorted_filter)
  show "sorted (map (bd_number \<circ> block_details_from T) (ready_for_commit_rows bl aa pv t))"
    unfolding ready_for_commit_rows_def
    by (rule sorted_concat_map [OF sorted(1)]) (auto simp: storage_details_def)
  show "sorted (map (bd_number \<circ> block_details_from T) (ready_for_proof_rows t))"
    unfolding ready_for_proof_rows_def
    by (rule sorted_concat_map [OF sorted(2)]) (auto simp: storage_details_def)
qed

text \<open>The batches a query returns, and how many of them are taken.\<close>

definition ready_batches ::
    "sender_lib \<Rightarrow> i32 \<Rightarrow> storage_l1_block_details list \<Rightarrow> btc_l1_block_details list" where
  "ready_batches T limit rows = map (block_details_from T) (take (nat (sint limit)) rows)"

definition pick :: "u32 \<Rightarrow> u32 \<Rightarrow> u64 \<Rightarrow> btc_l1_block_details list \<Rightarrow> btc_l1_block_details list" where
  "pick limit deadline now bs = take (ready_count limit deadline now bs) bs"

lemma sint_limit_of [simp]: "sint (limit_of n) = sint n"
  by (simp add: limit_of_def sint_up_scast is_up)

lemma sint_i32_bound: "nat (sint (n :: i32)) < 2 ^ 32"
  using sint_lt [of n] by simp

lemma ready_count_nil: "0 \<le> sint limit \<Longrightarrow> sint limit = 0 \<Longrightarrow> ready_count limit d now [] = 0"
  by (simp add: ready_count_def overdue_def)

lemma extract_pick:
  fixes limit :: i32
  assumes "sequential bs" "bs = ready_batches T limit rows" "0 \<le> sint limit"
    and "sorted (map (bd_number \<circ> block_details_from T) rows)"
  shows "extract_ready_subrange [via_number_criterion limit, timestamp_deadline_criterion d now] bs =
    (if pick limit d now bs = [] then None else Some (pick limit d now bs))"
proof (cases "limit = 0")
  case True
  then have "bs = []" using assms(2) by (simp add: ready_batches_def)
  then show ?thesis
    by (simp add: pick_def extract_ready_subrange_def via_number_criterion_def
        timestamp_deadline_criterion_def)
next
  case False
  have "sorted (map bd_number bs)"
    unfolding assms(2) ready_batches_def map_map take_map [symmetric]
    by (rule sorted_wrt_take [OF assms(4)])
  then have con: "consecutive bs" by (rule sorted_sequential_consecutive [OF assms(1)])
  have len: "length bs < 2 ^ 32"
    using sint_i32_bound [of limit] assms(2) by (simp add: ready_batches_def)
  have pos: "0 < limit" using False by (simp add: word_neq_0_conv)
  have le: "ready_count limit d now bs \<le> length bs"
    using overdue_le [of d now bs] by (auto simp: ready_count_def Let_def)
  then have "pick limit d now bs = [] \<longleftrightarrow> ready_count limit d now bs = 0"
    by (auto simp: pick_def)
  then show ?thesis using extract_ready_count [OF con len pos, of d now] by (simp add: pick_def)
qed

lemma next_operation_pick:
  assumes "get_next_ready_operation T (aggregator_new config) now bl aa pv d = (Ok op, d')"
  defines "proofs \<equiv> pick (max_aggregated_proofs_to_commit config) BLOCK_TIME_TO_PROOF now
      (ready_batches T (max_aggregated_proofs_to_commit config) (ready_for_proof_rows (db_tables d)))"
    and "commits \<equiv> pick (max_aggregated_blocks_to_commit config) BLOCK_TIME_TO_COMMIT now
      (ready_batches T (max_aggregated_blocks_to_commit config)
        (ready_for_commit_rows bl aa pv (db_tables d)))"
  shows "op = (if proofs \<noteq> [] then Some (OpCommitProof proofs)
     else if commits \<noteq> [] then Some (OpCommitL1Batch commits) else None)"
proof -
  obtain op1 d1 where op1: "get_commit_proof_operation T (aggregator_new config) now d = (Ok op1, d1)"
    and rest: "(case op1 of Some o' \<Rightarrow> io_return (Some o')
      | None \<Rightarrow> get_commit_l1_batch_operation T (aggregator_new config) now bl aa pv) d1 = (Ok op, d')"
    using assms(1) by (auto simp: get_next_ready_operation_def io_ok)
  have same: "db_tables d1 = db_tables d"
    using proof_operation_Ok [OF op1] by (auto dest: ready_for_proof_Ok)
  have "op1 = (if proofs = [] then None else Some (OpCommitProof proofs))"
    using proof_operation_Ok [OF op1] extract_pick [OF _ refl _ ready_rows_sorted(2)]
    unfolding proofs_def
    by (auto simp: aggregator_new_def ready_batches_def dest!: ready_for_proof_Ok)
  moreover have "op = (if commits = [] then None else Some (OpCommitL1Batch commits))" if "op1 = None"
    using rest that same extract_pick [OF _ refl _ ready_rows_sorted(1)]
    unfolding commits_def
    by (auto simp: aggregator_new_def ready_batches_def dest!: commit_operation_Ok ready_for_commit_Ok)
  ultimately show ?thesis using rest by (auto split: if_splits)
qed

section \<open>Inscriptions in flight\<close>

lemma latest_history_mem:
  assumes "hs \<noteq> []"
  shows "\<exists>h \<in> set hs. latest_history hs = Some h"
proof -
  let ?ls = "filter (\<lambda>h. list_all (\<lambda>h'. hs_created_at h' \<le> hs_created_at h) hs) hs"
  have "Max (hs_created_at ` set hs) \<in> hs_created_at ` set hs" using assms by (intro Max_in) auto
  then obtain m where "m \<in> set hs" "hs_created_at m = Max (hs_created_at ` set hs)" by auto
  then have "m \<in> set ?ls" by (auto simp: list_all_iff)
  then obtain h rest where ls: "?ls = h # rest" by (cases ?ls) auto
  then have "latest_history hs = Some (last ?ls)" by (simp add: latest_history_def)
  moreover have "last ?ls \<in> set ?ls" unfolding ls by (rule last_in_set) simp
  ultimately show ?thesis by auto
qed

lemma filter_is: "distinct xs \<Longrightarrow> y \<in> set xs \<Longrightarrow> filter (\<lambda>x. x = y) xs = [y]"
  by (induction xs) (auto simp: filter_empty_conv)

lemma filter_unique:
  assumes "distinct (map f xs)" "y \<in> set xs" "p y" "\<And>x. x \<in> set xs \<Longrightarrow> p x \<Longrightarrow> f x = f y"
  shows "filter p xs = [y]"
proof -
  have "p x \<longleftrightarrow> x = y" if "x \<in> set xs" for x
    using assms(3) assms(4) [OF that] distinct_map_eq [OF assms(1) that assms(2)] by blast
  then have "filter p xs = filter (\<lambda>x. x = y) xs" by (intro filter_cong refl)
  also have "\<dots> = [y]" using assms(1,2) by (intro filter_is) (simp_all add: distinct_map)
  finally show ?thesis .
qed

definition inflight_count :: "tables \<Rightarrow> nat" where
  "inflight_count t =
     length (filter (\<lambda>i. request_state t i = Inscribed) (request_ids t))"

text \<open>The query returns each request once.\<close>

lemma length_inflight_rows:
  assumes "sender_inv t"
  shows "length (inflight_rows t) = inflight_count t"
proof -
  let ?m = "\<lambda>r. filter (\<lambda>h. hs_inscription_request_id h = rq_id r \<and> rq_confirmed_history_id r = None
      \<and> map_option hs_id (latest_history (histories_of t (rq_id r))) = Some (hs_id h)) (request_history t)"
  have distinct: "distinct (map rq_id (inscriptions_request t))"
    using assms by (simp add: sender_inv_parts request_ids_def)
  have one: "length (?m r) = (if request_state t (rq_id r) = Inscribed then 1 else 0)"
    if r: "r \<in> set (inscriptions_request t)" for r
  proof -
    have conf: "request_confirmed t (rq_id r) \<longleftrightarrow> rq_confirmed_history_id r \<noteq> None"
      using r distinct_map_eq [of rq_id "inscriptions_request t" _ r] distinct
      by (auto simp: request_confirmed_def list_ex_iff)
    consider "rq_confirmed_history_id r \<noteq> None" | "histories_of t (rq_id r) = []"
      | h where "rq_confirmed_history_id r = None" "h \<in> set (histories_of t (rq_id r))"
        "latest_history (histories_of t (rq_id r)) = Some h"
      using latest_history_mem [of "histories_of t (rq_id r)"] by blast
    then show ?thesis
    proof cases
      case 2
      then show ?thesis by (auto simp: request_state_def latest_history_def)
    next
      case 3
      have "?m r = [h]"
        using assms 3
        by (intro filter_unique [of hs_id]) (auto simp: histories_of_def sender_inv_parts history_ids_def)
      then show ?thesis using 3 conf by (auto simp: request_state_def)
    qed (simp add: request_state_def conf)
  qed
  have "length (inflight_rows t) = sum_list (map (\<lambda>r. length (?m r)) (inscriptions_request t))"
    by (simp add: inflight_rows_def length_concat comp_def)
  also have "\<dots> = sum_list (map (\<lambda>r. if request_state t (rq_id r) = Inscribed then 1 else 0)
      (inscriptions_request t))"
    using one by (intro arg_cong [of _ _ sum_list] map_cong) auto
  also have "\<dots> = inflight_count t"
    by (simp add: inflight_count_def request_ids_def filter_map comp_def
        sum_list_map_filter' [symmetric] sum_list_triv)
  finally show ?thesis .
qed

lemma length_filter_mono:
  "(\<And>x. x \<in> set xs \<Longrightarrow> P x \<Longrightarrow> Q x) \<Longrightarrow> length (filter P xs) \<le> length (filter Q xs)"
  by (induction xs) auto

lemma inflight_count_confirming:
  assumes "confirming t0 t" "request_ids t = request_ids t0"
  shows "inflight_count t \<le> inflight_count t0"
  unfolding inflight_count_def assms(2)
proof (rule length_filter_mono)
  fix i
  assume "request_state t i = Inscribed"
  moreover have "(request_state t0 i, request_state t i) \<in> {(Inscribed, Confirmed)}\<^sup>="
    using assms(1) by (simp add: phase_inv_def requests_move_def)
  ultimately show "request_state t0 i = Inscribed" by auto
qed

lemma length_filter_insert_one:
  assumes "distinct xs" "\<And>x. x \<in> set xs \<Longrightarrow> P x \<Longrightarrow> x \<noteq> a \<Longrightarrow> Q x"
  shows "length (filter P xs) \<le> Suc (length (filter Q xs))"
  using assms
proof (induction xs)
  case (Cons x xs)
  show ?case
  proof (cases "x = a")
    case True
    then have "length (filter P xs) \<le> length (filter Q xs)"
      using Cons.prems by (intro length_filter_mono) auto
    then show ?thesis by simp
  next
    case False
    have "length (filter P xs) \<le> Suc (length (filter Q xs))" using Cons by simp
    then show ?thesis using Cons.prems(2) [of x] False by auto
  qed
qed simp

lemma inflight_count_add_history:
  assumes "sender_inv t"
  shows "inflight_count (add_history h t) \<le> Suc (inflight_count t)"
  unfolding inflight_count_def request_ids_history_writes
proof (rule length_filter_insert_one [where a = "hs_inscription_request_id h"])
  show "distinct (request_ids t)" using assms by (simp add: sender_inv_parts)
qed (auto simp: request_state_def split: if_splits)

lemma send_all_bound:
  "io_spec service_tables (\<lambda>t. sender_inv t \<and> inflight_count t \<le> k)
     (io_for rs (\<lambda>r. send_inscription_tx L T I r c))
     (\<lambda>_ t. sender_inv t \<and> inflight_count t \<le> k + length rs)
     (\<lambda>t. sender_inv t \<and> inflight_count t \<le> k + length rs)"
proof (induction rs arbitrary: k)
  case Nil
  then show ?case by (simp add: io_spec_def)
next
  case (Cons r rs)
  have inv: "io_spec service_tables sender_inv (send_inscription_tx L T I r c) (\<lambda>_. sender_inv) sender_inv"
    using send_inscription_tx_inv io_pres_spec [of sender_inv service_tables] by blast
  have "io_spec service_tables (\<lambda>t. sender_inv t \<and> inflight_count t \<le> k) (send_inscription_tx L T I r c)
      (\<lambda>_ t. inflight_count t \<le> Suc k) (\<lambda>t. inflight_count t \<le> Suc k)"
    by (rule io_spec_at, rule io_spec_weaken [OF send_inscription_tx_effect])
      (auto dest: inflight_count_add_history intro: le_trans)
  from io_spec_conj [OF inv this]
  have "io_spec service_tables (\<lambda>t. sender_inv t \<and> inflight_count t \<le> k) (send_inscription_tx L T I r c)
      (\<lambda>_ t. sender_inv t \<and> inflight_count t \<le> Suc k)
      (\<lambda>t. sender_inv t \<and> inflight_count t \<le> k + length (r # rs))"
    by (elim io_spec_weaken) auto
  moreover have "io_spec service_tables (\<lambda>t. sender_inv t \<and> inflight_count t \<le> Suc k)
      (io_for rs (\<lambda>r. send_inscription_tx L T I r c))
      (\<lambda>_ t. sender_inv t \<and> inflight_count t \<le> k + length (r # rs))
      (\<lambda>t. sender_inv t \<and> inflight_count t \<le> k + length (r # rs))"
    using Cons [of "Suc k"] by simp
  ultimately show ?case unfolding io_for.simps by (rule io_spec_bind)
qed

lemma saturating_sub_pos:
  assumes "0 \<le> sint b" "0 < sint (saturating_sub_i64 a b)"
  shows "sint (saturating_sub_i64 a b) = sint a - sint b"
proof -
  have "sint a < 2 ^ 63" "- (2 ^ 63) \<le> sint a" "sint b < 2 ^ 63"
    using sint_lt [of a] sint_ge [of a] sint_lt [of b] by simp_all
  define x where "x = max (- (2 ^ 63)) (min (2 ^ 63 - 1) (sint a - sint b))"
  have "- (2 ^ 63) \<le> x" "x < 2 ^ 63" by (auto simp: x_def)
  then have "sint (saturating_sub_i64 a b) = x"
    unfolding saturating_sub_i64_def x_def [symmetric] by (rule sint_of_int_i64)
  then show ?thesis using assms \<open>sint a < 2 ^ 63\<close> by (auto simp: x_def max_def min_def split: if_splits)
qed

lemma inflight_query:
  assumes "sender_inv t0"
  shows "io_spec service_tables (\<lambda>t. t = t0) (on_db DbError get_inflight_inscriptions)
     (\<lambda>l t. t = t0 \<and> length l = inflight_count t0) (\<lambda>t. t = t0)"
proof (rule io_spec_on_db, rule io_spec_query [OF inflight_reads_only])
  fix d l d'
  assume "db_tables d = t0" "get_inflight_inscriptions d = (Ok l, d')"
  then show "db_tables d = t0 \<and> length l = inflight_count t0"
    using length_inflight_rows [OF assms]
    by (auto simp: get_inflight_inscriptions_def io_ok dest!: select_rows_Ok res_map_Ok_length)
qed simp

lemma list_new_query:
  "io_spec service_tables (\<lambda>t. t = t0) (on_db DbError (list_new_inscription_request n))
     (\<lambda>l t. t = t0 \<and> length l \<le> nat (sint n)) (\<lambda>t. t = t0)"
proof (rule io_spec_on_db, rule io_spec_query [OF list_new_reads_only])
  fix d l d'
  assume "db_tables d = t0" "list_new_inscription_request n d = (Ok l, d')"
  then show "db_tables d = t0 \<and> length l \<le> nat (sint n)"
    by (auto simp: list_new_inscription_request_def io_ok sql_limit_Ok dest!: select_rows_Ok res_map_Ok_length)
qed simp

lemma send_new_bound:
  assumes inv: "sender_inv t0" and small: "inflight_count t0 < 2 ^ 63"
  shows "io_spec service_tables (\<lambda>t. t = t0) (send_new_inscription_txs L T I config)
     (\<lambda>_ t. int (inflight_count t) \<le> max (int (inflight_count t0)) (sint (max_txs_in_flight config)))
     (\<lambda>t. int (inflight_count t) \<le> max (int (inflight_count t0)) (sint (max_txs_in_flight config)))"
    (is "io_spec _ _ _ (\<lambda>_. ?B) ?B")
  unfolding send_new_inscription_txs_def Let_def
proof (rule io_spec_bind [where R = "\<lambda>l t. t = t0 \<and> length l = inflight_count t0"])
  show "io_spec service_tables (\<lambda>t. t = t0) (on_db DbError get_inflight_inscriptions)
      (\<lambda>l t. t = t0 \<and> length l = inflight_count t0) ?B"
    by (rule io_spec_weaken [OF inflight_query [OF inv]]) auto
  fix l :: "btc_inscription_request list"
  let ?slots = "saturating_sub_i64 (max_txs_in_flight config) (of_nat (length l))"
  show "io_spec service_tables (\<lambda>t. t = t0 \<and> length l = inflight_count t0)
      (if 0 < sint ?slots
       then io_bind (on_db DbError (list_new_inscription_request ?slots))
         (\<lambda>new_requests. io_for new_requests
            (\<lambda>r. send_inscription_tx L T I r inscription_config_default))
       else io_return ()) (\<lambda>_. ?B) ?B"
  proof (rule io_spec_if)
    assume pos: "0 < sint ?slots"
    have "io_spec service_tables (\<lambda>t. (t = t0 \<and> length new \<le> nat (sint ?slots)))
        (io_for new (\<lambda>r. send_inscription_tx L T I r inscription_config_default)) (\<lambda>_. ?B) ?B"
      if l: "length l = inflight_count t0" for new
    proof (rule io_spec_at)
      fix t1
      assume "t1 = t0 \<and> length new \<le> nat (sint ?slots)"
      moreover have "sint ?slots = sint (max_txs_in_flight config) - int (inflight_count t0)"
        using saturating_sub_pos [OF _ pos] sint_of_nat_i64 [OF small] l by simp
      ultimately show "io_spec service_tables (\<lambda>t. t = t1)
          (io_for new (\<lambda>r. send_inscription_tx L T I r inscription_config_default)) (\<lambda>_. ?B) ?B"
        using inv pos
        by (intro io_spec_weaken [OF send_all_bound [of "inflight_count t0"]]) auto
    qed
    note send = this
    show "io_spec service_tables (\<lambda>t. t = t0 \<and> length l = inflight_count t0)
      (io_bind (on_db DbError (list_new_inscription_request ?slots))
         (\<lambda>new_requests. io_for new_requests
            (\<lambda>r. send_inscription_tx L T I r inscription_config_default))) (\<lambda>_. ?B) ?B"
    proof (rule io_spec_at)
      fix t1
      assume "t1 = t0 \<and> length l = inflight_count t0"
      then show "io_spec service_tables (\<lambda>t. t = t1)
        (io_bind (on_db DbError (list_new_inscription_request ?slots))
           (\<lambda>new_requests. io_for new_requests
              (\<lambda>r. send_inscription_tx L T I r inscription_config_default))) (\<lambda>_. ?B) ?B"
        using send
        by (intro io_spec_bind [where R = "\<lambda>new t. t = t0 \<and> length new \<le> nat (sint ?slots)"]
            io_spec_weaken [OF list_new_query [of t0]]) auto
    qed
  qed (auto intro: io_spec_return)
qed

lemma manager_inflight_bound:
  assumes inv: "sender_inv t0" "services_inv t0" and small: "inflight_count t0 < 2 ^ 63"
  shows "io_spec service_tables (\<lambda>t. t = t0) (manager_loop_iteration L T I config)
     (\<lambda>_ t. int (inflight_count t) \<le> max (int (inflight_count t0)) (sint (max_txs_in_flight config)))
     (\<lambda>t. int (inflight_count t) \<le> max (int (inflight_count t0)) (sint (max_txs_in_flight config)))"
    (is "io_spec _ _ _ (\<lambda>_. ?B) ?B")
  unfolding manager_loop_iteration_def
proof (rule io_spec_bind)
  let ?P = "\<lambda>t. sender_inv t \<and> confirming t0 t \<and> request_ids t = request_ids t0"
  have "io_pres (\<lambda>s. sender_inv (service_tables s)) (update_inscription_status_or_resend L T I config)"
    unfolding update_inscription_status_or_resend_def update_one_def confirm_or_resend_def
      resend_inscription_def
    by (intro io_pres_bind io_pres_for io_pres_if io_pres_option io_pres_basic io_pres_node
        send_inscription_tx_inv io_pres_on_db [OF confirm_inscription_inv]
        io_pres_reads_only inflight_reads_only last_history_reads_only total_reads_only)
  then have "io_spec service_tables ?P (update_inscription_status_or_resend L T I config) (\<lambda>_. ?P) ?P"
    using update_status_phase [of t0 L T I config]
      update_status_same_requests [of "\<lambda>is _. is = request_ids t0" L T I config]
      io_pres_spec [of sender_inv service_tables]
      io_pres_spec [of "\<lambda>t. request_ids t = request_ids t0" service_tables]
    by (intro io_spec_conj) blast+
  then show "io_spec service_tables (\<lambda>t. t = t0) (update_inscription_status_or_resend L T I config)
      (\<lambda>_. ?P) ?B"
    using inv inflight_count_confirming
    by (elim io_spec_weaken) (force simp: phase_inv_def)+
  show "io_spec service_tables ?P (send_new_inscription_txs L T I config) (\<lambda>_. ?B) ?B"
  proof (rule io_spec_at)
    fix t1
    assume t1: "?P t1"
    then have le: "inflight_count t1 \<le> inflight_count t0" by (simp add: inflight_count_confirming)
    then show "io_spec service_tables (\<lambda>t. t = t1) (send_new_inscription_txs L T I config) (\<lambda>_. ?B) ?B"
      using t1 small by (intro io_spec_weaken [OF send_new_bound [of t1]]) auto
  qed
qed

section \<open>One request\<close>

lemma on_node_iff:
  "on_node m (d, c, w) = (Ok a, s') \<longleftrightarrow> (\<exists>w'. m w = (Ok a, w') \<and> s' = (d, c, w'))"
  "on_node m (d, c, w) = (Err e, s') \<longleftrightarrow> (\<exists>b w'. m w = (Err b, w') \<and> e = NodeError b \<and> s' = (d, c, w'))"
  by (cases "m w"; cases "fst (m w)"; auto simp: on_node_def io_zoom_def io_map_err_def)+

lemma on_inscriber_iff:
  "on_inscriber m (d, x) = (Ok a, s') \<longleftrightarrow> (\<exists>x'. m x = (Ok a, x') \<and> s' = (d, x'))"
  "on_inscriber m (d, x) = (Err e, s') \<longleftrightarrow>
     (\<exists>b x'. m x = (Err b, x') \<and> e = InscriberFailed b \<and> s' = (d, x'))"
  by (cases "m x"; cases "fst (m x)"; auto simp: on_inscriber_def io_zoom_def io_map_err_def)+

lemma on_db_iff:
  "on_db f q (d, x) = (Ok a, s') \<longleftrightarrow> (\<exists>d'. q d = (Ok a, d') \<and> s' = (d', x))"
  "on_db f q (d, x) = (Err e, s') \<longleftrightarrow> (\<exists>b d'. q d = (Err b, d') \<and> e = f b \<and> s' = (d', x))"
  by (cases "q d"; cases "fst (q d)"; auto simp: on_db_def io_zoom_def io_map_err_def)+

lemmas service_iffs = on_node_iff on_inscriber_iff on_db_iff

lemma io_bind_Err_iff:
  "io_bind m f s = (Err e, s'') \<longleftrightarrow>
     m s = (Err e, s'') \<or> (\<exists>a s'. m s = (Ok a, s') \<and> f a s' = (Err e, s''))"
  by (auto simp: io_bind_def split: prod.splits res.splits)

lemma res_Err_iff:
  "unwrap x = Err e \<longleftrightarrow> False"
  "res_of_option f x = Err e \<longleftrightarrow> x = None \<and> e = f"
  by (cases x; auto)+

text \<open>A database error of the send comes from recording it: the transactions are already out.\<close>

lemma send_inscription_tx_db_error:
  assumes "send_inscription_tx L T I tx config (d, c, w) = (Err (DbError e), d', c', w')"
  shows "db_tables d' = db_tables d \<and> (\<exists>m info w1.
     message_from_bytes T (unwrap_or_default (ir_inscription_message tx)) = Some m
   \<and> inscribe L I m config (c, w1) = (Ok info, c', w'))"
proof -
  have "db_tables d' = db_tables d"
    using io_specD [OF send_inscription_tx_effect refl assms] by simp
  moreover have "\<exists>m info w1. message_from_bytes T (unwrap_or_default (ir_inscription_message tx)) = Some m
      \<and> inscribe L I m config (c, w1) = (Ok info, c', w')"
    using assms
    by (auto simp: send_inscription_tx_def Let_def io_bind_Err_iff service_iffs io_lift_Ok res_Err_iff)
  ultimately show ?thesis by simp
qed

lemma insert_history_Ok:
  assumes "insert_inscription_request_history T c r rid sc sr fees block d = (Ok x, d')"
  shows "\<exists>row. db_tables d' = add_history row (db_tables d)
    \<and> hs_inscription_request_id row = rid \<and> hs_commit_tx_id row = txid_to_string T c
    \<and> hs_reveal_tx_id row = txid_to_string T r \<and> hs_sent_at_block row = as_i32 block
    \<and> hs_confirmed_at row = None"
  using insert_row_Ok [OF assms [unfolded insert_inscription_request_history_def]] by auto

lemma send_inscription_tx_Ok:
  assumes "send_inscription_tx L T I tx config (d, c, w) = (Ok (), d', c', w')"
  shows "\<exists>height w1 m info row.
     ops_fetch_block_height (ins_client I) w = (Ok height, w1)
   \<and> message_from_bytes T (unwrap_or_default (ir_inscription_message tx)) = Some m
   \<and> inscribe L I m config (c, w1) = (Ok info, c', w')
   \<and> db_tables d' = add_history row (db_tables d)
   \<and> hs_inscription_request_id row = ir_id tx
   \<and> hs_commit_tx_id row = txid_to_string T (ftx_txid (final_commit_tx info))
   \<and> hs_reveal_tx_id row = txid_to_string T (ftx_txid (final_reveal_tx info))
   \<and> hs_sent_at_block row = as_i32 (ucast height)"
  using assms
  by (auto simp: send_inscription_tx_def Let_def io_bind_Ok_iff service_iffs io_lift_Ok
      dest!: insert_history_Ok)

text \<open>The last history of a request, the one with the largest id.\<close>

definition last_history :: "tables \<Rightarrow> i64 \<Rightarrow> request_history_row \<Rightarrow> bool" where
  "last_history t rid row \<longleftrightarrow> row \<in> set (histories_of t rid)
     \<and> (\<forall>h \<in> set (histories_of t rid). sint (hs_id h) \<le> sint (hs_id row))"

lemma get_last_history_Ok:
  assumes "get_last_inscription_request_history T rid d = (Ok x, d')"
  shows "db_tables d' = db_tables d \<and> (case x of
       None \<Rightarrow> histories_of (db_tables d) rid = []
     | Some h \<Rightarrow> \<exists>row. last_history (db_tables d) rid row \<and> request_history_from T row = (Ok h :: (db_error, _) res))"
proof -
  let ?hs = "sort_key (\<lambda>h. - sint (hs_id h)) (histories_of (db_tables d) rid)"
  obtain rows d1 where rows: "select_rows (\<lambda>t. sort_key (\<lambda>h. - sint (hs_id h)) (histories_of t rid)) d
      = (Ok rows, d1)"
    and rest: "(case rows of [] \<Rightarrow> io_return None
      | h # _ \<Rightarrow> io_bind (io_lift (request_history_from T h)) (\<lambda>x. io_return (Some x))) d1 = (Ok x :: (db_error, _) res, d')"
    using assms by (auto simp: get_last_inscription_request_history_def io_ok)
  have "rows = ?hs" "db_tables d1 = db_tables d" using select_rows_Ok [OF rows] by simp_all
  show ?thesis
  proof (cases ?hs)
    case Nil
    then have "histories_of (db_tables d) rid = []" by (metis length_0_conv length_sort)
    then show ?thesis using rest \<open>rows = ?hs\<close> \<open>db_tables d1 = db_tables d\<close> Nil by auto
  next
    case (Cons h hs)
    have "sorted (map (\<lambda>h. - sint (hs_id h)) (h # hs))" unfolding Cons [symmetric] by simp
    then have "\<forall>g \<in> set (h # hs). sint (hs_id g) \<le> sint (hs_id h)" by auto
    then have "last_history (db_tables d) rid h"
      unfolding last_history_def Cons [symmetric] by (metis Cons list.set_intros(1) set_sort)
    then show ?thesis
      using rest \<open>rows = ?hs\<close> \<open>db_tables d1 = db_tables d\<close> Cons by (auto simp: io_ok io_lift_Ok)
  qed
qed

lemma confirm_or_resend_Ok:
  assumes "confirm_or_resend L T I config ins h (d, c, w) = (Ok (), d', c', w')"
  obtains (confirmed) now where
      "ops_check_tx_confirmation (ins_client I) (rh_reveal_tx_id h) (block_confirmations config) w
         = (Ok True, w')"
      "db_tables d' = mark_request (ir_id ins) (rh_id h) (mark_history (rh_id h) now (db_tables d))"
      "c' = c"
  | (waiting) w1 height where
      "ops_check_tx_confirmation (ins_client I) (rh_reveal_tx_id h) (block_confirmations config) w
         = (Ok False, w1)"
      "ops_fetch_block_height (ins_client I) w1 = (Ok height, w')"
      "sint (ucast height :: i64) < sint (rh_sent_at_block h + ucast BLOCK_RESEND)"
      "db_tables d' = db_tables d" "c' = c"
  | (resent) w1 height w2 m info w3 row' where
      "ops_check_tx_confirmation (ins_client I) (rh_reveal_tx_id h) (block_confirmations config) w
         = (Ok False, w1)"
      "ops_fetch_block_height (ins_client I) w1 = (Ok height, w2)"
      "\<not> sint (ucast height :: i64) < sint (rh_sent_at_block h + ucast BLOCK_RESEND)"
      "message_from_bytes T (unwrap_or_default (ir_inscription_message ins)) = Some m"
      "inscribe L I m \<lparr>fee_multiplier = of_nat (length (histories_of (db_tables d) (ir_id ins))) + 1\<rparr>
         (c, w3) = (Ok info, c', w')"
      "db_tables d' = add_history row' (db_tables d)" "hs_inscription_request_id row' = ir_id ins"
      "hs_reveal_tx_id row' = txid_to_string T (ftx_txid (final_reveal_tx info))"
proof -
  obtain conf w1 where check: "ops_check_tx_confirmation (ins_client I) (rh_reveal_tx_id h)
      (block_confirmations config) w = (Ok conf, w1)"
    using assms by (auto simp: confirm_or_resend_def io_bind_Ok_iff service_iffs)
  show thesis
  proof (cases conf)
    case True
    then have run: "confirm_inscription (ir_id ins) (rh_id h) d = (Ok (), d')" "c' = c" "w' = w1"
      using assms check by (auto simp: confirm_or_resend_def io_bind_Ok_iff service_iffs)
    obtain now where "db_tables d' = mark_request (ir_id ins) (rh_id h)
        (mark_history (rh_id h) now (db_tables d))"
      using io_spec_Ok [OF confirm_effect refl run(1)] by blast
    then show thesis using confirmed check True run by simp
  next
    case False
    then obtain height w2 where height: "ops_fetch_block_height (ins_client I) w1 = (Ok height, w2)"
      and rest: "(if sint (rh_sent_at_block h + ucast BLOCK_RESEND) > sint (ucast height :: i64)
        then io_return () else resend_inscription L T I ins) (d, c, w2) = (Ok (), d', c', w')"
      using assms check by (auto simp: confirm_or_resend_def io_bind_Ok_iff service_iffs)
    show thesis
    proof (cases "sint (ucast height :: i64) < sint (rh_sent_at_block h + ucast BLOCK_RESEND)")
      case True
      then show thesis using waiting check False height rest by simp
    next
      case late: False
      then obtain d2 where total: "db_tables d2 = db_tables d"
        and send: "send_inscription_tx L T I ins
          \<lparr>fee_multiplier = of_nat (length (histories_of (db_tables d) (ir_id ins))) + 1\<rparr> (d2, c, w2)
          = (Ok (), d', c', w')"
        using rest by (auto simp: resend_inscription_def get_total_inscription_request_history_def
            io_bind_Ok_iff service_iffs dest!: select_rows_Ok)
      from send_inscription_tx_Ok [OF send] total show thesis
        using resent check False height late by auto
    qed
  qed
qed

lemma update_one_Ok:
  assumes "update_one L T I config ins (d, c, w) = (Ok (), d', c', w')"
  obtains (none) "histories_of (db_tables d) (ir_id ins) = []" "db_tables d' = db_tables d" "c' = c" "w' = w"
  | (confirmed) row h now where
      "last_history (db_tables d) (ir_id ins) row" "request_history_from T row = (Ok h :: (db_error, _) res)"
      "ops_check_tx_confirmation (ins_client I) (rh_reveal_tx_id h) (block_confirmations config) w
         = (Ok True, w')"
      "db_tables d' = mark_request (ir_id ins) (rh_id h) (mark_history (rh_id h) now (db_tables d))"
      "c' = c"
  | (waiting) row h w1 height where
      "last_history (db_tables d) (ir_id ins) row" "request_history_from T row = (Ok h :: (db_error, _) res)"
      "ops_check_tx_confirmation (ins_client I) (rh_reveal_tx_id h) (block_confirmations config) w
         = (Ok False, w1)"
      "ops_fetch_block_height (ins_client I) w1 = (Ok height, w')"
      "sint (ucast height :: i64) < sint (rh_sent_at_block h + ucast BLOCK_RESEND)"
      "db_tables d' = db_tables d" "c' = c"
  | (resent) row h w1 height w2 m info w3 row' where
      "last_history (db_tables d) (ir_id ins) row" "request_history_from T row = (Ok h :: (db_error, _) res)"
      "ops_check_tx_confirmation (ins_client I) (rh_reveal_tx_id h) (block_confirmations config) w
         = (Ok False, w1)"
      "ops_fetch_block_height (ins_client I) w1 = (Ok height, w2)"
      "\<not> sint (ucast height :: i64) < sint (rh_sent_at_block h + ucast BLOCK_RESEND)"
      "message_from_bytes T (unwrap_or_default (ir_inscription_message ins)) = Some m"
      "inscribe L I m \<lparr>fee_multiplier = of_nat (length (histories_of (db_tables d) (ir_id ins))) + 1\<rparr>
         (c, w3) = (Ok info, c', w')"
      "db_tables d' = add_history row' (db_tables d)" "hs_inscription_request_id row' = ir_id ins"
      "hs_reveal_tx_id row' = txid_to_string T (ftx_txid (final_reveal_tx info))"
proof -
  obtain x d1 where last: "get_last_inscription_request_history T (ir_id ins) d = (Ok x, d1)"
    and rest: "(case x of None \<Rightarrow> io_return () | Some h \<Rightarrow> confirm_or_resend L T I config ins h)
      (d1, c, w) = (Ok (), d', c', w')"
    using assms(1) by (auto simp: update_one_def io_bind_Ok_iff service_iffs)
  have d1: "db_tables d1 = db_tables d" using get_last_history_Ok [OF last] by simp
  show thesis
  proof (cases x)
    case None
    then show thesis using rest get_last_history_Ok [OF last] none by auto
  next
    case x: (Some h)
    with get_last_history_Ok [OF last] obtain row where
      row: "last_history (db_tables d) (ir_id ins) row" "request_history_from T row = (Ok h :: (db_error, _) res)"
      by auto
    from rest [unfolded x option.case] show thesis
    proof (cases rule: confirm_or_resend_Ok)
      case (confirmed now)
      then show thesis using that(2) row d1 by metis
    next
      case (waiting w1 height)
      then show thesis using that(3) row d1 by metis
    next
      case (resent w1 height w2 m info w3 row')
      then show thesis using that(4) row d1 by metis
    qed
  qed
qed

end
