(* ===== verification/Ref_Sender.thy ===== *)
theory Ref_Sender
  imports Ref_Node Ref_Hex Sender_Facts
begin

text \<open>
  A concrete instance of the sender's libraries and a concrete database: one batch whose commitment
  is confirmed and whose proof is available.  The text of a transaction id is hexadecimal, as
  \<^verbatim>\<open>Txid\<close> prints it, in reversed byte order.
\<close>

section \<open>Transaction ids as text\<close>

definition ref_sender :: sender_lib where
  "ref_sender =
     \<lparr>txid_to_string = (\<lambda>t. hex_encode (rev t)),
      txid_from_str = (\<lambda>s. if length s = 64 then map_option rev (hex_decode s) else None),
      message_to_bytes = (\<lambda>m. []),
      message_from_bytes = (\<lambda>s. Some demo_message),
      tx_serialize = (\<lambda>tx. Some [])\<rparr>"

lemma ref_txid_text: "length t = 32 \<Longrightarrow> txid_from_str ref_sender (txid_to_string ref_sender t) = Some t"
  by (simp add: ref_sender_def)

section \<open>A database\<close>

definition demo_batch :: l1_batch_row where
  "demo_batch = \<lparr>lb_number = 1, lb_timestamp = 100, lb_hash = Some (replicate 32 3),
     lb_protocol_version = Some 24, lb_commitment = Some [], lb_pubdata_input = None\<rparr>"

definition demo_request :: "i64 \<Rightarrow> i64 option \<Rightarrow> inscription_request_row" where
  "demo_request i conf = \<lparr>rq_id = i, rq_request_type = ''CommitProofOnchain'',
     rq_inscription_message = Some [], rq_predicted_fee = Some 732, rq_confirmed_history_id = conf\<rparr>"

definition demo_history :: "i64 \<Rightarrow> i64 \<Rightarrow> nat option \<Rightarrow> request_history_row" where
  "demo_history i rid conf = \<lparr>hs_id = i,
     hs_commit_tx_id = txid_to_string ref_sender (replicate 32 9),
     hs_reveal_tx_id = txid_to_string ref_sender (replicate 32 8),
     hs_inscription_request_id = rid, hs_signed_commit_tx = [], hs_signed_reveal_tx = [],
     hs_actual_fees = 732, hs_sent_at_block = 1, hs_confirmed_at = conf, hs_created_at = 0\<rparr>"

definition demo_tables ::
    "inscription_request_row list \<Rightarrow> request_history_row list \<Rightarrow> batch_inscription_row list \<Rightarrow> tables" where
  "demo_tables rs hs bs =
     \<lparr>l1_batches = [demo_batch], commitments = [], protocol_versions = [],
      proof_generation_details = [], inscriptions_request = rs, request_history = hs,
      batch_inscription = bs,
      data_availability = [\<lparr>da_l1_batch_number = 1, da_is_proof = True, da_blob_id = ascii ''blob'',
         da_inclusion_data = None, da_sent_at = 0\<rparr>],
      transactions = [], miniblocks = []\<rparr>"

definition demo_db :: "tables \<Rightarrow> bool list \<Rightarrow> db" where
  "demo_db t faults = \<lparr>db_tables = t, next_request_id = 2, next_history_id = 2, db_now = 5,
     db_faults = faults\<rparr>"

lemma demo_db_tables [simp]: "db_tables (demo_db t f) = t"
  by (simp add: demo_db_def)

text \<open>The batch has its commitment confirmed.\<close>

definition demo_committed :: tables where
  "demo_committed = demo_tables [demo_request 1 (Some 1)] [demo_history 1 1 (Some 4)]
     [\<lparr>bi_l1_batch_number = 1, bi_commit_id = 1, bi_proof_id = None\<rparr>]"

definition demo_config :: btc_sender_config where
  "demo_config = btc_sender_config_for_tests\<lparr>cfg_da_identifier := ascii ''celestia''\<rparr>"

lemmas demo_rows = demo_tables_def demo_request_def demo_history_def demo_batch_def

lemma demo_committed_inv: "lifecycle_inv demo_committed"
  by (simp add: demo_committed_def lifecycle_inv_def sender_inv_defs proofs_follow_commits_def
      confirmed_by_own_history_def demo_rows)

lemma demo_committed_stage: "batch_stage demo_committed 1 = CommitConfirmed"
  by (simp add: demo_committed_def batch_stage_def link_stage_def batch_link_def request_state_def
      request_confirmed_def demo_rows)

section \<open>Runs\<close>

lemma demo_prepare_fees:
  "\<exists>info. prepare_inscribe ref_lib demo demo_message inscription_config_default None
      (inscriber_context_new, n) = (Ok info, inscriber_context_new, n)
     \<and> reveal_fee (reveal_tx_output_info info) = 418 \<and> commit_tx_fee (commit_tx_output_info info) = 314"
proof -
  obtain d where d: "inscription_data_new ref_lib demo_message (be_bytes 32 5) Regtest = Ok d"
    "script_size d = 133" "spend_info d = TaprootSpendInfo 5"
    using demo_data_new by blast
  show ?thesis
    by (simp add: prepare_inscribe_def inscriber_context_new_def d demo_run_defs)
qed

text \<open>The proof operation of the batch, and the message it is inscribed with.\<close>

definition demo_details :: btc_l1_block_details where
  "demo_details = \<lparr>bd_number = 1, bd_timestamp = 100, bd_hash = Some (replicate 32 3),
     bd_commit_tx_id = replicate 32 9, bd_reveal_tx_id = replicate 32 9, bd_blob_id = ascii ''blob''\<rparr>"

lemma demo_details_number [simp]: "bd_number demo_details = 1"
  by (simp add: demo_details_def)

lemma as_i32_small [simp]: "as_i32 1 = 1" "as_i32 2 = 2"
  by code_simp+

lemma demo_proof_rows:
  "ready_for_proof_rows demo_committed =
     [storage_details demo_batch (txid_to_string ref_sender (replicate 32 9))
        (txid_to_string ref_sender (replicate 32 8))
        \<lparr>da_l1_batch_number = 1, da_is_proof = True, da_blob_id = ascii ''blob'',
         da_inclusion_data = None, da_sent_at = 0\<rparr>]"
  by (simp add: ready_for_proof_rows_def demo_committed_def demo_rows history_txids_def histories_of_def
      latest_history_def)

lemma demo_details_from:
  "block_details_from ref_sender (hd (ready_for_proof_rows demo_committed)) = demo_details"
  by (simp add: demo_proof_rows storage_details_def block_details_from_def unwrap_or_default_def
      ref_txid_text txid_or_zeros_def demo_details_def demo_batch_def)

lemma demo_operation:
  "get_next_ready_operation ref_sender (aggregator_new demo_config) now bl aa pv (demo_db demo_committed [])
     = (Ok (Some (OpCommitProof [demo_details])), demo_db demo_committed [])"
  using demo_details_from
  by (simp add: get_next_ready_operation_def get_commit_proof_operation_def
      get_ready_for_commit_proof_l1_batches_def select_rows_def round_trip_def demo_db_def demo_proof_rows
      sql_limit_def io_bind_def demo_config_def aggregator_new_def btc_sender_config_for_tests_def
      validate_l1_batch_sequence_def extract_ready_subrange_def via_number_criterion_def
      timestamp_deadline_criterion_def demo_details_def limit_of_def)

lemma demo_proof_message:
  "construct_inscription_message ref_lib (aggregator_new demo_config) CommitProofOnchain demo_details
     = Ok demo_message"
  by (simp add: construct_inscription_message_def demo_details_def demo_message_def aggregator_new_def
      demo_config_def)

text \<open>The aggregator requests the proof inscription.\<close>

definition demo_requested :: tables where
  "demo_requested = demo_tables [demo_request 1 (Some 1), demo_request 2 None] [demo_history 1 1 (Some 4)]
     [\<lparr>bi_l1_batch_number = 1, bi_commit_id = 1, bi_proof_id = Some 2\<rparr>]"

lemma demo_aggregate:
  "aggregator_loop_iteration ref_lib ref_sender demo (aggregator_new demo_config) now pv
     (demo_db demo_committed [], inscriber_context_new, n)
   = (Ok (), (demo_db demo_requested [])\<lparr>next_request_id := 3\<rparr>, inscriber_context_new, n)"
proof -
  obtain info where info: "prepare_inscribe ref_lib demo demo_message inscription_config_default None
      (inscriber_context_new, n) = (Ok info, inscriber_context_new, n)"
    "reveal_fee (reveal_tx_output_info info) = 418" "commit_tx_fee (commit_tx_output_info info) = 314"
    using demo_prepare_fees by blast
  have "process_batch ref_lib ref_sender demo (aggregator_new demo_config) CommitProofOnchain demo_details
      (demo_db demo_committed [], inscriber_context_new, n)
    = (Ok (), (demo_db demo_requested [])\<lparr>next_request_id := 3\<rparr>, inscriber_context_new, n)"
    by (simp add: process_batch_def demo_proof_message io_bind_def on_inscriber_def on_db_def io_zoom_def
        io_map_err_def info ref_amount_add_def ref_sender_def via_save_btc_inscriptions_request_def
        insert_row_def round_trip_def demo_db_def demo_committed_def demo_requested_def demo_rows
        add_request_def inscription_request_from_def request_type_from_str_def
        insert_l1_batch_inscription_request_id_def set_proof_request_id_def guarded_update_def
        awaits_proof_id_def update_tables_def link_proof_def update_where_def)
  then show ?thesis
    by (simp add: aggregator_loop_iteration_def on_db_def io_zoom_def io_map_err_def io_bind_def
        demo_operation [unfolded demo_db_def] in_transaction_def round_trip_def demo_db_def)
qed

text \<open>The proof inscription is sent; a node that reports it as confirmed.\<close>

definition demo_inscribed :: tables where
  "demo_inscribed = demo_tables [demo_request 1 (Some 1), demo_request 2 None]
     [demo_history 1 1 (Some 4), (demo_history 2 2 None)
        \<lparr>hs_commit_tx_id := txid_to_string ref_sender (replicate 32 6),
         hs_reveal_tx_id := txid_to_string ref_sender (replicate 32 7)\<rparr>]
     [\<lparr>bi_l1_batch_number = 1, bi_commit_id = 1, bi_proof_id = Some 2\<rparr>]"

definition demo_confirming :: "nat inscriber" where
  "demo_confirming = demo\<lparr>ins_client := demo_client\<lparr>ops_check_tx_confirmation := (\<lambda>t c. io_return True)\<rparr>\<rparr>"

definition demo_proof_request :: btc_inscription_request where
  "demo_proof_request = \<lparr>ir_id = 2, ir_request_type = CommitProofOnchain, ir_inscription_message = Some [],
     ir_predicted_fee = Some 732, ir_confirmed_history_id = None\<rparr>"

lemma demo_confirm:
  "update_one ref_lib ref_sender demo_confirming demo_config demo_proof_request
     (demo_db demo_inscribed [], c, n)
   = (Ok (), demo_db (mark_request 2 2 (mark_history 2 5 demo_inscribed)) [], c, n)"
proof -
  have "txid_from_str ref_sender (txid_to_string ref_sender (replicate 32 k)) = Some (replicate 32 k)" for k
    by (simp add: ref_txid_text)
  then show ?thesis
    by (simp add: update_one_def io_bind_def on_db_def io_zoom_def io_map_err_def
        get_last_inscription_request_history_def select_rows_def round_trip_def demo_db_def
        demo_inscribed_def demo_rows histories_of_def request_history_from_def confirm_or_resend_def
        demo_proof_request_def on_node_def demo_confirming_def demo_def confirm_inscription_def
        db_transaction_def set_history_confirmed_def set_request_confirmed_def guarded_update_def
        update_tables_def mark_history_def mark_request_def update_where_def)
qed

text \<open>The manager's iteration: it confirms the proof inscription and finds nothing new to send.\<close>

definition demo_confirmed :: tables where
  "demo_confirmed = mark_request 2 2 (mark_history 2 5 demo_inscribed)"

lemma demo_confirmed_rows:
  "demo_confirmed = demo_tables [demo_request 1 (Some 1), demo_request 2 (Some 2)]
     [demo_history 1 1 (Some 4), (demo_history 2 2 (Some 5))
        \<lparr>hs_commit_tx_id := txid_to_string ref_sender (replicate 32 6),
         hs_reveal_tx_id := txid_to_string ref_sender (replicate 32 7)\<rparr>]
     [\<lparr>bi_l1_batch_number = 1, bi_commit_id = 1, bi_proof_id = Some 2\<rparr>]"
  by (simp add: demo_confirmed_def demo_inscribed_def demo_tables_def demo_request_def demo_history_def
      mark_request_def mark_history_def update_where_def)

lemma demo_inflight:
  "inflight_rows demo_inscribed = [demo_request 2 None]" "inflight_rows demo_confirmed = []"
  "new_request_rows demo_confirmed = []"
  by (simp_all add: demo_confirmed_rows demo_inscribed_def demo_rows inflight_rows_def new_request_rows_def
      histories_of_def latest_history_def)

lemma demo_get_inflight:
  "get_inflight_inscriptions (demo_db demo_inscribed []) = (Ok [demo_proof_request], demo_db demo_inscribed [])"
  "get_inflight_inscriptions (demo_db demo_confirmed []) = (Ok [], demo_db demo_confirmed [])"
  by (simp_all add: get_inflight_inscriptions_def select_rows_def round_trip_def demo_db_def demo_inflight
      io_bind_def inscription_request_from_def demo_request_def request_type_from_str_def
      demo_proof_request_def)

lemma demo_inscribed_inv: "lifecycle_inv demo_inscribed"
  by (simp add: demo_inscribed_def lifecycle_inv_def sender_inv_defs proofs_follow_commits_def
      confirmed_by_own_history_def request_confirmed_def demo_rows ref_sender_def)

lemma demo_manage:
  "manager_loop_iteration ref_lib ref_sender demo_confirming demo_config (demo_db demo_inscribed [], c, n)
   = (Ok (), demo_db demo_confirmed [], c, n)"
proof -
  have "list_new_inscription_request k (demo_db demo_confirmed []) = (Ok [], demo_db demo_confirmed [])"
    if "0 < sint k" for k
    using that by (simp add: list_new_inscription_request_def select_rows_def round_trip_def demo_db_def
        demo_inflight io_bind_def sql_limit_def)
  then show ?thesis
    by (simp add: manager_loop_iteration_def update_inscription_status_or_resend_def
        send_new_inscription_txs_def io_bind_def on_db_def io_zoom_def io_map_err_def demo_get_inflight
        demo_confirm [folded demo_confirmed_def] Let_def)
qed
lemma demo_inscribe_empty:
  "\<exists>info. inscribe ref_lib demo demo_message inscription_config_default (inscriber_context_new, n)
     = (Ok info, \<lparr>fifo_queue = [request_of_info ref_lib demo_message info]\<rparr>, n + 2)
     \<and> reveal_fee (reveal_tx_output_info info) = 418 \<and> commit_tx_fee (commit_tx_output_info info) = 314"
  using demo_prepare_fees [of n]
  by (auto simp: inscribe_def inscribe_with_recipient_def io_bind_def io_map_err_def
      broadcast_inscription_def insert_inscription_to_context_def on_client_def io_zoom_def demo_def
      demo_client_def inscriber_context_new_def)

text \<open>The connection to the database is lost when the transactions are out.\<close>

lemma demo_send_fault:
  "\<exists>q. send_inscription_tx ref_lib ref_sender demo demo_proof_request inscription_config_default
     (demo_db demo_requested [True], inscriber_context_new, n)
   = (Err (DbError ConnectionError), demo_db demo_requested [], \<lparr>fifo_queue = [q]\<rparr>, n + 2)"
  using demo_inscribe_empty [of n]
  by (auto simp: send_inscription_tx_def io_bind_def on_node_def on_inscriber_def on_db_def io_zoom_def
      io_map_err_def ref_sender_def Let_def ref_amount_add_def
      insert_inscription_request_history_def insert_row_def round_trip_def demo_db_def
      demo_def demo_client_def)

end
