(* ===== verification/Sender_Properties.thy ===== *)
theory Sender_Properties
  imports Ref_Sender
begin

text \<open>
  The properties of the Bitcoin sender: its run refines the life of a batch, what it wrote stays,
  which operation it takes, how many inscriptions it keeps in flight, and what it does when a query
  fails.
\<close>

section \<open>The life of a batch\<close>

text \<open>C5: In every interleaving of iterations of the aggregator, iterations of the manager, moves of
  the rest of the node and failing queries, the stage of each batch only moves along the abstract
  machine (request, inscribe and confirm the commitment, then the same for the proof), and the
  invariant of the tables holds at the end.\<close>

theorem sender_refines_lifecycle:
  assumes "(sender_step L T A M config)\<^sup>*\<^sup>* s s'" "lifecycle_inv (service_tables s)"
    and "ids_fit (service_tables s')"
  shows "lifecycle_inv (service_tables s')
    \<and> stage_step\<^sup>*\<^sup>* (batch_stage (service_tables s) n) (batch_stage (service_tables s') n)"
  using sender_run_refines [OF assms] .

definition demo_state :: "nat sender_state" where
  "demo_state = (demo_db demo_committed [], inscriber_context_new, inscriber_context_new, 0)"

definition demo_state' :: "nat sender_state" where
  "demo_state' = ((demo_db demo_requested [])\<lparr>next_request_id := 3\<rparr>, inscriber_context_new,
     inscriber_context_new, 0)"

lemma demo_sender_run:
  "(sender_step ref_lib ref_sender demo demo demo_config)\<^sup>*\<^sup>* demo_state demo_state'"
  unfolding demo_state_def demo_state'_def
  by (rule r_into_rtranclp, rule sender_step.aggregate [OF demo_aggregate [of 0 0 0]])

lemma demo_state_tables [simp]:
  "service_tables demo_state = demo_committed" "service_tables demo_state' = demo_requested"
  by (simp_all add: demo_state_def demo_state'_def demo_db_def)

lemma demo_requested_fits: "ids_fit demo_requested"
  by (simp add: ids_fit_def request_ids_def demo_requested_def demo_rows)

theorem sender_refines_lifecycle_witness:
  "lifecycle_inv demo_requested
   \<and> stage_step\<^sup>*\<^sup>* (batch_stage demo_committed 1) (batch_stage demo_requested 1)"
  using sender_refines_lifecycle [OF demo_sender_run, of 1]
    demo_committed_inv demo_requested_fits
  by simp

text \<open>C7: A batch is committed at most once: however the services interleave, the request that
  commits a batch and the request of its proof never change once they are recorded, and no request
  disappears.\<close>

theorem batch_committed_once:
  assumes "(sender_step L T A M config)\<^sup>*\<^sup>* s s'"
    and "batch_link (service_tables s) n = Some b"
  shows "\<exists>b'. batch_link (service_tables s') n = Some b' \<and> bi_commit_id b' = bi_commit_id b
    \<and> (bi_proof_id b \<noteq> None \<longrightarrow> bi_proof_id b' = bi_proof_id b)
    \<and> set (request_ids (service_tables s)) \<subseteq> set (request_ids (service_tables s'))"
  using sender_run_keeps_links [OF assms(1)] assms(2) unfolding keeps_links_def by blast

theorem batch_committed_once_witness:
  "\<exists>b'. batch_link demo_requested 1 = Some b' \<and> bi_commit_id b' = 1"
  using batch_committed_once [OF demo_sender_run, of 1
      "\<lparr>bi_l1_batch_number = 1, bi_commit_id = 1, bi_proof_id = None\<rparr>"]
  by (auto simp: batch_link_def demo_committed_def demo_tables_def)

text \<open>C6: An iteration of the aggregator that ends normally with an operation has requested an
  inscription for every batch of that operation; one that ends with an error or a panic has left the
  tables as they were.\<close>

theorem aggregator_all_or_nothing:
  assumes "lifecycle_inv (db_tables d)"
    and "aggregator_loop_iteration L T I ag now pv (d, c, w) = (r, d', c', w')"
    and "ids_fit (db_tables d')"
  shows "if r = Ok () then \<exists>op d1.
       get_next_ready_operation T ag now get_bootloader_code_hash get_aa_code_hash pv d = (Ok op, d1)
       \<and> (case op of None \<Rightarrow> db_tables d' = db_tables d
          | Some o' \<Rightarrow> lifecycle_inv (db_tables d')
              \<and> (\<forall>b \<in> set (get_l1_batches_detail o').
                   batch_stage (db_tables d') (bd_number b)
                     = requested_stage (get_inscription_request_type o')))
     else db_tables d' = db_tables d"
proof (cases r)
  case (Ok u)
  then obtain op d1 where next_op: "get_next_ready_operation T ag now get_bootloader_code_hash
      get_aa_code_hash pv d = (Ok op, d1)" "operation_requested op (db_tables d) (db_tables d')"
    using aggregator_iteration_moves [OF _ _ refl assms(2)] assms(1) by (auto simp: lifecycle_inv_parts)
  then show ?thesis
    using Ok assms(3)
    by (cases op) (auto simp: lifecycle_inv_parts operation_requested_def links_move_def)
qed (use aggregator_iteration_moves [OF _ _ refl assms(2)] assms(1) in
    \<open>simp_all add: lifecycle_inv_parts\<close>)

theorem aggregator_all_or_nothing_witness:
  "batch_stage demo_requested 1 = ProofRequested"
proof -
  have "ids_fit (db_tables ((demo_db demo_requested [])\<lparr>next_request_id := 3\<rparr>))"
    using demo_requested_fits by (simp add: demo_db_def)
  with aggregator_all_or_nothing [OF _ demo_aggregate [of 0 0 0]] demo_committed_inv
    demo_operation [of 0 get_bootloader_code_hash get_aa_code_hash 0]
  show ?thesis by (simp add: demo_db_def)
qed

section \<open>The aggregator\<close>

text \<open>C8: The operation the aggregator takes: a proof operation if proofs are due, else a commitment
  of batches if some are due, else none.  Due are the batches that the configured number fills, up
  to the last that passed its deadline (two hours for a proof, one hour for a batch) when there is
  one.  The comment on the deadline promises to publish all the available batches once the age is
  reached; what the criterion gives is the leading batches that are overdue themselves.\<close>

theorem next_operation_choice:
  assumes "get_next_ready_operation T (aggregator_new config) now bl aa pv d = (Ok op, d')"
  defines "proofs \<equiv> pick (max_aggregated_proofs_to_commit config) BLOCK_TIME_TO_PROOF now
      (ready_batches T (max_aggregated_proofs_to_commit config) (ready_for_proof_rows (db_tables d)))"
    and "commits \<equiv> pick (max_aggregated_blocks_to_commit config) BLOCK_TIME_TO_COMMIT now
      (ready_batches T (max_aggregated_blocks_to_commit config)
        (ready_for_commit_rows bl aa pv (db_tables d)))"
  shows "op = (if proofs \<noteq> [] then Some (OpCommitProof proofs)
     else if commits \<noteq> [] then Some (OpCommitL1Batch commits) else None)"
  using next_operation_pick [OF assms(1)] unfolding proofs_def commits_def .

theorem next_operation_choice_witness:
  "pick 1 BLOCK_TIME_TO_PROOF 0 (ready_batches ref_sender 1 (ready_for_proof_rows demo_committed))
     = [demo_details]"
  using next_operation_choice [OF demo_operation [of 0 "[]" "[]" 0]]
  by (auto simp: demo_config_def btc_sender_config_for_tests_def split: if_splits)

text \<open>C12: The inscription of a proof is meant to name the reveal transaction of the batch it proves.
  It names the commit transaction: its reference is read from the commit column of the last history
  of the commitment's request.\<close>

theorem proof_reference_names_commit_tx:
  assumes "get_next_ready_operation T ag now bl aa pv d = (Ok (Some (OpCommitProof bs)), d')"
    and "b \<in> set bs"
  shows "\<exists>link \<in> set (batch_inscription (db_tables d)). bi_l1_batch_number link = bd_number b
    \<and> construct_inscription_message L ag' CommitProofOnchain b =
        Ok (ProofDAReference
          \<lparr>l1_batch_reveal_txid = txid_or_zeros (txid_from_str T
              (fst (history_txids (db_tables d) (bi_commit_id link)))),
           proof_da_identifier = cfg_da_identifier (ag_config ag'), proof_blob_id = bd_blob_id b\<rparr>)"
proof -
  have "get_commit_proof_operation T ag now d = (Ok (Some (OpCommitProof bs)), d')"
    using assms(1) by (auto simp: get_next_ready_operation_def io_ok
        dest!: commit_operation_Ok split: option.splits)
  from proof_operation_Ok [OF this] obtain rows d1 where
    rows: "get_ready_for_commit_proof_l1_batches T
        (limit_of (max_aggregated_proofs_to_commit (ag_config ag))) d = (Ok rows, d1)"
    and sub: "extract_ready_subrange (commit_proof_criteria ag now) rows = Some bs" by auto
  have "b \<in> set rows"
    using sub assms(2) by (auto simp: extract_ready_subrange_def dest: set_takeWhileD)
  with ready_for_proof_Ok [OF rows] obtain row where
    row: "row \<in> set (ready_for_proof_rows (db_tables d))" "b = block_details_from T row"
    by (auto dest: in_set_takeD)
  then obtain l a k where "k \<in> set (batch_inscription (db_tables d))"
    "bi_l1_batch_number k = lb_number l" "row = storage_details l
       (fst (history_txids (db_tables d) (bi_commit_id k))) (snd (history_txids (db_tables d) (bi_commit_id k))) a"
    unfolding ready_for_proof_rows_def by auto
  then show ?thesis unfolding row(2)
    by (intro bexI [of _ k]) (simp_all add: construct_inscription_message_def block_details_from_def
        storage_details_def unwrap_or_default_def)
qed

theorem proof_reference_names_commit_tx_witness:
  "\<exists>link \<in> set (batch_inscription demo_committed). bi_l1_batch_number link = 1
    \<and> construct_inscription_message ref_lib (aggregator_new demo_config) CommitProofOnchain demo_details =
        Ok (ProofDAReference
          \<lparr>l1_batch_reveal_txid = txid_or_zeros (txid_from_str ref_sender
              (fst (history_txids demo_committed (bi_commit_id link)))),
           proof_da_identifier = ascii ''celestia'', proof_blob_id = ascii ''blob''\<rparr>)"
  using proof_reference_names_commit_tx [OF demo_operation [of 0 "[]" "[]" 0], of demo_details ref_lib
      "aggregator_new demo_config"]
  by (simp add: aggregator_new_def demo_config_def demo_details_def)

section \<open>The manager\<close>

text \<open>C9: An iteration of the manager never raises the number of inscriptions in flight above the
  configured maximum: afterwards there are at most as many as before or as the maximum allows,
  however the iteration ends.\<close>

theorem inflight_bounded:
  assumes "lifecycle_inv (db_tables d)" "length (inflight_rows (db_tables d)) < 2 ^ 63"
    and "manager_loop_iteration L T I config (d, c, w) = (r, d', c', w')"
  shows "int (length (inflight_rows (db_tables d')))
    \<le> max (int (length (inflight_rows (db_tables d)))) (sint (max_txs_in_flight config))"
proof -
  have inv: "sender_inv (db_tables d)" "services_inv (db_tables d)"
    using assms(1) by (simp_all add: lifecycle_inv_parts)
  have "sender_inv (db_tables d')"
    using manager_iteration_inv [of L T I config] assms(3) inv(1) unfolding io_pres_def by (metis fst_conv snd_conv)
  with io_spec_final [OF manager_inflight_bound [OF inv, of L T I config], of "(d, c, w)"] assms inv
  show ?thesis by (simp add: length_inflight_rows)
qed

theorem inflight_bounded_witness:
  "int (length (inflight_rows demo_confirmed)) \<le> 1"
  using inflight_bounded [OF _ _ demo_manage [of inscriber_context_new 0]] demo_inscribed_inv
  by (simp add: demo_inflight demo_config_def btc_sender_config_for_tests_def)

text \<open>C10: What one update of an inscription in flight does, when it ends normally.  Without a history
  of the request nothing changes.  Otherwise the node is asked about the reveal transaction of the last
  history.  If the node confirms it, exactly that history and the request are marked, and the
  inscriber is left alone.  If not, and the chain has not grown six blocks past the block at which it
  was sent, the tables and the inscriber are unchanged; and from there on, the inscription is made
  again with a fee multiplier of one more than the number of attempts, and the attempt is recorded.\<close>

theorem update_one_outcome:
  assumes "update_one L T I config ins (d, c, w) = (Ok (), d', c', w')"
  shows "histories_of (db_tables d) (ir_id ins) = [] \<and> db_tables d' = db_tables d \<and> c' = c \<and> w' = w
   \<or> (\<exists>row h is_confirmed w1. last_history (db_tables d) (ir_id ins) row
        \<and> request_history_from T row = (Ok h :: (db_error, _) res)
        \<and> ops_check_tx_confirmation (ins_client I) (rh_reveal_tx_id h) (block_confirmations config) w
            = (Ok is_confirmed, w1)
        \<and> (if is_confirmed then
             (\<exists>now. db_tables d' = mark_request (ir_id ins) (rh_id h) (mark_history (rh_id h) now (db_tables d)))
             \<and> c' = c \<and> w' = w1
           else \<exists>height w2. ops_fetch_block_height (ins_client I) w1 = (Ok height, w2)
             \<and> (if sint (ucast height :: i64) < sint (rh_sent_at_block h + 6)
                then db_tables d' = db_tables d \<and> c' = c \<and> w' = w2
                else \<exists>m info w3 row'.
                  message_from_bytes T (unwrap_or_default (ir_inscription_message ins)) = Some m
                \<and> inscribe L I m \<lparr>fee_multiplier = of_nat (length (histories_of (db_tables d) (ir_id ins))) + 1\<rparr>
                    (c, w3) = (Ok info, c', w')
                \<and> db_tables d' = add_history row' (db_tables d) \<and> hs_inscription_request_id row' = ir_id ins
                \<and> hs_reveal_tx_id row' = txid_to_string T (ftx_txid (final_reveal_tx info)))))"
  (is "?none \<or> ?some")
  using assms
proof (cases rule: update_one_Ok)
  case none
  then show ?thesis by blast
next
  case (confirmed row h now)
  then have ?some by (intro exI [of _ row] exI [of _ h] exI [of _ True] exI [of _ w']) auto
  then show ?thesis ..
next
  case (waiting row h w1 height)
  then have ?some by (intro exI [of _ row] exI [of _ h] exI [of _ False] exI [of _ w1]) (auto simp: BLOCK_RESEND_def)
  then show ?thesis ..
next
  case (resent row h w1 height w2 m info w3 row')
  then have ?some by (intro exI [of _ row] exI [of _ h] exI [of _ False] exI [of _ w1]) (auto simp: BLOCK_RESEND_def)
  then show ?thesis ..
qed

theorem update_one_outcome_witness:
  "\<exists>row h. last_history demo_inscribed 2 row
     \<and> request_history_from ref_sender row = (Ok h :: (db_error, _) res)
     \<and> fst (ops_check_tx_confirmation (ins_client demo_confirming) (rh_reveal_tx_id h) 0 0) = Ok True
     \<and> (\<exists>now. demo_confirmed = mark_request 2 (rh_id h) (mark_history (rh_id h) now demo_inscribed))"
proof -
  have "histories_of demo_inscribed 2 \<noteq> []"
    by (simp add: histories_of_def demo_inscribed_def demo_rows)
  with update_one_outcome [OF demo_confirm [of inscriber_context_new 0]] show ?thesis
    by (auto simp: demo_confirmed_def demo_proof_request_def demo_config_def
        btc_sender_config_for_tests_def demo_confirming_def)
qed

text \<open>C11: An inscription is broadcast before it is recorded: when sending a request ends with a
  database error, the inscriber has already inscribed it, and the tables do not show it, so the next
  iteration inscribes the same request again.\<close>

theorem unrecorded_broadcast:
  assumes "send_inscription_tx L T I tx config (d, c, w) = (Err (DbError e), d', c', w')"
  shows "db_tables d' = db_tables d \<and> (\<exists>m info w1.
     message_from_bytes T (unwrap_or_default (ir_inscription_message tx)) = Some m
   \<and> inscribe L I m config (c, w1) = (Ok info, c', w'))"
  by (rule send_inscription_tx_db_error [OF assms])

theorem unrecorded_broadcast_witness:
  "\<exists>q m info w1. inscribe ref_lib demo m inscription_config_default (inscriber_context_new, w1)
     = (Ok info, \<lparr>fifo_queue = [q]\<rparr>, 2)"
  using demo_send_fault [of 0] by (auto dest!: unrecorded_broadcast simp: numeral_2_eq_2)

end
