(* ===== verification/Mini_Merkle.thy ===== *)
theory Mini_Merkle
  imports Via_Prelude
begin

text \<open>
  The in-memory Merkle tree (\<^verbatim>\<open>core/lib/mini_merkle_tree/src/lib.rs\<close>) over the hashers of
  \<^verbatim>\<open>core/lib/crypto_primitives/src/hasher\<close>.  The tree keeps its untrimmed leaves and a cache of
  the left siblings on the path to the first of them; its operations are compared with the plain
  binary tree over all leaves ever inserted.  Sizes and indices, \<^verbatim>\<open>usize\<close> in the code, are natural
  numbers: they are lengths of lists in memory, bounded by the 32 levels of a tree.  The Keccak permutation is a parameter.
\<close>

section \<open>Hashers\<close>

record merkle_hasher =
  hash_bytes :: "bytes \<Rightarrow> h256"
  compress :: "h256 \<Rightarrow> h256 \<Rightarrow> h256"
  empty_leaf_hash :: h256

definition MAX_TREE_DEPTH :: nat where "MAX_TREE_DEPTH = 32"

text \<open>\<^verbatim>\<open>KeccakHasher\<close>, with the empty leaf of the 88-byte leaves.\<close>

definition keccak_hasher :: "(bytes \<Rightarrow> h256) \<Rightarrow> merkle_hasher" where
  "keccak_hasher keccak256 =
     \<lparr>hash_bytes = keccak256,
      compress = (\<lambda>lhs rhs. keccak256 (lhs @ rhs)),
      empty_leaf_hash = keccak256 (replicate 88 0)\<rparr>"

text \<open>The hashes of empty subtrees, from the leaf upwards.  They are compressed with
  \<^verbatim>\<open>KeccakHasher\<close> for every hasher: \<open>K\<close> is that hasher.\<close>

fun successors :: "('a \<Rightarrow> 'a) \<Rightarrow> 'a \<Rightarrow> nat \<Rightarrow> 'a list" where
  "successors f x 0 = []"
| "successors f x (Suc n) = x # successors f (f x) n"

definition compute_empty_tree_hashes :: "merkle_hasher \<Rightarrow> h256 \<Rightarrow> h256 list" where
  "compute_empty_tree_hashes K leaf =
     successors (\<lambda>hash. compress K hash hash) leaf (MAX_TREE_DEPTH + 1)"

definition empty_subtree_hash :: "merkle_hasher \<Rightarrow> merkle_hasher \<Rightarrow> nat \<Rightarrow> (unit, h256) res" where
  "empty_subtree_hash K H depth =
     unwrap (get_at (compute_empty_tree_hashes K (empty_leaf_hash H)) depth)"

section \<open>The tree\<close>

record mini_merkle_tree =
  mt_hashes :: "h256 list"
  binary_tree_size :: nat
  start_index :: nat
  mt_cache :: "h256 option list"

datatype side = LeftSide | RightSide

fun is_power_of_two :: "nat \<Rightarrow> bool" where
  "is_power_of_two n = (if n = 0 then False else if odd n then n = 1 else is_power_of_two (n div 2))"

declare is_power_of_two.simps [simp del]

fun next_power_of_two :: "nat \<Rightarrow> nat" where
  "next_power_of_two n = (if n \<le> 1 then 1 else 2 * next_power_of_two ((n + 1) div 2))"

declare next_power_of_two.simps [simp del]

text \<open>\<^verbatim>\<open>trailing_zeros\<close> of a \<^verbatim>\<open>usize\<close>.\<close>

fun tree_depth_by_size :: "nat \<Rightarrow> nat" where
  "tree_depth_by_size n =
     (if n = 0 then 64 else if odd n then 0 else Suc (tree_depth_by_size (n div 2)))"

declare tree_depth_by_size.simps [simp del]

definition from_hashes :: "h256 list \<Rightarrow> nat option \<Rightarrow> (unit, mini_merkle_tree) res" where
  "from_hashes hashes min_tree_size =
     res_bind (case min_tree_size of
         None \<Rightarrow> Ok (next_power_of_two (length hashes))
       | Some m \<Rightarrow> if is_power_of_two m then Ok (max m (next_power_of_two (length hashes))) else Panic)
       (\<lambda>size.
     let depth = tree_depth_by_size size in
     if depth \<le> MAX_TREE_DEPTH
     then Ok \<lparr>mt_hashes = hashes, binary_tree_size = size, start_index = 0,
              mt_cache = replicate depth None\<rparr>
     else Panic)"

definition with_hasher ::
    "merkle_hasher \<Rightarrow> bytes list \<Rightarrow> nat option \<Rightarrow> (unit, mini_merkle_tree) res" where
  "with_hasher H leaves min_tree_size = from_hashes (map (hash_bytes H) leaves) min_tree_size"

definition mt_is_empty :: "mini_merkle_tree \<Rightarrow> bool" where
  "mt_is_empty t \<longleftrightarrow> start_index t = 0 \<and> mt_hashes t = []"

definition cache_at :: "h256 option list \<Rightarrow> nat \<Rightarrow> (unit, h256) res" where
  "cache_at cache level = res_bind (unwrap (get_at cache level)) unwrap"

text \<open>The two padding steps of a level, the element of the path, and the pairwise compression, which
  overwrites the queue from the left.\<close>

definition pad_left :: "h256 option list \<Rightarrow> nat \<Rightarrow> nat \<Rightarrow> h256 list \<Rightarrow> nat \<Rightarrow> (unit, h256 list \<times> nat) res" where
  "pad_left cache level start hashes index =
     (if start mod 2 = 1
      then res_bind (cache_at cache level) (\<lambda>h. Ok (h # hashes, index + 1))
      else Ok (hashes, index))"

definition pad_right :: "merkle_hasher \<Rightarrow> merkle_hasher \<Rightarrow> nat \<Rightarrow> h256 list \<Rightarrow> (unit, h256 list) res" where
  "pad_right K H level hashes =
     (if length hashes mod 2 = 1
      then res_bind (empty_subtree_hash K H level) (\<lambda>h. Ok (hashes @ [h]))
      else Ok hashes)"

definition path_item :: "side option \<Rightarrow> h256 list \<Rightarrow> nat \<Rightarrow> h256 option" where
  "path_item side hashes index =
     (if side = Some LeftSide \<and> index mod 2 = 0 then None
      else if side = Some RightSide \<and> index mod 2 = 1 then None
      else get_at hashes (xor index 1))"

definition compress_level :: "merkle_hasher \<Rightarrow> h256 list \<Rightarrow> h256 list" where
  "compress_level H hashes =
     (let level_len = length hashes div 2 in
      take level_len
        (foldl (\<lambda>hs i. hs[i := compress H (hs ! (2 * i)) (hs ! (2 * i + 1))]) hashes [0..<level_len]))"

fun compute_levels ::
    "merkle_hasher \<Rightarrow> merkle_hasher \<Rightarrow> h256 option list \<Rightarrow> side option \<Rightarrow> nat \<Rightarrow> nat \<Rightarrow> nat \<Rightarrow> nat \<Rightarrow>
       h256 list \<Rightarrow> h256 option list \<Rightarrow> (unit, h256 \<times> h256 option list) res" where
  "compute_levels K H cache side 0 level index start hashes path =
     (case hashes of [] \<Rightarrow> Panic | h # _ \<Rightarrow> Ok (h, path))"
| "compute_levels K H cache side (Suc n) level index start hashes path =
     res_bind (pad_left cache level start hashes index) (\<lambda>(hashes, index).
     res_bind (pad_right K H level hashes) (\<lambda>hashes.
     compute_levels K H cache side n (Suc level) (index div 2) (start div 2)
       (compress_level H hashes) (path @ [path_item side hashes index])))"

text \<open>The root with the path; a caller that asks for no path drops it.\<close>

definition compute_merkle_root_and_path ::
    "merkle_hasher \<Rightarrow> merkle_hasher \<Rightarrow> mini_merkle_tree \<Rightarrow> nat \<Rightarrow> side option \<Rightarrow>
       (unit, h256 \<times> h256 option list) res" where
  "compute_merkle_root_and_path K H t index side =
     compute_levels K H (mt_cache t) side (tree_depth_by_size (binary_tree_size t)) 0 index
       (start_index t) (mt_hashes t) []"

definition merkle_root :: "merkle_hasher \<Rightarrow> merkle_hasher \<Rightarrow> mini_merkle_tree \<Rightarrow> (unit, h256) res" where
  "merkle_root K H t =
     (let depth = tree_depth_by_size (binary_tree_size t) in
      if mt_hashes t = [] \<and> start_index t = 0 then empty_subtree_hash K H depth
      else if mt_hashes t = [] \<and> start_index t = binary_tree_size t then cache_at (mt_cache t) depth
      else res_bind (compute_merkle_root_and_path K H t 0 None) (\<lambda>(root, _). Ok root))"

definition merkle_root_and_path ::
    "merkle_hasher \<Rightarrow> merkle_hasher \<Rightarrow> mini_merkle_tree \<Rightarrow> nat \<Rightarrow> (unit, h256 \<times> h256 list) res" where
  "merkle_root_and_path K H t index =
     (if index < length (mt_hashes t)
      then res_bind (compute_merkle_root_and_path K H t index None) (\<lambda>(root, path).
             res_bind (res_map unwrap path) (\<lambda>path. Ok (root, path)))
      else Panic)"

definition merkle_root_and_paths_for_range ::
    "merkle_hasher \<Rightarrow> merkle_hasher \<Rightarrow> mini_merkle_tree \<Rightarrow> nat \<Rightarrow>
       (unit, h256 \<times> h256 option list \<times> h256 option list) res" where
  "merkle_root_and_paths_for_range K H t len =
     (if 0 < len \<and> len \<le> length (mt_hashes t)
      then res_bind (compute_merkle_root_and_path K H t (len - 1) (Some RightSide)) (\<lambda>(root, right).
             Ok (root, mt_cache t, right))
      else Panic)"

definition push_hash :: "h256 \<Rightarrow> mini_merkle_tree \<Rightarrow> mini_merkle_tree" where
  "push_hash leaf_hash t =
     (let t = t\<lparr>mt_hashes := mt_hashes t @ [leaf_hash]\<rparr> in
      if binary_tree_size t < start_index t + length (mt_hashes t) then
        let t = t\<lparr>binary_tree_size := binary_tree_size t * 2\<rparr> in
        if length (mt_cache t) < tree_depth_by_size (binary_tree_size t)
        then t\<lparr>mt_cache := mt_cache t @ [None]\<rparr> else t
      else t)"

definition push :: "merkle_hasher \<Rightarrow> bytes \<Rightarrow> mini_merkle_tree \<Rightarrow> mini_merkle_tree" where
  "push H leaf t = push_hash (hash_bytes H leaf) t"

definition trim_start ::
    "merkle_hasher \<Rightarrow> merkle_hasher \<Rightarrow> nat \<Rightarrow> mini_merkle_tree \<Rightarrow> (unit, mini_merkle_tree) res" where
  "trim_start K H count t =
     (if count \<le> length (mt_hashes t) then
        res_bind (compute_merkle_root_and_path K H t count (Some LeftSide)) (\<lambda>(root, new_cache).
        let start = start_index t + count in
        Ok (t\<lparr>mt_hashes := drop count (mt_hashes t), start_index := start,
              mt_cache := (if start = binary_tree_size t then new_cache @ [Some root] else new_cache)\<rparr>))
      else Panic)"

text \<open>Runs of a tree: leaves are pushed and trimmed in any order.\<close>

datatype merkle_op = PushOp h256 | TrimOp nat

fun run_ops ::
    "merkle_hasher \<Rightarrow> merkle_hasher \<Rightarrow> merkle_op list \<Rightarrow> mini_merkle_tree \<Rightarrow> (unit, mini_merkle_tree) res" where
  "run_ops K H [] t = Ok t"
| "run_ops K H (PushOp h # ops) t = run_ops K H ops (push_hash h t)"
| "run_ops K H (TrimOp n # ops) t = res_bind (trim_start K H n t) (run_ops K H ops)"

fun pushed :: "merkle_op list \<Rightarrow> h256 list" where
  "pushed [] = []"
| "pushed (PushOp h # ops) = h # pushed ops"
| "pushed (TrimOp n # ops) = pushed ops"

section \<open>The plain tree\<close>

text \<open>The hash of the subtree of depth \<open>d\<close> with number \<open>i\<close> from the left.\<close>

fun node :: "('h \<Rightarrow> 'h \<Rightarrow> 'h) \<Rightarrow> (nat \<Rightarrow> 'h) \<Rightarrow> nat \<Rightarrow> nat \<Rightarrow> 'h" where
  "node c f 0 i = f i"
| "node c f (Suc d) i = c (node c f d (2 * i)) (node c f d (2 * i + 1))"

definition leaf_at :: "'h \<Rightarrow> 'h list \<Rightarrow> nat \<Rightarrow> 'h" where
  "leaf_at e ls i = (if i < length ls then ls ! i else e)"

definition hash_node :: "merkle_hasher \<Rightarrow> h256 list \<Rightarrow> nat \<Rightarrow> nat \<Rightarrow> h256" where
  "hash_node H ls = node (compress H) (leaf_at (empty_leaf_hash H) ls)"

definition plain_root :: "merkle_hasher \<Rightarrow> h256 list \<Rightarrow> nat \<Rightarrow> h256" where
  "plain_root H ls depth = hash_node H ls depth 0"

text \<open>The left sibling on the path to leaf \<open>start\<close> at level \<open>l\<close>, if the path goes to the right there.\<close>

definition left_sibling :: "merkle_hasher \<Rightarrow> h256 list \<Rightarrow> nat \<Rightarrow> nat \<Rightarrow> h256 option" where
  "left_sibling H ls start l =
     (if odd (start div 2 ^ l) then Some (hash_node H ls l (start div 2 ^ l - 1)) else None)"

text \<open>A tree that stands for the leaves \<open>ls\<close>.\<close>

definition represents :: "merkle_hasher \<Rightarrow> h256 list \<Rightarrow> nat \<Rightarrow> mini_merkle_tree \<Rightarrow> bool" where
  "represents H ls depth t \<longleftrightarrow>
     binary_tree_size t = 2 ^ depth \<and> length ls \<le> 2 ^ depth \<and> start_index t \<le> length ls
   \<and> mt_hashes t = drop (start_index t) ls
   \<and> mt_cache t = map (left_sibling H ls (start_index t))
       [0..<depth + (if start_index t = 2 ^ depth then 1 else 0)]"

definition sibling :: "nat \<Rightarrow> nat" where
  "sibling i = (if even i then i + 1 else i - 1)"

text \<open>What a verifier does with a path.\<close>

fun fold_path :: "('h \<Rightarrow> 'h \<Rightarrow> 'h) \<Rightarrow> nat \<Rightarrow> 'h \<Rightarrow> 'h list \<Rightarrow> 'h" where
  "fold_path c i h [] = h"
| "fold_path c i h (p # ps) = fold_path c (i div 2) (if even i then c h p else c p h) ps"

text \<open>What a verifier does with the two paths of a range of leaves that starts at \<open>S\<close>: it fills the
  level on either side, and accepts a path element only where the level needs it.\<close>

fun fold_pairs :: "('h \<Rightarrow> 'h \<Rightarrow> 'h) \<Rightarrow> 'h list \<Rightarrow> 'h list" where
  "fold_pairs c (x # y # zs) = c x y # fold_pairs c zs"
| "fold_pairs c _ = []"

definition fill_left :: "nat \<Rightarrow> 'h option \<Rightarrow> 'h list \<Rightarrow> 'h list option" where
  "fill_left S l hs = (if odd S then map_option (\<lambda>h. h # hs) l else if l = None then Some hs else None)"

definition fill_right :: "'h option \<Rightarrow> 'h list \<Rightarrow> 'h list option" where
  "fill_right r hs =
     (if odd (length hs) then map_option (\<lambda>h. hs @ [h]) r else if r = None then Some hs else None)"

fun range_root :: "('h \<Rightarrow> 'h \<Rightarrow> 'h) \<Rightarrow> nat \<Rightarrow> 'h list \<Rightarrow> 'h option list \<Rightarrow> 'h option list \<Rightarrow> 'h option" where
  "range_root c S hs (l # ls) (r # rs) =
     Option.bind (fill_left S l hs) (\<lambda>hs.
     Option.bind (fill_right r hs) (\<lambda>hs.
     range_root c (S div 2) (fold_pairs c hs) ls rs))"
| "range_root c S (h # hs) [] [] = Some h"
| "range_root c S hs ls rs = None"

lemma node_cong:
  "(\<And>j. i * 2 ^ d \<le> j \<Longrightarrow> j < (i + 1) * 2 ^ d \<Longrightarrow> f j = g j) \<Longrightarrow> node c f d i = node c g d i"
proof (induction d arbitrary: i)
  case (Suc d)
  have "node c f d (2 * i) = node c g d (2 * i)" "node c f d (2 * i + 1) = node c g d (2 * i + 1)"
    by (intro Suc.IH Suc.prems; simp add: algebra_simps)+
  then show ?case by simp
qed simp

lemma node_const: "node c (\<lambda>_. e) d i = ((\<lambda>h. c h h) ^^ d) e"
  by (induction d arbitrary: i) simp_all

lemma node_empty:
  "length ls \<le> i * 2 ^ d \<Longrightarrow> node c (leaf_at e ls) d i = ((\<lambda>h. c h h) ^^ d) e"
  unfolding node_const [of c e d i, symmetric] by (rule node_cong) (simp add: leaf_at_def)

lemma node_prefix:
  "(i + 1) * 2 ^ d \<le> length ls \<Longrightarrow> node c (leaf_at e (ls @ xs)) d i = node c (leaf_at e ls) d i"
  by (rule node_cong) (simp add: leaf_at_def nth_append)

section \<open>One level\<close>

lemma length_successors [simp]: "length (successors f x n) = n"
  by (induction n arbitrary: x) simp_all

lemma nth_successors: "k < n \<Longrightarrow> successors f x n ! k = (f ^^ k) x"
  by (induction n arbitrary: x k) (auto simp: nth_Cons funpow_swap1 split: nat.splits)

lemma xor_one_sibling: "xor i (1 :: nat) = sibling i"
  by (simp add: sibling_def xor_Suc_0_eq)

lemma foldl_update_pairs:
  assumes "2 * n \<le> length hs"
  shows "foldl (\<lambda>hs i. hs[i := g (hs ! (2 * i)) (hs ! (2 * i + 1))]) hs [0..<n]
    = map (\<lambda>i. g (hs ! (2 * i)) (hs ! (2 * i + 1))) [0..<n] @ drop n hs"
  using assms
proof (induction n)
  case (Suc n)
  let ?ys = "map (\<lambda>i. g (hs ! (2 * i)) (hs ! (2 * i + 1))) [0..<n] @ drop n hs"
  have at: "?ys ! k = hs ! k" if "n \<le> k" "k < length hs" for k
    using that by (simp add: nth_append)
  have "drop n hs = hs ! n # drop (Suc n) hs" using Suc.prems by (simp add: Cons_nth_drop_Suc)
  with Suc at [of "2 * n"] at [of "2 * n + 1"] show ?case
    by (simp add: list_update_append)
qed simp

lemma compress_level_map:
  "compress_level H hs = map (\<lambda>i. compress H (hs ! (2 * i)) (hs ! (2 * i + 1))) [0..<length hs div 2]"
  unfolding compress_level_def Let_def
  by (subst foldl_update_pairs) simp_all

lemma compress_level_nodes:
  "compress_level H (map (node (compress H) f l) [2 * a..<2 * b]) = map (node (compress H) f (Suc l)) [a..<b]"
proof -
  have "length [2 * a..<2 * b] div 2 = b - a" by simp
  then show ?thesis
    unfolding compress_level_map length_map
    by (intro nth_equalityI) (simp_all add: algebra_simps)
qed

lemma fold_pairs_nodes:
  "fold_pairs c (map (node c f l) [2 * a..<2 * b]) = map (node c f (Suc l)) [a..<b]"
proof (induction "b - a" arbitrary: a)
  case (Suc k)
  then have "a < b" by simp
  then have "[2 * a..<2 * b] = 2 * a # Suc (2 * a) # [2 * Suc a..<2 * b]" "[a..<b] = a # [Suc a..<b]"
    by (simp_all add: upt_conv_Cons [of "2 * a"] upt_conv_Cons [of "Suc (2 * a)"] upt_conv_Cons [of a])
  with Suc.hyps(1) [of "Suc a"] Suc.hyps(2) show ?case by simp
qed simp

lemma fold_path_nodes:
  "fold_path c a (node c f l a) (map (\<lambda>j. node c f (l + j) (sibling (a div 2 ^ j))) [0..<n])
     = node c f (l + n) (a div 2 ^ n)"
proof (induction n arbitrary: l a)
  case (Suc n)
  let ?g = "\<lambda>j. node c f (l + j) (sibling (a div 2 ^ j))"
  have step: "(if even a then c (node c f l a) (?g 0) else c (?g 0) (node c f l a))
      = node c f (Suc l) (a div 2)"
    by (auto simp: sibling_def elim!: evenE oddE)
  have "(\<lambda>j. ?g (Suc j)) = (\<lambda>j. node c f (Suc l + j) (sibling (a div 2 div 2 ^ j)))"
    by (simp add: div_mult2_eq)
  then have "fold_path c a (node c f l a) (map ?g [0..<Suc n])
      = fold_path c (a div 2) (node c f (Suc l) (a div 2))
          (map (\<lambda>j. node c f (Suc l + j) (sibling (a div 2 div 2 ^ j))) [0..<n])"
    unfolding map_upt_Suc fold_path.simps step by simp
  also have "\<dots> = node c f (l + Suc n) (a div 2 ^ Suc n)"
    unfolding Suc.IH by (simp add: div_mult2_eq)
  finally show ?case .
qed simp

lemma compress_level_hash_nodes:
  "compress_level H (map (hash_node H ls l) [2 * a..<2 * b]) = map (hash_node H ls (Suc l)) [a..<b]"
  by (simp add: hash_node_def compress_level_nodes)

section \<open>Powers of two\<close>

lemma tree_depth_power [simp]: "tree_depth_by_size (2 ^ d) = d"
  by (induction d) (simp_all add: tree_depth_by_size.simps)

lemma tree_depth_double [simp]: "tree_depth_by_size (2 ^ d * 2) = Suc d"
  using tree_depth_power [of "Suc d"] by (simp add: mult.commute)

lemma is_power_of_two_iff: "is_power_of_two n \<longleftrightarrow> (\<exists>d. n = 2 ^ d)"
proof (induction n rule: is_power_of_two.induct)
  case (1 n)
  have "(\<exists>d. n = 2 ^ d) \<longleftrightarrow> (\<exists>d. n div 2 = 2 ^ d)" if "n \<noteq> 0" "even n"
  proof
    assume "\<exists>d. n = 2 ^ d"
    then obtain d where d: "n = 2 ^ d" by blast
    then show "\<exists>d. n div 2 = 2 ^ d" using that(2) by (cases d) auto
  next
    assume "\<exists>d. n div 2 = 2 ^ d"
    then obtain d where "n div 2 = 2 ^ d" by blast
    then have "n = 2 ^ Suc d" using that(2) by auto
    then show "\<exists>d. n = 2 ^ d" by blast
  qed
  moreover have "n = 1" if "odd n" "n = 2 ^ d" for d
    using that by (cases d) auto
  ultimately show ?case using 1 by (subst is_power_of_two.simps) (auto intro: exI [of _ 0])
qed

lemma next_power_of_two_spec: "\<exists>d. next_power_of_two n = 2 ^ d \<and> n \<le> 2 ^ d"
proof (induction n rule: next_power_of_two.induct)
  case (1 n)
  show ?case
  proof (cases "n \<le> 1")
    case False
    then obtain d where "next_power_of_two ((n + 1) div 2) = 2 ^ d" "(n + 1) div 2 \<le> 2 ^ d"
      using 1 by blast
    then show ?thesis
      using False by (intro exI [of _ "Suc d"]) (subst next_power_of_two.simps, auto)
  qed (simp add: next_power_of_two.simps exI [of _ 0])
qed

section \<open>Levels\<close>

text \<open>The element of a path at level \<open>l\<close>, where the path passes through node \<open>a\<close>.\<close>

definition path_node :: "merkle_hasher \<Rightarrow> h256 list \<Rightarrow> side option \<Rightarrow> nat \<Rightarrow> nat \<Rightarrow> h256 option" where
  "path_node H ls side l a =
     (if side = Some LeftSide \<and> even a \<or> side = Some RightSide \<and> odd a then None
      else Some (hash_node H ls l (sibling a)))"

lemma left_sibling_prefix:
  assumes "start \<le> length ls"
  shows "left_sibling H (ls @ xs) start l = left_sibling H ls start l"
proof -
  have "(start div 2 ^ l - 1 + 1) * 2 ^ l \<le> length ls" if "odd (start div 2 ^ l)"
  proof -
    have "start div 2 ^ l - 1 + 1 = start div 2 ^ l" using odd_pos [OF that] by simp
    then show ?thesis using order_trans [OF div_times_less_eq_dividend assms, of "2 ^ l"] by simp
  qed
  then show ?thesis by (simp add: left_sibling_def hash_node_def node_prefix)
qed

lemma left_sibling_path: "path_node H ls (Some LeftSide) l (a div 2 ^ l) = left_sibling H ls a l"
  by (simp add: path_node_def left_sibling_def sibling_def)

lemma from_hashes_represents:
  assumes "from_hashes hs m = Ok t"
  obtains d where "d \<le> MAX_TREE_DEPTH" "represents H hs d t" "start_index t = 0"
proof -
  obtain d0 where d0: "next_power_of_two (length hs) = 2 ^ d0" "length hs \<le> 2 ^ d0"
    using next_power_of_two_spec by blast
  let ?tree = "\<lambda>size. \<lparr>mt_hashes = hs, binary_tree_size = size, start_index = 0,
      mt_cache = replicate (tree_depth_by_size size) None\<rparr>"
  obtain d where d: "length hs \<le> 2 ^ d" "d \<le> MAX_TREE_DEPTH" "t = ?tree (2 ^ d)"
  proof (cases m)
    case None
    then show thesis
      using assms d0 that [of d0] by (simp add: from_hashes_def Let_def split: if_splits)
  next
    case (Some n)
    with assms obtain k where k: "n = 2 ^ k" by (auto simp: from_hashes_def is_power_of_two_iff split: if_splits)
    have "max (2 ^ k) (2 ^ d0) = (2 :: nat) ^ max k d0" by (simp add: max_def)
    then show thesis
      using assms d0 Some k that [of "max k d0"] order_trans [OF d0(2), of "2 ^ max k d0"]
      by (simp add: from_hashes_def Let_def is_power_of_two_iff split: if_splits)
  qed
  have "replicate d None = map (left_sibling H hs 0) [0..<d]"
    by (intro nth_equalityI) (simp_all add: left_sibling_def)
  then have "represents H hs d t" using d by (simp add: represents_def)
  then show thesis using that d by simp
qed

lemma push_represents:
  assumes "represents H ls d t"
  shows "represents H (ls @ [h]) (if length ls = 2 ^ d then Suc d else d) (push_hash h t)"
proof -
  let ?S = "start_index t" and ?n = "if start_index t = 2 ^ d then 1 else 0 :: nat"
  have S: "?S \<le> length ls" "length ls \<le> 2 ^ d" and size: "binary_tree_size t = 2 ^ d"
    and hs: "mt_hashes t = drop ?S ls"
    using assms by (simp_all add: represents_def)
  have cache: "mt_cache t = map (left_sibling H (ls @ [h]) ?S) [0..<d + ?n]"
    using assms by (simp add: represents_def left_sibling_prefix)
  have at_d: "left_sibling H (ls @ [h]) ?S d = None" if "?S < 2 ^ d"
    using that by (simp add: left_sibling_def)
  show ?thesis
  proof (cases "length ls = 2 ^ d")
    case True
    then have "\<not> ?S = 2 ^ Suc d" "length ls + 1 \<le> 2 ^ Suc d" using S by (auto simp: Suc_le_eq)
    moreover have "push_hash h t = t\<lparr>mt_hashes := drop ?S ls @ [h], binary_tree_size := 2 ^ Suc d,
        mt_cache := map (left_sibling H (ls @ [h]) ?S) [0..<Suc d]\<rparr>"
      using S True size hs cache at_d by (cases "?S = 2 ^ d") (simp_all add: push_hash_def Let_def)
    ultimately show ?thesis using True S by (simp add: represents_def)
  next
    case False
    then have "push_hash h t = t\<lparr>mt_hashes := drop ?S ls @ [h]\<rparr>" "?S \<noteq> 2 ^ d"
      using S size hs by (simp_all add: push_hash_def)
    then show ?thesis using False S size cache by (simp add: represents_def)
  qed
qed

lemma pad_left_nodes:
  assumes "odd S \<Longrightarrow> get_at cache l = Some (Some (hash_node H ls l (S - 1)))" "S \<le> E"
  shows "pad_left cache l S (map (hash_node H ls l) [S..<E]) i
    = Ok (map (hash_node H ls l) [2 * (S div 2)..<E], i + S mod 2)"
proof (cases "even S")
  case False
  then have "2 * (S div 2) = S - 1" "S mod 2 = 1" "[S - 1..<E] = (S - 1) # [S..<E]"
    using assms(2) upt_conv_Cons [of "S - 1" E] by (auto simp: odd_iff_mod_2_eq_one elim: oddE)
  with assms(1) False show ?thesis by (simp add: pad_left_def cache_at_def)
qed (simp add: pad_left_def)

lemma path_item_node:
  assumes "S + i < E \<or> S + i \<le> E \<and> side = Some LeftSide"
  shows "path_item side (map (hash_node H ls l) [2 * (S div 2)..<2 * (Suc E div 2)]) (i + S mod 2)
    = path_node H ls side l (S + i)"
proof -
  let ?j = "i + S mod 2" and ?a = "2 * (S div 2)" and ?b = "2 * (Suc E div 2)"
  have S: "S = ?a + S mod 2" by simp
  then have a: "?a + ?j = S + i" by simp
  then have par: "even ?j \<longleftrightarrow> even (S + i)" by presburger
  have sib: "?a + sibling ?j = sibling (S + i)"
  proof (cases "even ?j")
    case False
    then have "?a + (?j - 1) = S + i - 1" using a odd_pos [of ?j] by linarith
    then show ?thesis using False par unfolding sibling_def by argo
  qed (use par a in \<open>simp add: sibling_def\<close>)
  have "E \<le> ?b" by presburger
  then have bound: "sibling (S + i) < ?b" if "\<not> (side = Some LeftSide \<and> even (S + i))"
    using assms that odd_pos [of "S + i"] unfolding sibling_def
    by (cases "even (S + i)") (simp, presburger, auto)
  let ?hs = "map (hash_node H ls l) [?a..<?b]"
  have "get_at ?hs (sibling ?j) = Some (hash_node H ls l (sibling (S + i)))"
    if "\<not> (side = Some LeftSide \<and> even (S + i))"
    using bound [OF that] unfolding sib [symmetric] by (simp add: get_at_def)
  then show ?thesis
    unfolding path_item_def path_node_def xor_one_sibling even_iff_mod_2_eq_zero [symmetric]
      odd_iff_mod_2_eq_one [symmetric] par by auto
qed

lemma halves:
  fixes S E i :: nat
  shows "S \<le> E \<Longrightarrow> S div 2 \<le> Suc E div 2"
    and "S div 2 + (i + S mod 2) div 2 = (S + i) div 2"
    and "S < E \<Longrightarrow> S div 2 < Suc E div 2"
  by presburger+

lemma halves_path:
  fixes a E :: nat
  assumes "a < E \<or> a \<le> E \<and> P"
  shows "a div 2 < Suc E div 2 \<or> a div 2 \<le> Suc E div 2 \<and> P"
  using assms halves(1,3) by blast

lemma halves_nonempty:
  fixes S E :: nat
  assumes "S \<le> E"
  shows "S div 2 < Suc E div 2 \<or> S div 2 mod 2 ^ n \<noteq> 0 \<longleftrightarrow> S < E \<or> S mod 2 ^ Suc n \<noteq> 0"
proof (cases "S < E")
  case False
  then have "S = E" using assms by simp
  show ?thesis
  proof (cases "even S")
    case True
    then have "S mod 2 ^ Suc n = 2 * (S div 2 mod 2 ^ n)" by (auto simp: mult_mod_right elim: evenE)
    with True \<open>S = E\<close> show ?thesis by auto
  next
    case False
    then have "S mod 2 ^ Suc n \<noteq> 0" "E div 2 < Suc E div 2" using \<open>S = E\<close>
      by (auto simp: dvd_eq_mod_eq_0 [symmetric] dest: dvd_mult_left)
    with \<open>S = E\<close> show ?thesis by simp
  qed
qed (simp add: halves(3))

text \<open>The root does not depend on what is asked of the path.\<close>

lemma compute_levels_root:
  "res_bind (compute_levels K H cache side n l i S hs p) (\<lambda>(r, _). Ok r)
   = res_bind (compute_levels K H cache side' n l i' S hs p') (\<lambda>(r, _). Ok r)"
proof (induction n arbitrary: l i i' S hs p p')
  case (Suc n)
  show ?case
  proof (cases "pad_left cache l S hs i")
    case (Ok x)
    then obtain k where pad: "pad_left cache l S hs i' = Ok (fst x, k)"
      by (cases "cache_at cache l") (auto simp: pad_left_def split: if_splits)
    show ?thesis
    proof (cases "pad_right K H l (fst x)")
      case right: (Ok hs')
      then show ?thesis
        using Ok pad by (cases x) (simp, rule Suc.IH)
    qed (use Ok pad in \<open>cases x; simp\<close>)+
  qed (cases "cache_at cache l"; auto simp: pad_left_def split: if_splits)+
qed (simp split: list.split)

lemma range_root_nodes:
  assumes "S < R"
  shows "range_root (compress H) S (map (hash_node H ls l) [S..<R])
     (map (\<lambda>j. path_node H ls (Some LeftSide) (l + j) (S div 2 ^ j)) [0..<n])
     (map (\<lambda>j. path_node H ls (Some RightSide) (l + j) ((R - 1) div 2 ^ j)) [0..<n])
   = Some (hash_node H ls (l + n) (S div 2 ^ n))"
  using assms
proof (induction n arbitrary: S R l)
  case 0
  then show ?case using upt_conv_Cons [of S R] by simp
next
  case (Suc n)
  let ?S = "S div 2" and ?R = "Suc R div 2"
  let ?hs = "map (hash_node H ls l) [2 * ?S..<R]"
  have left: "fill_left S (path_node H ls (Some LeftSide) l S)
      (map (hash_node H ls l) [S..<R]) = Some ?hs"
  proof (cases "even S")
    case False
    then have "2 * ?S = S - 1" "[S - 1..<R] = (S - 1) # [S..<R]"
      using Suc.prems upt_conv_Cons [of "S - 1" R] by (auto elim: oddE)
    with False show ?thesis by (simp add: fill_left_def path_node_def sibling_def)
  qed (simp add: fill_left_def path_node_def)
  have right: "fill_right (path_node H ls (Some RightSide) l (R - Suc 0)) ?hs
      = Some (map (hash_node H ls l) [2 * ?S..<2 * ?R])"
  proof (cases "even R")
    case True
    then have "2 * ?R = R" "even (R - 2 * ?S)" "odd (R - Suc 0)" using Suc.prems by auto
    then show ?thesis by (simp add: fill_right_def path_node_def)
  next
    case False
    then have "2 * ?R = Suc R" "odd (R - 2 * ?S)" "even (R - Suc 0)" "sibling (R - Suc 0) = R" "2 * ?S \<le> R"
      using Suc.prems odd_pos [OF False] by (auto simp: sibling_def)
    then show ?thesis by (simp add: fill_right_def path_node_def)
  qed
  have half: "?S < ?R" "(R - Suc 0) div 2 = ?R - Suc 0" using Suc.prems by presburger+
  have "fold_pairs (compress H) (map (hash_node H ls l) [2 * ?S..<2 * ?R])
      = map (hash_node H ls (Suc l)) [?S..<?R]"
    unfolding hash_node_def by (rule fold_pairs_nodes)
  with Suc.IH [OF half(1), of "Suc l"] show ?case
    unfolding map_upt_Suc range_root.simps by (simp add: div_mult2_eq half(2) left right)
qed

lemma res_map_unwrap: "res_map unwrap (map Some xs) = Ok xs"
  by (induction xs) simp_all

text \<open>The contract of the trait \<^verbatim>\<open>HashEmptySubtree\<close>: its hashes are those of the empty trees
  under the hasher's own compression.\<close>

locale hash_empty_subtree =
  fixes K H :: merkle_hasher
  assumes empty_subtree: "l \<le> MAX_TREE_DEPTH \<Longrightarrow>
    empty_subtree_hash K H l = Ok (((\<lambda>h. compress H h h) ^^ l) (empty_leaf_hash H))"
begin

lemma empty_subtree_node:
  "l \<le> MAX_TREE_DEPTH \<Longrightarrow> length ls \<le> i * 2 ^ l \<Longrightarrow> empty_subtree_hash K H l = Ok (hash_node H ls l i)"
  by (simp add: empty_subtree hash_node_def node_empty)

lemma pad_right_nodes:
  assumes "l \<le> MAX_TREE_DEPTH" "length ls \<le> E * 2 ^ l" "S \<le> E"
  shows "pad_right K H l (map (hash_node H ls l) [2 * (S div 2)..<E])
    = Ok (map (hash_node H ls l) [2 * (S div 2)..<2 * (Suc E div 2)])"
proof (cases "even E")
  case True
  then have "2 * (Suc E div 2) = E" "(E - 2 * (S div 2)) mod 2 = 0" by presburger+
  then show ?thesis by (simp add: pad_right_def)
next
  case False
  then have "2 * (Suc E div 2) = Suc E" "(E - 2 * (S div 2)) mod 2 = 1" "2 * (S div 2) \<le> E"
    using assms(3) by presburger+
  then show ?thesis using empty_subtree_node [OF assms(1,2)] by (simp add: pad_right_def)
qed

lemma compute_levels_nodes:
  assumes "S \<le> E" "length ls \<le> E * 2 ^ l" "l + n \<le> MAX_TREE_DEPTH + 1"
    and "S + i < E \<or> S + i \<le> E \<and> side = Some LeftSide"
    and "\<And>j. j < n \<Longrightarrow> odd (S div 2 ^ j) \<Longrightarrow>
      get_at cache (l + j) = Some (Some (hash_node H ls (l + j) (S div 2 ^ j - 1)))"
  shows "compute_levels K H cache side n l i S (map (hash_node H ls l) [S..<E]) path =
    (if S < E \<or> S mod 2 ^ n \<noteq> 0
     then Ok (hash_node H ls (l + n) (S div 2 ^ n),
              path @ map (\<lambda>j. path_node H ls side (l + j) ((S + i) div 2 ^ j)) [0..<n])
     else Panic)"
  using assms
proof (induction n arbitrary: S E l i path)
  case 0
  then show ?case using upt_conv_Cons [of S E] by (cases "S < E") simp_all
next
  case (Suc n)
  let ?S = "S div 2" and ?E = "Suc E div 2" and ?i = "(i + S mod 2) div 2"
  have step: "compute_levels K H cache side (Suc n) l i S (map (hash_node H ls l) [S..<E]) path
      = compute_levels K H cache side n (Suc l) ?i ?S (map (hash_node H ls (Suc l)) [?S..<?E])
          (path @ [path_node H ls side l (S + i)])"
    using Suc.prems Suc.prems(5) [of 0]
    by (simp add: pad_left_nodes pad_right_nodes path_item_node compress_level_hash_nodes)
  have "E * 2 ^ l \<le> 2 * ?E * 2 ^ l" by (rule mult_right_mono) presburger+
  then have len: "length ls \<le> ?E * 2 ^ Suc l"
    using Suc.prems(2) by (simp only: power_Suc ac_simps)
  have ih: "compute_levels K H cache side n (Suc l) ?i ?S (map (hash_node H ls (Suc l)) [?S..<?E])
        (path @ [path_node H ls side l (S + i)])
      = (if ?S < ?E \<or> ?S mod 2 ^ n \<noteq> 0
         then Ok (hash_node H ls (Suc l + n) (?S div 2 ^ n), (path @ [path_node H ls side l (S + i)])
            @ map (\<lambda>j. path_node H ls side (Suc l + j) ((?S + ?i) div 2 ^ j)) [0..<n])
         else Panic)"
  proof (rule Suc.IH)
    fix j
    assume "j < n" "odd (?S div 2 ^ j)"
    then show "get_at cache (Suc l + j) = Some (Some (hash_node H ls (Suc l + j) (?S div 2 ^ j - 1)))"
      using Suc.prems(5) [of "Suc j"] by (simp add: div_mult2_eq)
  next
    show "?S \<le> ?E" using halves(1) [OF Suc.prems(1)] by simp
    show "?S + ?i < ?E \<or> ?S + ?i \<le> ?E \<and> side = Some LeftSide"
      unfolding halves(2) using halves_path [OF Suc.prems(4)] by simp
  qed (use Suc.prems(3) len in simp_all)
  have "map (\<lambda>j. path_node H ls side (l + j) ((S + i) div 2 ^ j)) (0 # map Suc [0..<n])
      = path_node H ls side l (S + i)
        # map (\<lambda>j. path_node H ls side (Suc l + j) ((S + i) div 2 div 2 ^ j)) [0..<n]"
    by (simp add: div_mult2_eq)
  then show ?case
    unfolding step ih halves(2) halves_nonempty [OF Suc.prems(1)]
    by (simp add: div_mult2_eq upt_conv_Cons map_Suc_upt del: upt_Suc)
qed

lemma compute_root_path:
  assumes rep: "represents H ls d t" and d: "d \<le> MAX_TREE_DEPTH"
    and i: "start_index t + i < length ls \<or> start_index t + i \<le> length ls \<and> side = Some LeftSide"
  shows "compute_merkle_root_and_path K H t i side =
    (if mt_hashes t \<noteq> [] \<or> start_index t mod 2 ^ d \<noteq> 0
     then Ok (plain_root H ls d, map (\<lambda>l. path_node H ls side l ((start_index t + i) div 2 ^ l)) [0..<d])
     else Panic)"
proof -
  let ?S = "start_index t"
  have hs: "mt_hashes t = map (hash_node H ls 0) [?S..<length ls]"
    using rep by (intro nth_equalityI) (auto simp: represents_def hash_node_def leaf_at_def)
  have "get_at (mt_cache t) (0 + j) = Some (Some (hash_node H ls (0 + j) (?S div 2 ^ j - 1)))"
    if "j < d" "odd (?S div 2 ^ j)" for j
    using rep that by (auto simp: represents_def get_at_def left_sibling_def nth_append)
  from compute_levels_nodes [where n = d and l = 0 and path = "[]", OF _ _ _ i this]
  have "compute_merkle_root_and_path K H t i side =
    (if ?S < length ls \<or> ?S mod 2 ^ d \<noteq> 0
     then Ok (hash_node H ls d (?S div 2 ^ d),
        map (\<lambda>l. path_node H ls side l ((?S + i) div 2 ^ l)) [0..<d]) else Panic)"
    using rep d unfolding compute_merkle_root_and_path_def hs by (simp add: represents_def)
  moreover have "?S div 2 ^ d = 0" if "?S < length ls \<or> ?S mod 2 ^ d \<noteq> 0"
  proof -
    have "?S \<le> length ls" "length ls \<le> 2 ^ d" using rep by (simp_all add: represents_def)
    then have "?S < 2 ^ d" using that by (cases "?S = 2 ^ d") auto
    then show ?thesis by simp
  qed
  moreover have "mt_hashes t \<noteq> [] \<longleftrightarrow> ?S < length ls" by (auto simp: hs)
  ultimately show ?thesis by (auto simp: plain_root_def)
qed

lemma merkle_root_plain:
  assumes rep: "represents H ls d t" and d: "d \<le> MAX_TREE_DEPTH"
  shows "merkle_root K H t = Ok (plain_root H ls d)"
proof (cases "mt_hashes t = [] \<and> (start_index t = 0 \<or> start_index t = 2 ^ d)")
  case True
  then have S: "start_index t = length ls" using rep by (simp add: represents_def)
  have "empty_subtree_hash K H d = Ok (plain_root H ls d)" if "start_index t = 0"
    using empty_subtree_node [OF d, of ls 0] S that by (simp add: plain_root_def)
  moreover have "cache_at (mt_cache t) d = Ok (plain_root H ls d)" if "start_index t = 2 ^ d"
    using rep that
    by (simp add: represents_def cache_at_def get_at_def left_sibling_def plain_root_def nth_append)
  ultimately show ?thesis using True rep by (auto simp: merkle_root_def represents_def)
next
  case False
  then have "mt_hashes t \<noteq> [] \<or> start_index t mod 2 ^ d \<noteq> 0"
    using rep by (cases "start_index t < 2 ^ d") (auto simp: represents_def)
  moreover have "merkle_root K H t
      = res_bind (compute_merkle_root_and_path K H t 0 (Some LeftSide)) (\<lambda>(root, _). Ok root)"
    using False rep compute_levels_root
    by (auto simp: merkle_root_def compute_merkle_root_and_path_def represents_def)
  ultimately show ?thesis
    using compute_root_path [OF rep d, of 0 "Some LeftSide"] rep by (simp add: represents_def)
qed

lemma trim_represents:
  assumes rep: "represents H ls d t" and d: "d \<le> MAX_TREE_DEPTH"
  shows "case trim_start K H count t of
      Ok t' \<Rightarrow> represents H ls d t' \<and> start_index t' = start_index t + count
    | _ \<Rightarrow> length (mt_hashes t) < count
        \<or> mt_hashes t = [] \<and> (start_index t = 0 \<or> start_index t = binary_tree_size t)"
proof (cases "count \<le> length (mt_hashes t)")
  case True
  let ?S = "start_index t"
  have bounds: "?S + count \<le> length ls" "length ls \<le> 2 ^ d" "binary_tree_size t = 2 ^ d"
    using rep True by (auto simp: represents_def)
  have run: "compute_merkle_root_and_path K H t count (Some LeftSide) =
    (if mt_hashes t \<noteq> [] \<or> ?S mod 2 ^ d \<noteq> 0
     then Ok (plain_root H ls d, map (left_sibling H ls (?S + count)) [0..<d]) else Panic)"
    using compute_root_path [OF rep d, of count "Some LeftSide"] bounds(1) by (simp add: left_sibling_path)
  show ?thesis
  proof (cases "mt_hashes t \<noteq> [] \<or> ?S mod 2 ^ d \<noteq> 0")
    case nonempty: True
    have "left_sibling H ls (2 ^ d) d = Some (plain_root H ls d)"
      by (simp add: left_sibling_def plain_root_def)
    then have "trim_start K H count t = Ok (t\<lparr>mt_hashes := drop (?S + count) ls, start_index := ?S + count,
        mt_cache := map (left_sibling H ls (?S + count)) [0..<d + (if ?S + count = 2 ^ d then 1 else 0)]\<rparr>)"
      using run nonempty True rep by (simp add: trim_start_def represents_def Let_def add.commute)
    then show ?thesis using bounds by (simp add: represents_def)
  next
    case False
    then have "?S = 0 \<or> ?S = 2 ^ d" using bounds by (cases "?S < 2 ^ d") auto
    then show ?thesis using False run bounds True by (simp add: trim_start_def)
  qed
qed (simp add: trim_start_def)

lemma merkle_path_verifies:
  assumes rep: "represents H ls d t" and d: "d \<le> MAX_TREE_DEPTH" and i: "start_index t + i < length ls"
  shows "\<exists>path. merkle_root_and_path K H t i = Ok (plain_root H ls d, path) \<and> length path = d
    \<and> fold_path (compress H) (start_index t + i) (ls ! (start_index t + i)) path = plain_root H ls d"
proof -
  let ?a = "start_index t + i"
  let ?path = "map (\<lambda>j. hash_node H ls j (sibling (?a div 2 ^ j))) [0..<d]"
  have "compute_merkle_root_and_path K H t i None = Ok (plain_root H ls d, map Some ?path)"
    using compute_root_path [OF rep d, of i None] i rep
    by (simp add: path_node_def comp_def represents_def)
  moreover have "i < length (mt_hashes t)" using i rep by (simp add: represents_def)
  ultimately have "merkle_root_and_path K H t i = Ok (plain_root H ls d, ?path)"
    by (simp add: merkle_root_and_path_def res_map_unwrap del: map_map)
  moreover have "?a < 2 ^ d" using i rep by (simp add: represents_def)
  then have "fold_path (compress H) ?a (ls ! ?a) ?path = plain_root H ls d"
    using fold_path_nodes [of "compress H" ?a "leaf_at (empty_leaf_hash H) ls" 0 d] i
    by (simp add: hash_node_def plain_root_def leaf_at_def)
  ultimately show ?thesis by simp
qed

lemma range_paths_verify:
  assumes rep: "represents H ls d t" and d: "d \<le> MAX_TREE_DEPTH"
    and len: "0 < len" "len \<le> length (mt_hashes t)"
  shows "\<exists>right. merkle_root_and_paths_for_range K H t len = Ok (plain_root H ls d, mt_cache t, right)
    \<and> range_root (compress H) (start_index t) (take len (mt_hashes t)) (mt_cache t) right
        = Some (plain_root H ls d)"
proof -
  let ?S = "start_index t"
  let ?right = "map (\<lambda>j. path_node H ls (Some RightSide) j ((?S + len - 1) div 2 ^ j)) [0..<d]"
  have b: "?S + len \<le> length ls" "length ls \<le> 2 ^ d" using rep len by (auto simp: represents_def)
  then have "?S + (len - 1) < length ls" using len(1) by simp
  then have "compute_merkle_root_and_path K H t (len - 1) (Some RightSide) = Ok (plain_root H ls d, ?right)"
    using compute_root_path [OF rep d, of "len - 1" "Some RightSide"] len by auto
  then have run: "merkle_root_and_paths_for_range K H t len = Ok (plain_root H ls d, mt_cache t, ?right)"
    using len by (simp add: merkle_root_and_paths_for_range_def)
  have hs: "take len (mt_hashes t) = map (hash_node H ls 0) [?S..<?S + len]"
    using rep b(1) by (intro nth_equalityI) (auto simp: represents_def hash_node_def leaf_at_def)
  have cache: "mt_cache t = map (\<lambda>j. path_node H ls (Some LeftSide) (0 + j) (?S div 2 ^ j)) [0..<d]"
    using rep b len(1) by (simp add: represents_def left_sibling_path)
  have "range_root (compress H) ?S (take len (mt_hashes t)) (mt_cache t) ?right
      = Some (hash_node H ls (0 + d) (?S div 2 ^ d))"
    unfolding hs cache using range_root_nodes [of ?S "?S + len" H ls 0 d] len(1) by simp
  moreover have "?S div 2 ^ d = 0" using b len(1) by simp
  ultimately show ?thesis using run by (simp add: plain_root_def)
qed

lemma run_ops_represents:
  assumes "represents H ls d t" "d \<le> MAX_TREE_DEPTH" "run_ops K H ops t = Ok t'"
    and "length (ls @ pushed ops) \<le> 2 ^ MAX_TREE_DEPTH"
  shows "\<exists>d' \<le> MAX_TREE_DEPTH. represents H (ls @ pushed ops) d' t'"
  using assms
proof (induction ops arbitrary: ls d t rule: pushed.induct)
  case (2 h ops)
  let ?d = "if length ls = 2 ^ d then Suc d else d"
  have "?d \<le> MAX_TREE_DEPTH"
  proof (cases "length ls = 2 ^ d")
    case True
    then have "(2 :: nat) ^ d < 2 ^ MAX_TREE_DEPTH"
      using "2.prems"(4) by (simp only: length_append pushed.simps list.size)
    then have "d < MAX_TREE_DEPTH" by (rule power_less_imp_less_exp [rotated]) simp
    then show ?thesis using True by simp
  qed (use "2.prems"(2) in simp)
  from "2.IH" [OF push_represents [OF "2.prems"(1), of h] this] "2.prems"(3,4) show ?case by simp
next
  case (3 n ops)
  then obtain t1 where t1: "trim_start K H n t = Ok t1" "run_ops K H ops t1 = Ok t'"
    by (auto simp: res_bind_Ok_iff)
  from trim_represents [OF "3.prems"(1,2), of n] t1(1) have "represents H ls d t1" by simp
  from "3.IH" [OF this "3.prems"(2) t1(2)] "3.prems"(4) show ?case by simp
qed auto

end

interpretation keccak: hash_empty_subtree "keccak_hasher k" "keccak_hasher k" for k
  by unfold_locales
    (simp add: empty_subtree_hash_def compute_empty_tree_hashes_def get_at_def nth_successors
      del: successors.simps)

end
