(* ===== verification/Merkle_Properties.thy ===== *)
theory Merkle_Properties
  imports Mini_Merkle
begin

text \<open>
  The properties of the in-memory Merkle tree with the Keccak hasher: whatever is pushed and trimmed,
  its roots and proofs are those of the plain binary tree over all leaves.
\<close>

section \<open>Runs\<close>

lemma keccak_run_represents:
  assumes "from_hashes hs m = Ok t0" "run_ops (keccak_hasher k) (keccak_hasher k) ops t0 = Ok t"
    and "length (hs @ pushed ops) \<le> 2 ^ 32"
  shows "\<exists>d \<le> MAX_TREE_DEPTH. d = tree_depth_by_size (binary_tree_size t)
    \<and> represents (keccak_hasher k) (hs @ pushed ops) d t"
proof -
  obtain d0 where d0: "d0 \<le> MAX_TREE_DEPTH" "represents (keccak_hasher k) hs d0 t0"
    using from_hashes_represents [OF assms(1)] by metis
  have "length (hs @ pushed ops) \<le> 2 ^ MAX_TREE_DEPTH" using assms(3) by (simp add: MAX_TREE_DEPTH_def)
  from keccak.run_ops_represents [OF d0(2,1) assms(2) this] obtain d
    where "d \<le> MAX_TREE_DEPTH" "represents (keccak_hasher k) (hs @ pushed ops) d t" by blast
  then show ?thesis by (auto simp: represents_def)
qed

text \<open>A toy hash for concrete trees: it keeps the structure of what was hashed.\<close>

definition demo_keccak :: "bytes \<Rightarrow> h256" where
  "demo_keccak bs = (if bs = replicate 88 0 then [0] else 1 # bs)"

definition demo_tree :: mini_merkle_tree where
  "demo_tree = \<lparr>mt_hashes = [[3], [4]], binary_tree_size = 4, start_index = 1,
     mt_cache = [Some [2], None]\<rparr>"

lemma demo_tree_run:
  "run_ops (keccak_hasher demo_keccak) (keccak_hasher demo_keccak) [PushOp [3], TrimOp 1, PushOp [4]]
     \<lparr>mt_hashes = [[2]], binary_tree_size = 1, start_index = 0, mt_cache = []\<rparr> = Ok demo_tree"
  by code_simp

lemma demo_tree_new:
  "from_hashes [[2]] None = Ok \<lparr>mt_hashes = [[2]], binary_tree_size = 1, start_index = 0, mt_cache = []\<rparr>"
  by code_simp

section \<open>Roots and proofs\<close>

text \<open>C18: The incremental tree computes the root of the plain tree: after any sequence of pushes and
  trims that does not panic, the root it returns is that of the binary tree over all leaves ever
  inserted, padded with empty leaves to the size of the tree.  Trimming never changes it.\<close>

theorem merkle_root_is_plain_root:
  assumes "from_hashes hs m = Ok t0" "run_ops (keccak_hasher k) (keccak_hasher k) ops t0 = Ok t"
    and "length (hs @ pushed ops) \<le> 2 ^ 32"
  shows "merkle_root (keccak_hasher k) (keccak_hasher k) t
    = Ok (plain_root (keccak_hasher k) (hs @ pushed ops) (tree_depth_by_size (binary_tree_size t)))"
  using keccak_run_represents [OF assms] keccak.merkle_root_plain by blast

theorem merkle_root_is_plain_root_witness:
  "merkle_root (keccak_hasher demo_keccak) (keccak_hasher demo_keccak) demo_tree
    = Ok (plain_root (keccak_hasher demo_keccak) [[2], [3], [4]] 2)"
proof -
  have "tree_depth_by_size (binary_tree_size demo_tree) = 2" by code_simp
  with merkle_root_is_plain_root [OF demo_tree_new demo_tree_run] show ?thesis by simp
qed

text \<open>C21: Merkle proofs are sound and complete for the untrimmed leaves: the path returned for a leaf
  has the depth of the tree, and folding it with the leaf gives the root.\<close>

theorem merkle_path_folds_to_root:
  assumes "from_hashes hs m = Ok t0" "run_ops (keccak_hasher k) (keccak_hasher k) ops t0 = Ok t"
    and "length (hs @ pushed ops) \<le> 2 ^ 32" and "i < length (mt_hashes t)"
  shows "\<exists>root path. merkle_root_and_path (keccak_hasher k) (keccak_hasher k) t i = Ok (root, path)
    \<and> merkle_root (keccak_hasher k) (keccak_hasher k) t = Ok root
    \<and> length path = tree_depth_by_size (binary_tree_size t)
    \<and> fold_path (compress (keccak_hasher k)) (start_index t + i) (mt_hashes t ! i) path = root"
proof -
  obtain d ls where d: "d \<le> MAX_TREE_DEPTH" "d = tree_depth_by_size (binary_tree_size t)"
    "represents (keccak_hasher k) ls d t"
    using keccak_run_represents [OF assms(1-3)] by blast
  have "start_index t + i < length ls" "mt_hashes t ! i = ls ! (start_index t + i)"
    using assms(4) d(3) by (auto simp: represents_def)
  with keccak.merkle_path_verifies [OF d(3,1)] keccak.merkle_root_plain [OF d(3,1)] d(2)
  show ?thesis by auto
qed

theorem merkle_path_folds_to_root_witness:
  "\<exists>root path. merkle_root_and_path (keccak_hasher demo_keccak) (keccak_hasher demo_keccak) demo_tree 1
      = Ok (root, path)
    \<and> fold_path (compress (keccak_hasher demo_keccak)) 2 [4] path = root"
proof -
  have "length (mt_hashes demo_tree) = 2" "mt_hashes demo_tree ! 1 = [4]" "start_index demo_tree = 1"
    by (simp_all add: demo_tree_def)
  with merkle_path_folds_to_root [OF demo_tree_new demo_tree_run, of 1] show ?thesis
    by (auto simp: Suc_1 simp del: One_nat_def)
qed

text \<open>C22: Range proofs: for the first untrimmed leaves, the cached left path and the right path
  returned are exactly what a verifier needs to rebuild the root, with no element missing and none
  to spare.\<close>

theorem merkle_range_rebuilds_root:
  assumes "from_hashes hs m = Ok t0" "run_ops (keccak_hasher k) (keccak_hasher k) ops t0 = Ok t"
    and "length (hs @ pushed ops) \<le> 2 ^ 32" and "0 < len" "len \<le> length (mt_hashes t)"
  shows "\<exists>root left right.
      merkle_root_and_paths_for_range (keccak_hasher k) (keccak_hasher k) t len = Ok (root, left, right)
    \<and> merkle_root (keccak_hasher k) (keccak_hasher k) t = Ok root
    \<and> range_root (compress (keccak_hasher k)) (start_index t) (take len (mt_hashes t)) left right
        = Some root"
proof -
  obtain d where d: "d \<le> MAX_TREE_DEPTH" "represents (keccak_hasher k) (hs @ pushed ops) d t"
    using keccak_run_represents [OF assms(1-3)] by blast
  from keccak.range_paths_verify [OF d(2,1) assms(4,5)] keccak.merkle_root_plain [OF d(2,1)]
  show ?thesis by blast
qed

theorem merkle_range_rebuilds_root_witness:
  "\<exists>root left right.
      merkle_root_and_paths_for_range (keccak_hasher demo_keccak) (keccak_hasher demo_keccak) demo_tree 2
        = Ok (root, left, right)
    \<and> range_root (compress (keccak_hasher demo_keccak)) 1 [[3], [4]] left right = Some root"
proof -
  have "length (mt_hashes demo_tree) = 2" "take 2 (mt_hashes demo_tree) = [[3], [4]]"
    "start_index demo_tree = 1"
    by (simp_all add: demo_tree_def)
  with merkle_range_rebuilds_root [OF demo_tree_new demo_tree_run, of 2] show ?thesis by auto
qed

text \<open>C28: When trimming panics: when more leaves are asked for than are untrimmed, as documented, and
  also when nothing is asked of a tree with no untrimmed leaf that is empty or wholly trimmed.
  Otherwise it succeeds and moves the first untrimmed leaf.\<close>

theorem trim_start_panics:
  assumes "from_hashes hs m = Ok t0" "run_ops (keccak_hasher k) (keccak_hasher k) ops t0 = Ok t"
    and "length (hs @ pushed ops) \<le> 2 ^ 32"
  shows "if length (mt_hashes t) < n
        \<or> mt_hashes t = [] \<and> (start_index t = 0 \<or> start_index t = binary_tree_size t)
     then trim_start (keccak_hasher k) (keccak_hasher k) n t = Panic
     else \<exists>t'. trim_start (keccak_hasher k) (keccak_hasher k) n t = Ok t'
       \<and> start_index t' = start_index t + n \<and> mt_hashes t' = drop n (mt_hashes t)"
proof -
  let ?trim = "trim_start (keccak_hasher k) (keccak_hasher k) n t"
  obtain d ls where d: "d \<le> MAX_TREE_DEPTH" "represents (keccak_hasher k) ls d t"
    using keccak_run_represents [OF assms] by blast
  note trim = keccak.trim_represents [OF d(2,1), of n]
  show ?thesis
  proof (cases "length (mt_hashes t) < n
      \<or> mt_hashes t = [] \<and> (start_index t = 0 \<or> start_index t = binary_tree_size t)")
    case True
    have "compute_merkle_root_and_path (keccak_hasher k) (keccak_hasher k) t n (Some LeftSide) = Panic"
      if "n \<le> length (mt_hashes t)"
      using keccak.compute_root_path [OF d(2,1), of n "Some LeftSide"] that True d(2)
      by (auto simp: represents_def)
    then show ?thesis using True by (auto simp: trim_start_def not_less)
  next
    case False
    then obtain t' where "?trim = Ok t'" using trim by (cases ?trim) auto
    with trim have t': "?trim = Ok t'" "represents (keccak_hasher k) ls d t'"
      "start_index t' = start_index t + n" by simp_all
    then have "mt_hashes t' = drop n (mt_hashes t)" using d(2) by (simp add: represents_def add.commute)
    with t' False show ?thesis by simp
  qed
qed

theorem trim_start_panics_witness:
  "trim_start (keccak_hasher demo_keccak) (keccak_hasher demo_keccak) 0
     \<lparr>mt_hashes = [], binary_tree_size = 1, start_index = 0, mt_cache = []\<rparr> = Panic"
proof -
  have "from_hashes [] None = Ok \<lparr>mt_hashes = [], binary_tree_size = 1, start_index = 0, mt_cache = []\<rparr>"
    by code_simp
  from trim_start_panics [OF this, of demo_keccak "[]"] show ?thesis by simp
qed

end
