(* ===== verification/Alist_Prelude.thy ===== *)
theory Alist_Prelude
  imports Via_Prelude "HOL-Library.AList"
begin

text \<open>
  Hash maps as association lists without duplicate keys: what an update and a removal do to the
  entries and to a sum over them.
\<close>

definition alist_ok :: "('k \<times> 'v) list \<Rightarrow> bool" where
  "alist_ok xs \<longleftrightarrow> distinct (map fst xs)"

lemma alist_ok_Nil [simp]: "alist_ok []"
  by (simp add: alist_ok_def)

lemma alist_ok_update [simp]: "alist_ok xs \<Longrightarrow> alist_ok (AList.update k v xs)"
  by (simp add: alist_ok_def distinct_update)

lemma alist_ok_delete [simp]: "alist_ok xs \<Longrightarrow> alist_ok (AList.delete k xs)"
  by (simp add: alist_ok_def distinct_delete)

lemma alist_ok_filter [simp]: "alist_ok xs \<Longrightarrow> alist_ok (filter p xs)"
  by (simp add: alist_ok_def distinct_map_filter)

lemma map_of_in_set: "alist_ok xs \<Longrightarrow> map_of xs k = Some v \<longleftrightarrow> (k, v) \<in> set xs"
  by (simp add: alist_ok_def)

lemma map_of_filter_key:
  "map_of (filter (\<lambda>(k, v). P k) xs) k = (if P k then map_of xs k else None)"
  by (induction xs) auto

definition alist_sum :: "('v \<Rightarrow> nat) \<Rightarrow> ('k \<times> 'v) list \<Rightarrow> nat" where
  "alist_sum f xs = sum_list (map (f \<circ> snd) xs)"

lemma alist_sum_Nil [simp]: "alist_sum f [] = 0"
  by (simp add: alist_sum_def)

lemma alist_sum_update:
  assumes "alist_ok xs"
  shows "alist_sum f (AList.update k v xs) + (case map_of xs k of Some w \<Rightarrow> f w | None \<Rightarrow> 0)
    = alist_sum f xs + f v"
  using assms
proof (induction xs)
  case (Cons x xs)
  have "map_of xs (fst x) = None" using Cons.prems by (simp add: alist_ok_def map_of_eq_None_iff)
  then show ?case
    using Cons by (cases x) (auto simp: alist_sum_def alist_ok_def split: option.splits)
qed (simp add: alist_sum_def)

lemma alist_sum_delete:
  assumes "alist_ok xs"
  shows "alist_sum f (AList.delete k xs) + (case map_of xs k of Some w \<Rightarrow> f w | None \<Rightarrow> 0)
    = alist_sum f xs"
  using assms
proof (induction xs)
  case (Cons x xs)
  have "map_of xs (fst x) = None" "AList.delete (fst x) xs = xs"
    using Cons.prems by (simp_all add: alist_ok_def map_of_eq_None_iff delete_id)
  then show ?case
    using Cons by (cases x) (auto simp: alist_sum_def alist_ok_def split: option.splits)
qed (simp add: alist_sum_def)

lemma length_alist_sum: "length xs = alist_sum (\<lambda>_. 1) xs"
  by (induction xs) (simp_all add: alist_sum_def)

lemma length_alist_update:
  "alist_ok xs \<Longrightarrow> length (AList.update k v xs) = (if map_of xs k = None then Suc (length xs) else length xs)"
  using alist_sum_update [of xs "\<lambda>_. 1" k v] by (auto simp: length_alist_sum split: option.splits)

lemma length_alist_delete:
  "alist_ok xs \<Longrightarrow> map_of xs k \<noteq> None \<Longrightarrow> Suc (length (AList.delete k xs)) = length xs"
  using alist_sum_delete [of xs "\<lambda>_. 1" k] by (auto simp: length_alist_sum split: option.splits)

end
