(* ===== verification/Fee_Model.thy ===== *)
theory Fee_Model
  imports Via_Prelude
begin

text \<open>
  The fee model: protocol and VM versions (\<^verbatim>\<open>core/lib/basic_types/src\<close>), the fee inputs
  (\<^verbatim>\<open>core/lib/types/src/fee_model.rs\<close>), the Via fee providers
  (\<^verbatim>\<open>core/node/via_fee_model/src/lib.rs\<close>) and the base fee with the gas per byte of pubdata that
  the VM versions derive from an input (\<^verbatim>\<open>core/lib/multivm/src/utils/mod.rs\<close> and the
  \<^verbatim>\<open>fee\<close> modules of the versions).  The arithmetic wraps at 64 bits where the code multiplies
  \<^verbatim>\<open>u64\<close> values, a division by zero and a value too large for \<^verbatim>\<open>as_u64\<close> panic, and the
  floating point fields, which nothing here reads, are bit patterns.
\<close>

section \<open>Versions\<close>

type_synonym u256 = "256 word"
type_synonym f64 = "64 word"

datatype protocol_version_id =
    Version0 | Version1 | Version2 | Version3 | Version4 | Version5 | Version6 | Version7
  | Version8 | Version9 | Version10 | Version11 | Version12 | Version13 | Version14 | Version15
  | Version16 | Version17 | Version18 | Version19 | Version20 | Version21 | Version22 | Version23
  | Version24 | Version25

fun pv_num :: "protocol_version_id \<Rightarrow> nat" where
  "pv_num Version0 = 0" | "pv_num Version1 = 1" | "pv_num Version2 = 2" | "pv_num Version3 = 3"
| "pv_num Version4 = 4" | "pv_num Version5 = 5" | "pv_num Version6 = 6" | "pv_num Version7 = 7"
| "pv_num Version8 = 8" | "pv_num Version9 = 9" | "pv_num Version10 = 10" | "pv_num Version11 = 11"
| "pv_num Version12 = 12" | "pv_num Version13 = 13" | "pv_num Version14 = 14"
| "pv_num Version15 = 15" | "pv_num Version16 = 16" | "pv_num Version17 = 17"
| "pv_num Version18 = 18" | "pv_num Version19 = 19" | "pv_num Version20 = 20"
| "pv_num Version21 = 21" | "pv_num Version22 = 22" | "pv_num Version23 = 23"
| "pv_num Version24 = 24" | "pv_num Version25 = 25"

lemma pv_num_inject: "pv_num a = pv_num b \<Longrightarrow> a = b"
  by (cases a; cases b; simp)

instantiation protocol_version_id :: linorder
begin

definition less_eq_protocol_version_id :: "protocol_version_id \<Rightarrow> protocol_version_id \<Rightarrow> bool" where
  "less_eq_protocol_version_id a b \<longleftrightarrow> pv_num a \<le> pv_num b"

definition less_protocol_version_id :: "protocol_version_id \<Rightarrow> protocol_version_id \<Rightarrow> bool" where
  "less_protocol_version_id a b \<longleftrightarrow> pv_num a < pv_num b"

instance
  by standard (auto simp: less_eq_protocol_version_id_def less_protocol_version_id_def
    intro: pv_num_inject)

end

definition is_post_1_4_1 :: "protocol_version_id \<Rightarrow> bool" where
  "is_post_1_4_1 p \<longleftrightarrow> Version20 \<le> p"

datatype vm_version =
    M5WithoutRefunds | M5WithRefunds | M6Initial | M6BugWithCompressionFixed | Vm1_3_2
  | VmVirtualBlocks | VmVirtualBlocksRefundsEnhancement | VmBoojumIntegration | Vm1_4_1 | Vm1_4_2
  | Vm1_5_0SmallBootloaderMemory | Vm1_5_0IncreasedBootloaderMemory

fun vm_version_from :: "protocol_version_id \<Rightarrow> vm_version" where
  "vm_version_from Version0 = M5WithoutRefunds"
| "vm_version_from Version1 = M5WithoutRefunds"
| "vm_version_from Version2 = M5WithRefunds"
| "vm_version_from Version3 = M5WithRefunds"
| "vm_version_from Version4 = M6Initial"
| "vm_version_from Version5 = M6BugWithCompressionFixed"
| "vm_version_from Version6 = M6BugWithCompressionFixed"
| "vm_version_from Version7 = Vm1_3_2"
| "vm_version_from Version8 = Vm1_3_2"
| "vm_version_from Version9 = Vm1_3_2"
| "vm_version_from Version10 = Vm1_3_2"
| "vm_version_from Version11 = Vm1_3_2"
| "vm_version_from Version12 = Vm1_3_2"
| "vm_version_from Version13 = VmVirtualBlocks"
| "vm_version_from Version14 = VmVirtualBlocks"
| "vm_version_from Version15 = VmVirtualBlocks"
| "vm_version_from Version16 = VmVirtualBlocksRefundsEnhancement"
| "vm_version_from Version17 = VmVirtualBlocksRefundsEnhancement"
| "vm_version_from Version18 = VmBoojumIntegration"
| "vm_version_from Version19 = VmBoojumIntegration"
| "vm_version_from Version20 = Vm1_4_1"
| "vm_version_from Version21 = Vm1_4_2"
| "vm_version_from Version22 = Vm1_4_2"
| "vm_version_from Version23 = Vm1_5_0SmallBootloaderMemory"
| "vm_version_from Version24 = Vm1_5_0IncreasedBootloaderMemory"
| "vm_version_from Version25 = Vm1_5_0IncreasedBootloaderMemory"

section \<open>Fee inputs\<close>

record l1_pegged_input =
  lp_fair_l2_gas_price :: u64
  lp_l1_gas_price :: u64

record pubdata_independent_input =
  pi_fair_l2_gas_price :: u64
  pi_fair_pubdata_price :: u64
  pi_l1_gas_price :: u64

datatype batch_fee_input =
    L1Pegged l1_pegged_input
  | PubdataIndependent pubdata_independent_input

definition L1_GAS_PER_PUBDATA_BYTE :: u32 where "L1_GAS_PER_PUBDATA_BYTE = 17"

definition l1_pegged :: "u64 \<Rightarrow> u64 \<Rightarrow> batch_fee_input" where
  "l1_pegged l1_gas_price fair_l2_gas_price =
     L1Pegged \<lparr>lp_fair_l2_gas_price = fair_l2_gas_price, lp_l1_gas_price = l1_gas_price\<rparr>"

definition pubdata_independent :: "u64 \<Rightarrow> u64 \<Rightarrow> u64 \<Rightarrow> batch_fee_input" where
  "pubdata_independent l1_gas_price fair_l2_gas_price fair_pubdata_price =
     PubdataIndependent \<lparr>pi_fair_l2_gas_price = fair_l2_gas_price,
       pi_fair_pubdata_price = fair_pubdata_price, pi_l1_gas_price = l1_gas_price\<rparr>"

fun into_l1_pegged :: "batch_fee_input \<Rightarrow> (unit, l1_pegged_input) res" where
  "into_l1_pegged (L1Pegged i) = Ok i"
| "into_l1_pegged (PubdataIndependent i) = Panic"

fun fair_pubdata_price :: "batch_fee_input \<Rightarrow> u64" where
  "fair_pubdata_price (L1Pegged i) = lp_l1_gas_price i * ucast L1_GAS_PER_PUBDATA_BYTE"
| "fair_pubdata_price (PubdataIndependent i) = pi_fair_pubdata_price i"

fun fair_l2_gas_price :: "batch_fee_input \<Rightarrow> u64" where
  "fair_l2_gas_price (L1Pegged i) = lp_fair_l2_gas_price i"
| "fair_l2_gas_price (PubdataIndependent i) = pi_fair_l2_gas_price i"

fun input_l1_gas_price :: "batch_fee_input \<Rightarrow> u64" where
  "input_l1_gas_price (L1Pegged i) = lp_l1_gas_price i"
| "input_l1_gas_price (PubdataIndependent i) = pi_l1_gas_price i"

fun into_pubdata_independent :: "batch_fee_input \<Rightarrow> pubdata_independent_input" where
  "into_pubdata_independent (PubdataIndependent i) = i"
| "into_pubdata_independent (L1Pegged i) =
     \<lparr>pi_fair_l2_gas_price = lp_fair_l2_gas_price i,
      pi_fair_pubdata_price = lp_l1_gas_price i * ucast L1_GAS_PER_PUBDATA_BYTE,
      pi_l1_gas_price = lp_l1_gas_price i\<rparr>"

definition for_protocol_version ::
    "protocol_version_id \<Rightarrow> u64 \<Rightarrow> u64 option \<Rightarrow> u64 \<Rightarrow> (unit, batch_fee_input) res" where
  "for_protocol_version p fair_l2 fair_pubdata l1_price =
     (if is_post_1_4_1 p then
        res_bind (unwrap fair_pubdata) (\<lambda>pubdata_price.
        Ok (PubdataIndependent \<lparr>pi_fair_l2_gas_price = fair_l2, pi_fair_pubdata_price = pubdata_price,
          pi_l1_gas_price = l1_price\<rparr>))
      else Ok (L1Pegged \<lparr>lp_fair_l2_gas_price = fair_l2, lp_l1_gas_price = l1_price\<rparr>))"

fun stricter :: "batch_fee_input \<Rightarrow> batch_fee_input \<Rightarrow> batch_fee_input" where
  "stricter (L1Pegged a) (L1Pegged b) =
     l1_pegged (max (lp_l1_gas_price a) (lp_l1_gas_price b))
       (max (lp_fair_l2_gas_price a) (lp_fair_l2_gas_price b))"
| "stricter a b =
     (let first = into_pubdata_independent a; second = into_pubdata_independent b in
      pubdata_independent (max (pi_l1_gas_price first) (pi_l1_gas_price second))
        (max (pi_fair_l2_gas_price first) (pi_fair_l2_gas_price second))
        (max (pi_fair_pubdata_price first) (pi_fair_pubdata_price second)))"

section \<open>Parameters and providers\<close>

record fee_model_config_v1 =
  v1_minimal_l2_gas_price :: u64

record fee_model_config_v2 =
  minimal_l2_gas_price :: u64
  compute_overhead_part :: f64
  pubdata_overhead_part :: f64
  batch_overhead_l1_gas :: u64
  max_gas_per_batch :: u64
  max_pubdata_per_batch :: u64

datatype fee_model_config = ConfigV1 fee_model_config_v1 | ConfigV2 fee_model_config_v2

record conversion_ratio =
  ratio_numerator :: u64
  ratio_denominator :: u64

definition conversion_ratio_default :: conversion_ratio where
  "conversion_ratio_default = \<lparr>ratio_numerator = 1, ratio_denominator = 1\<rparr>"

record fee_params_v1 =
  fp1_config :: fee_model_config_v1
  fp1_l1_gas_price :: u64

record fee_params_v2 =
  fp_config :: fee_model_config_v2
  fp_l1_gas_price :: u64
  fp_l1_pubdata_price :: u64
  fp_conversion_ratio :: conversion_ratio

datatype fee_params = ParamsV1 fee_params_v1 | ParamsV2 fee_params_v2

definition fee_params_v2_new ::
    "fee_model_config_v2 \<Rightarrow> u64 \<Rightarrow> u64 \<Rightarrow> conversion_ratio \<Rightarrow> fee_params_v2" where
  "fee_params_v2_new c gas pubdata r =
     \<lparr>fp_config = c, fp_l1_gas_price = gas, fp_l1_pubdata_price = pubdata, fp_conversion_ratio = r\<rparr>"

text \<open>
  \<open>scale p n d\<close> is the integer part of \<^verbatim>\<open>BigDecimal::from(p) * (BigDecimal::from(n) /
  BigDecimal::from(d))\<close> of the \<^verbatim>\<open>bigdecimal\<close> crate, whose division rounds.  Documented: a quotient
  that needs no rounding is exact, in particular one by 1.
\<close>

type_synonym decimal_scale = "nat \<Rightarrow> nat \<Rightarrow> nat \<Rightarrow> nat"

definition scale_exact :: "decimal_scale \<Rightarrow> bool" where
  "scale_exact scale \<longleftrightarrow> (\<forall>p n. scale p n 1 = p * n)"

definition convert_to_base_token :: "decimal_scale \<Rightarrow> fee_params_v2 \<Rightarrow> u64 \<Rightarrow> u64" where
  "convert_to_base_token scale f price =
     (let converted = scale (unat price) (unat (ratio_numerator (fp_conversion_ratio f)))
            (unat (ratio_denominator (fp_conversion_ratio f)))
      in if converted < 2 ^ 64 then of_nat converted else - 1)"

definition params_l1_gas_price :: "decimal_scale \<Rightarrow> fee_params_v2 \<Rightarrow> u64" where
  "params_l1_gas_price scale f = convert_to_base_token scale f (fp_l1_gas_price f)"

definition params_l1_pubdata_price :: "decimal_scale \<Rightarrow> fee_params_v2 \<Rightarrow> u64" where
  "params_l1_pubdata_price scale f = convert_to_base_token scale f (fp_l1_pubdata_price f)"

definition params_config :: "decimal_scale \<Rightarrow> fee_params_v2 \<Rightarrow> fee_model_config_v2" where
  "params_config scale f = (fp_config f)
     \<lparr>minimal_l2_gas_price := convert_to_base_token scale f (minimal_l2_gas_price (fp_config f))\<rparr>"

text \<open>The provider of the main node holds its configuration; both providers ignore the scale
  factors.\<close>

definition via_main_provider_new :: "fee_model_config \<Rightarrow> (unit, fee_model_config_v2) res" where
  "via_main_provider_new c = (case c of ConfigV2 v \<Rightarrow> Ok v | ConfigV1 _ \<Rightarrow> Err ())"

definition main_batch_fee_input :: "fee_model_config_v2 \<Rightarrow> batch_fee_input" where
  "main_batch_fee_input c =
     pubdata_independent (minimal_l2_gas_price c) (minimal_l2_gas_price c) (max_pubdata_per_batch c)"

definition main_fee_model_params :: "fee_model_config_v2 \<Rightarrow> fee_params" where
  "main_fee_model_params c = ParamsV2 (fee_params_v2_new c (minimal_l2_gas_price c)
     (max_pubdata_per_batch c) conversion_ratio_default)"

definition api_batch_fee_input :: "decimal_scale \<Rightarrow> fee_params \<Rightarrow> (unit, batch_fee_input) res" where
  "api_batch_fee_input scale p =
     (case p of
        ParamsV2 v \<Rightarrow> Ok (pubdata_independent (params_l1_gas_price scale v)
          (params_l1_gas_price scale v) (params_l1_pubdata_price scale v))
      | ParamsV1 _ \<Rightarrow> Err ())"

end
