(* ===== verification/Tx_Types.thy ===== *)
theory Tx_Types
  imports Btc_Types Fee_Model Json_Value
begin

text \<open>
  The transactions of the L2 chain (\<^verbatim>\<open>core/lib/types/src\<close>): priority operations that come from
  Bitcoin, L2 transactions and upgrades, and the canonical form of a priority operation with its
  hash (\<^verbatim>\<open>abi.rs\<close>).  An address is its 20 bytes and a hash its 32 bytes.
\<close>

section \<open>Transactions\<close>

record tx_fee =
  fee_gas_limit :: u256
  fee_max_fee_per_gas :: u256
  fee_max_priority_fee_per_gas :: u256
  fee_gas_per_pubdata_limit :: u256

record execute_data =
  ex_contract_address :: evm_address
  ex_calldata :: bytes
  ex_value :: u256
  ex_factory_deps :: "bytes list"

datatype op_processing_type = Common | OnlyRollup

datatype priority_queue_type = Deque | HeapBuffer | Heap

datatype transaction_type =
    LegacyTransaction | EIP2930Transaction | EIP1559Transaction | EIP712Transaction
  | PriorityOpTransaction | ProtocolUpgradeTransaction

definition EIP_712_TX_TYPE :: u8 where "EIP_712_TX_TYPE = 0x71"
definition EIP_1559_TX_TYPE :: u8 where "EIP_1559_TX_TYPE = 0x02"
definition EIP_2930_TX_TYPE :: u8 where "EIP_2930_TX_TYPE = 0x01"
definition PRIORITY_OPERATION_L2_TX_TYPE :: u8 where "PRIORITY_OPERATION_L2_TX_TYPE = 0xff"
definition PROTOCOL_UPGRADE_TX_TYPE :: u8 where "PROTOCOL_UPGRADE_TX_TYPE = 0xfe"

text \<open>The discriminants of \<^verbatim>\<open>TransactionType\<close>.\<close>

fun transaction_type_code :: "transaction_type \<Rightarrow> u32" where
  "transaction_type_code LegacyTransaction = 0"
| "transaction_type_code EIP2930Transaction = 1"
| "transaction_type_code EIP1559Transaction = 2"
| "transaction_type_code EIP712Transaction = ucast EIP_712_TX_TYPE"
| "transaction_type_code PriorityOpTransaction = ucast PRIORITY_OPERATION_L2_TX_TYPE"
| "transaction_type_code ProtocolUpgradeTransaction = ucast PROTOCOL_UPGRADE_TX_TYPE"

record l1_tx_common_data =
  l1_sender :: evm_address
  serial_id :: u64
  layer_2_tip_fee :: u256
  full_fee :: u256
  l1_max_fee_per_gas :: u256
  l1_gas_limit :: u256
  l1_gas_per_pubdata_limit :: u256
  op_processing :: op_processing_type
  queue_type :: priority_queue_type
  canonical_tx_hash :: h256
  to_mint :: u256
  refund_recipient :: evm_address
  eth_block :: u64

record l1_tx =
  l1_execute :: execute_data
  l1_common_data :: l1_tx_common_data
  l1_received_timestamp_ms :: u64

definition l1_serial_id :: "l1_tx \<Rightarrow> u64" where
  "l1_serial_id tx = serial_id (l1_common_data tx)"

definition l1_eth_block :: "l1_tx \<Rightarrow> u32" where
  "l1_eth_block tx = ucast (eth_block (l1_common_data tx))"

definition l1_hash :: "l1_tx \<Rightarrow> h256" where
  "l1_hash tx = canonical_tx_hash (l1_common_data tx)"

record paymaster_params =
  pm_paymaster :: evm_address
  pm_input :: bytes

record input_data =
  in_hash :: h256
  in_data :: bytes

text \<open>An L2 transaction with its common data.\<close>

record l2_tx =
  l2_initiator :: evm_address
  l2_nonce :: u32
  l2_fee :: tx_fee
  l2_received_ms :: u64
  l2_signature :: bytes
  l2_transaction_type :: transaction_type
  l2_input :: "input_data option"
  l2_paymaster_params :: paymaster_params
  l2_execute :: execute_data
  l2_raw_bytes :: "bytes option"

record upgrade_tx =
  up_sender :: evm_address
  up_upgrade_id :: u16
  up_max_fee_per_gas :: u256
  up_gas_limit :: u256
  up_gas_per_pubdata_limit :: u256
  up_eth_block :: u64
  up_canonical_tx_hash :: h256
  up_to_mint :: u256
  up_refund_recipient :: evm_address
  up_execute :: execute_data
  up_received_ms :: u64

datatype pool_tx = L1Tx l1_tx | L2Tx l2_tx | ProtocolUpgradeTx upgrade_tx

section \<open>The canonical form\<close>

text \<open>Tokens of the \<^verbatim>\<open>ethabi\<close> crate.\<close>

datatype token =
    UintToken u256
  | BytesToken bytes
  | FixedArrayToken "token list"
  | ArrayToken "token list"
  | TupleToken "token list"

record l2_canonical_transaction =
  ct_tx_type :: u256
  ct_from :: u256
  ct_to :: u256
  ct_gas_limit :: u256
  ct_gas_per_pubdata_byte_limit :: u256
  ct_max_fee_per_gas :: u256
  ct_max_priority_fee_per_gas :: u256
  ct_paymaster :: u256
  ct_nonce :: u256
  ct_value :: u256
  ct_reserved :: "u256 list"
  ct_data :: bytes
  ct_signature :: bytes
  ct_factory_deps :: "u256 list"
  ct_paymaster_input :: bytes
  ct_reserved_dynamic :: bytes

definition canonical_encode :: "l2_canonical_transaction \<Rightarrow> token" where
  "canonical_encode t = TupleToken
     [UintToken (ct_tx_type t), UintToken (ct_from t), UintToken (ct_to t),
      UintToken (ct_gas_limit t), UintToken (ct_gas_per_pubdata_byte_limit t),
      UintToken (ct_max_fee_per_gas t), UintToken (ct_max_priority_fee_per_gas t),
      UintToken (ct_paymaster t), UintToken (ct_nonce t), UintToken (ct_value t),
      FixedArrayToken (map UintToken (ct_reserved t)), BytesToken (ct_data t),
      BytesToken (ct_signature t), ArrayToken (map UintToken (ct_factory_deps t)),
      BytesToken (ct_paymaster_input t), BytesToken (ct_reserved_dynamic t)]"

text \<open>What the transactions need of other crates: the ABI encoding and Keccak, hexadecimal text, the
  JSON forms that \<^verbatim>\<open>ethereum-types\<close> gives an address and a \<^verbatim>\<open>U256\<close>, and the seconds since 1970 that
  a \<^verbatim>\<open>NaiveDateTime\<close> can hold.\<close>

record tx_lib =
  ethabi_encode :: "token list \<Rightarrow> bytes"
  keccak256 :: "bytes \<Rightarrow> h256"
  hex_encode_text :: "bytes \<Rightarrow> bytes"
  hex_decode_text :: "bytes \<Rightarrow> bytes option"
  address_to_json :: "evm_address \<Rightarrow> json"
  address_from_json :: "json \<Rightarrow> evm_address option"
  u256_to_json :: "u256 \<Rightarrow> json"
  u256_from_json :: "json \<Rightarrow> u256 option"
  datetime_in_range :: "u64 \<Rightarrow> bool"

text \<open>Documented behaviour: hexadecimal text, addresses and 256-bit numbers read back, and a Keccak
  hash has 32 bytes.\<close>

definition tx_lib_ok :: "tx_lib \<Rightarrow> bool" where
  "tx_lib_ok X \<longleftrightarrow> (\<forall>b. hex_decode_text X (hex_encode_text X b) = Some b)
     \<and> (\<forall>a. length a = 20 \<longrightarrow> address_from_json X (address_to_json X a) = Some a)
     \<and> (\<forall>v. u256_from_json X (u256_to_json X v) = Some v)
     \<and> (\<forall>b. length (keccak256 X b) = 32)"

section \<open>The JSON form of an execution\<close>

text \<open>\<^verbatim>\<open>ZeroPrefixHexSerde\<close> over a human-readable format: hexadecimal text after \<^verbatim>\<open>0x\<close>.\<close>

definition zerox_prefix :: bytes where
  "zerox_prefix = [0x30, 0x78]"

definition bytes_to_hex_serialize :: "tx_lib \<Rightarrow> bytes \<Rightarrow> json" where
  "bytes_to_hex_serialize X v = JString (zerox_prefix @ hex_encode_text X v)"

fun bytes_to_hex_deserialize :: "tx_lib \<Rightarrow> json \<Rightarrow> bytes option" where
  "bytes_to_hex_deserialize X (JString s) =
     (if take (length zerox_prefix) s = zerox_prefix
      then hex_decode_text X (drop (length zerox_prefix) s) else None)"
| "bytes_to_hex_deserialize X _ = None"

record execute_serde =
  es_contract_address :: evm_address
  es_calldata :: bytes
  es_value :: u256
  es_factory_deps :: "bytes list option"

text \<open>The derived implementations of \<^verbatim>\<open>ExecuteSerde\<close>: an object with the fields in camel case.  Reading
  takes an object, in which a missing \<^verbatim>\<open>factoryDeps\<close> is \<^verbatim>\<open>None\<close>, or an array of the four fields.\<close>

definition execute_serde_serialize :: "tx_lib \<Rightarrow> execute_serde \<Rightarrow> json" where
  "execute_serde_serialize X x = JObject
     [(''contractAddress'', address_to_json X (es_contract_address x)),
      (''calldata'', bytes_to_hex_serialize X (es_calldata x)),
      (''value'', u256_to_json X (es_value x)),
      (''factoryDeps'', option_to_json (vec_to_json (vec_to_json u8_to_json)) (es_factory_deps x))]"

definition factory_deps_from_json :: "json \<Rightarrow> bytes list option option" where
  "factory_deps_from_json = option_from_json (vec_from_json (vec_from_json u8_from_json))"

definition execute_serde_of ::
    "evm_address option \<Rightarrow> bytes option \<Rightarrow> u256 option \<Rightarrow> bytes list option option \<Rightarrow> execute_serde option" where
  "execute_serde_of a c v deps =
     Option.bind a (\<lambda>a. Option.bind c (\<lambda>c. Option.bind v (\<lambda>v. Option.bind deps (\<lambda>deps.
       Some \<lparr>es_contract_address = a, es_calldata = c, es_value = v, es_factory_deps = deps\<rparr>))))"

fun execute_serde_deserialize :: "tx_lib \<Rightarrow> json \<Rightarrow> execute_serde option" where
  "execute_serde_deserialize X (JObject obj) =
     execute_serde_of (required_field obj ''contractAddress'' (address_from_json X))
       (required_field obj ''calldata'' (bytes_to_hex_deserialize X))
       (required_field obj ''value'' (u256_from_json X))
       (optional_field obj ''factoryDeps'' factory_deps_from_json)"
| "execute_serde_deserialize X (JArray [a, c, v, deps]) =
     execute_serde_of (address_from_json X a) (bytes_to_hex_deserialize X c) (u256_from_json X v)
       (factory_deps_from_json deps)"
| "execute_serde_deserialize X _ = None"

definition execute_serialize :: "tx_lib \<Rightarrow> execute_data \<Rightarrow> json" where
  "execute_serialize X e = execute_serde_serialize X
     \<lparr>es_contract_address = ex_contract_address e, es_calldata = ex_calldata e,
      es_value = ex_value e, es_factory_deps = Some (ex_factory_deps e)\<rparr>"

definition execute_deserialize :: "tx_lib \<Rightarrow> json \<Rightarrow> execute_data option" where
  "execute_deserialize X d = Option.bind (execute_serde_deserialize X d) (\<lambda>x.
     Some \<lparr>ex_contract_address = es_contract_address x, ex_calldata = es_calldata x,
       ex_value = es_value x, ex_factory_deps = (case es_factory_deps x of None \<Rightarrow> [] | Some deps \<Rightarrow> deps)\<rparr>)"

text \<open>An execution reads back from its JSON form.\<close>

lemma bytes_to_hex_roundtrip:
  assumes "tx_lib_ok X"
  shows "bytes_to_hex_deserialize X (bytes_to_hex_serialize X b) = Some b"
  using assms by (simp add: bytes_to_hex_serialize_def zerox_prefix_def tx_lib_ok_def)

lemma factory_deps_roundtrip:
  "factory_deps_from_json (option_to_json (vec_to_json (vec_to_json u8_to_json)) (Some deps)) = Some (Some deps)"
  unfolding factory_deps_from_json_def by (intro option_vec_roundtrip vec_roundtrip u8_roundtrip)

lemma execute_roundtrip:
  assumes "tx_lib_ok X" "length (ex_contract_address e) = 20"
  shows "execute_deserialize X (execute_serialize X e) = Some e"
proof -
  have laws: "address_from_json X (address_to_json X (ex_contract_address e)) = Some (ex_contract_address e)"
    "u256_from_json X (u256_to_json X (ex_value e)) = Some (ex_value e)"
    using assms by (simp_all add: tx_lib_ok_def)
  show ?thesis
    by (simp add: execute_deserialize_def execute_serialize_def execute_serde_serialize_def
        execute_serde_of_def required_field_def optional_field_def laws bytes_to_hex_roundtrip [OF assms(1)]
        factory_deps_roundtrip [unfolded option_to_json.simps])
qed

definition canonical_hash :: "tx_lib \<Rightarrow> l2_canonical_transaction \<Rightarrow> h256" where
  "canonical_hash X t = keccak256 X (ethabi_encode X [canonical_encode t])"

text \<open>\<^verbatim>\<open>U256::from_big_endian\<close> of an address.\<close>

definition address_to_u256 :: "evm_address \<Rightarrow> u256" where
  "address_to_u256 a = of_nat (be_nat a)"

text \<open>\<^verbatim>\<open>Address::from_slice\<close> and \<^verbatim>\<open>H256::from_slice\<close> panic on another length.\<close>

definition address_from_slice :: "bytes \<Rightarrow> (unit, evm_address) res" where
  "address_from_slice bs = (if length bs = 20 then Ok bs else Panic)"

definition hash_from_slice :: "bytes \<Rightarrow> (unit, h256) res" where
  "hash_from_slice bs = (if length bs = 32 then Ok bs else Panic)"

end
