(* ===== verification/Mempool.thy ===== *)
theory Mempool
  imports Alist_Prelude Tx_Types "HOL-Library.List_Lexorder"
begin

text \<open>
  The mempool of the sequencer (\<^verbatim>\<open>core/lib/mempool/src\<close>) and its use by the state keeper
  (\<^verbatim>\<open>core/node/via_state_keeper/src/io/mempool.rs\<close>).  Hash maps are association lists, the
  ordered set of scores is a strictly sorted list, and accounts compare byte by byte.  Nonces and
  priority ids wrap at their width.  The size of the store and its capacity, 64-bit counters in the
  code, are natural numbers: they count transactions held in memory.
\<close>

section \<open>Transactions and scores\<close>

type_synonym eth_address = evm_address

record mempool_score =
  sc_account :: eth_address
  sc_received_at_ms :: u64
  sc_fee_data :: tx_fee

record l2_tx_filter =
  flt_fee_input :: batch_fee_input
  flt_fee_per_gas :: u64
  flt_gas_per_pubdata :: u32

definition matches_filter :: "mempool_score \<Rightarrow> l2_tx_filter \<Rightarrow> bool" where
  "matches_filter sc f \<longleftrightarrow>
     ucast (flt_fee_per_gas f) \<le> fee_max_fee_per_gas (sc_fee_data sc)
   \<and> ucast (flt_gas_per_pubdata f) \<le> fee_gas_per_pubdata_limit (sc_fee_data sc)"

text \<open>The order of scores: an earlier transaction is greater; of two received at the same time the
  one of the greater account.  The fee plays no part, also not in what the set takes for equal.\<close>

definition score_less :: "mempool_score \<Rightarrow> mempool_score \<Rightarrow> bool" where
  "score_less a b \<longleftrightarrow> sc_received_at_ms b < sc_received_at_ms a
     \<or> sc_received_at_ms a = sc_received_at_ms b \<and> sc_account a < sc_account b"

fun bset_insert :: "mempool_score \<Rightarrow> mempool_score list \<Rightarrow> mempool_score list" where
  "bset_insert x [] = [x]"
| "bset_insert x (y # ys) =
     (if score_less x y then x # y # ys
      else if score_less y x then y # bset_insert x ys
      else y # ys)"

definition bset_remove :: "mempool_score \<Rightarrow> mempool_score list \<Rightarrow> mempool_score list" where
  "bset_remove x = filter (\<lambda>y. score_less x y \<or> score_less y x)"

definition rfind :: "('a \<Rightarrow> bool) \<Rightarrow> 'a list \<Rightarrow> 'a option" where
  "rfind p xs = List.find p (rev xs)"

section \<open>Transactions of an account\<close>

record account_transactions =
  at_transactions :: "(u32 \<times> l2_tx) list"
  at_nonce :: u32

definition account_transactions_new :: "u32 \<Rightarrow> account_transactions" where
  "account_transactions_new nonce = \<lparr>at_transactions = [], at_nonce = nonce\<rparr>"

definition score_for_transaction :: "l2_tx \<Rightarrow> mempool_score" where
  "score_for_transaction tx =
     \<lparr>sc_account = l2_initiator tx, sc_received_at_ms = l2_received_ms tx, sc_fee_data = l2_fee tx\<rparr>"

record insertion_metadata =
  im_new_score :: "mempool_score option"
  im_previous_score :: "mempool_score option"
  im_is_new :: bool

definition account_insert ::
    "l2_tx \<Rightarrow> account_transactions \<Rightarrow> insertion_metadata \<times> account_transactions" where
  "account_insert tx a =
     (let nonce = l2_nonce tx in
      if nonce < at_nonce a
      then (\<lparr>im_new_score = None, im_previous_score = None, im_is_new = False\<rparr>, a)
      else
        let previous_score = map_option score_for_transaction (map_of (at_transactions a) nonce);
            current = (nonce = at_nonce a)
        in (\<lparr>im_new_score = (if current then Some (score_for_transaction tx) else None),
             im_previous_score = (if current then previous_score else None),
             im_is_new = (previous_score = None)\<rparr>,
            a\<lparr>at_transactions := AList.update nonce tx (at_transactions a)\<rparr>))"

definition account_next ::
    "account_transactions \<Rightarrow> (unit, (l2_tx \<times> mempool_score option) \<times> account_transactions) res" where
  "account_next a =
     res_bind (unwrap (map_of (at_transactions a) (at_nonce a))) (\<lambda>tx.
     let a' = \<lparr>at_transactions = AList.delete (at_nonce a) (at_transactions a), at_nonce = at_nonce a + 1\<rparr>
     in Ok ((tx, map_option score_for_transaction (map_of (at_transactions a') (at_nonce a'))), a'))"

definition account_reset :: "l2_tx \<Rightarrow> account_transactions \<Rightarrow> mempool_score option \<times> account_transactions" where
  "account_reset tx a =
     (map_option score_for_transaction (map_of (at_transactions a) (l2_nonce tx + 1)),
      a\<lparr>at_nonce := min (at_nonce a) (l2_nonce tx)\<rparr>)"

definition account_len :: "account_transactions \<Rightarrow> nat" where
  "account_len a = length (at_transactions a)"

section \<open>The store\<close>

record mempool_store =
  l1_transactions :: "(u64 \<times> l1_tx) list"
  l2_transactions_per_account :: "(eth_address \<times> account_transactions) list"
  l2_priority_queue :: "mempool_score list"
  next_priority_id :: u64
  stashed_accounts :: "eth_address list"
  pool_size :: nat
  pool_capacity :: nat

definition mempool_new :: "u64 \<Rightarrow> nat \<Rightarrow> mempool_store" where
  "mempool_new next_id capacity =
     \<lparr>l1_transactions = [], l2_transactions_per_account = [], l2_priority_queue = [],
      next_priority_id = next_id, stashed_accounts = [], pool_size = 0, pool_capacity = capacity\<rparr>"

definition account_or_new ::
    "(eth_address \<times> u32) list \<Rightarrow> eth_address \<Rightarrow> mempool_store \<Rightarrow> account_transactions" where
  "account_or_new initial_nonces account s =
     (case map_of (l2_transactions_per_account s) account of
        Some a \<Rightarrow> a
      | None \<Rightarrow> account_transactions_new (case map_of initial_nonces account of Some n \<Rightarrow> n | None \<Rightarrow> 0))"

definition insert_l2_transaction ::
    "(eth_address \<times> u32) list \<Rightarrow> l2_tx \<Rightarrow> mempool_store \<Rightarrow> mempool_store" where
  "insert_l2_transaction initial_nonces tx s =
     (let account = l2_initiator tx;
          (metadata, a) = account_insert tx (account_or_new initial_nonces account s);
          queue = (case im_previous_score metadata of
              Some score \<Rightarrow> bset_remove score (l2_priority_queue s) | None \<Rightarrow> l2_priority_queue s)
      in s\<lparr>l2_transactions_per_account := AList.update account a (l2_transactions_per_account s),
           l2_priority_queue := (case im_new_score metadata of
              Some score \<Rightarrow> bset_insert score queue | None \<Rightarrow> queue),
           pool_size := (if im_is_new metadata then pool_size s + 1 else pool_size s)\<rparr>)"

fun mempool_insert ::
    "pool_tx list \<Rightarrow> (eth_address \<times> u32) list \<Rightarrow> mempool_store \<Rightarrow> (unit, mempool_store) res" where
  "mempool_insert [] nonces s = Ok s"
| "mempool_insert (L1Tx tx # txs) nonces s =
     mempool_insert txs nonces
       (s\<lparr>l1_transactions := AList.update (l1_serial_id tx) tx (l1_transactions s)\<rparr>)"
| "mempool_insert (L2Tx tx # txs) nonces s = mempool_insert txs nonces (insert_l2_transaction nonces tx s)"
| "mempool_insert (ProtocolUpgradeTx tx # txs) nonces s = Panic"

definition has_next :: "l2_tx_filter \<Rightarrow> mempool_store \<Rightarrow> bool" where
  "has_next f s \<longleftrightarrow>
     map_of (l1_transactions s) (next_priority_id s) \<noteq> None
   \<or> rfind (\<lambda>el. matches_filter el f) (l2_priority_queue s) \<noteq> None"

fun stash_accounts ::
    "mempool_score list \<Rightarrow> (eth_address \<times> account_transactions) list \<Rightarrow>
       (unit, (eth_address \<times> account_transactions) list \<times> nat) res" where
  "stash_accounts [] accounts = Ok (accounts, 0)"
| "stash_accounts (p # ps) accounts =
     res_bind (unwrap (map_of accounts (sc_account p))) (\<lambda>a.
     res_bind (stash_accounts ps (AList.delete (sc_account p) accounts)) (\<lambda>(accounts, removed).
     Ok (accounts, account_len a + removed)))"

definition next_l2_transaction ::
    "mempool_score \<Rightarrow> mempool_store \<Rightarrow> (unit, pool_tx \<times> mempool_store) res" where
  "next_l2_transaction pointer s =
     (let stashed = drop 1 (filter (\<lambda>el. \<not> score_less el pointer) (l2_priority_queue s));
          queue = filter (\<lambda>el. score_less el pointer) (l2_priority_queue s)
      in
      res_bind (stash_accounts stashed (l2_transactions_per_account s)) (\<lambda>(accounts, removed).
      res_bind (unwrap (map_of accounts (sc_account pointer))) (\<lambda>a.
      res_bind (account_next a) (\<lambda>((tx, score), a).
      if pool_size s < removed + 1 then Panic
      else Ok (L2Tx tx,
        s\<lparr>l2_transactions_per_account := AList.update (sc_account pointer) a accounts,
          l2_priority_queue := (case score of Some sc \<Rightarrow> bset_insert sc queue | None \<Rightarrow> queue),
          stashed_accounts := stashed_accounts s @ map sc_account stashed,
          pool_size := pool_size s - (removed + 1)\<rparr>)))))"

definition next_transaction ::
    "l2_tx_filter \<Rightarrow> mempool_store \<Rightarrow> (unit, pool_tx option \<times> mempool_store) res" where
  "next_transaction f s =
     (case map_of (l1_transactions s) (next_priority_id s) of
        Some tx \<Rightarrow> Ok (Some (L1Tx tx),
          s\<lparr>l1_transactions := AList.delete (next_priority_id s) (l1_transactions s),
            next_priority_id := next_priority_id s + 1\<rparr>)
      | None \<Rightarrow>
          (case rfind (\<lambda>el. matches_filter el f) (l2_priority_queue s) of
             None \<Rightarrow> Ok (None, s)
           | Some pointer \<Rightarrow> res_bind (next_l2_transaction pointer s) (\<lambda>(tx, s). Ok (Some tx, s))))"

definition mempool_rollback :: "pool_tx \<Rightarrow> mempool_store \<Rightarrow> (unit, mempool_store) res" where
  "mempool_rollback tx s =
     (case tx of
        L1Tx t \<Rightarrow> Ok (s\<lparr>next_priority_id := min (next_priority_id s) (l1_serial_id t)\<rparr>)
      | L2Tx t \<Rightarrow>
          res_bind (unwrap (map_of (l2_transactions_per_account s) (l2_initiator t))) (\<lambda>a.
          let (score, a) = account_reset t a in
          Ok (s\<lparr>l2_transactions_per_account := AList.update (l2_initiator t) a (l2_transactions_per_account s),
                l2_priority_queue := (case score of
                  Some sc \<Rightarrow> bset_remove sc (l2_priority_queue s) | None \<Rightarrow> l2_priority_queue s)\<rparr>))
      | ProtocolUpgradeTx _ \<Rightarrow> Panic)"

definition mempool_gc :: "mempool_store \<Rightarrow> eth_address list \<times> mempool_store" where
  "mempool_gc s =
     (if pool_capacity s \<le> pool_size s then
        let index = map sc_account (l2_priority_queue s);
            kept = filter (\<lambda>(address, _). address \<in> set index) (l2_transactions_per_account s);
            drained = filter (\<lambda>(address, _). address \<notin> set index) (l2_transactions_per_account s)
        in (map fst drained,
            s\<lparr>l2_transactions_per_account := kept, pool_size := alist_sum account_len kept\<rparr>)
      else ([], s))"

text \<open>The stashed and the purged accounts.\<close>

definition get_mempool_info :: "mempool_store \<Rightarrow> (eth_address list \<times> eth_address list) \<times> mempool_store" where
  "get_mempool_info s =
     (let (purged, s') = mempool_gc (s\<lparr>stashed_accounts := []\<rparr>) in ((stashed_accounts s, purged), s'))"

text \<open>The state keeper gives a transaction back: it is rolled back and inserted again.\<close>

definition keeper_rollback :: "pool_tx \<Rightarrow> mempool_store \<Rightarrow> (unit, mempool_store) res" where
  "keeper_rollback tx s = res_bind (mempool_rollback tx s) (mempool_insert [tx] [])"

end
