(* ===== verification/Mempool_Facts.thy ===== *)
theory Mempool_Facts
  imports Mempool
begin

text \<open>
  The invariant of the mempool: the priority queue holds exactly the scores of the transactions that
  are next for their accounts.  Every operation keeps it, and under it no operation of the state
  keeper panics.
\<close>

section \<open>The ordered set of scores\<close>

lemma score_less_irrefl [simp]: "\<not> score_less a a"
  by (simp add: score_less_def)

lemma score_less_trans: "score_less a b \<Longrightarrow> score_less b c \<Longrightarrow> score_less a c"
  by (auto simp: score_less_def)

lemma score_less_asym: "score_less a b \<Longrightarrow> \<not> score_less b a"
  using score_less_trans score_less_irrefl by blast

lemma score_eq_account: "\<not> score_less a b \<Longrightarrow> \<not> score_less b a \<Longrightarrow> sc_account a = sc_account b"
  by (auto simp: score_less_def)

lemma sorted_scores_distinct: "sorted_wrt score_less q \<Longrightarrow> distinct q"
  by (induction q) auto

lemma bset_insert_set:
  "(\<And>y. y \<in> set q \<Longrightarrow> sc_account y \<noteq> sc_account x) \<Longrightarrow> set (bset_insert x q) = insert x (set q)"
proof (induction q)
  case (Cons y q)
  have "sc_account y \<noteq> sc_account x" by (rule Cons.prems) simp
  then have "score_less x y \<or> score_less y x" using score_eq_account [of x y] by auto
  with Cons show ?case by auto
qed simp

lemma bset_insert_subset: "set (bset_insert x q) \<subseteq> insert x (set q)"
  by (induction q) auto

lemma bset_insert_sorted: "sorted_wrt score_less q \<Longrightarrow> sorted_wrt score_less (bset_insert x q)"
proof (induction q)
  case (Cons y q)
  then show ?case
    using bset_insert_subset [of x q] by (auto intro: score_less_trans)
qed simp

lemma bset_remove_sorted: "sorted_wrt score_less q \<Longrightarrow> sorted_wrt score_less (bset_remove x q)"
  by (simp add: bset_remove_def sorted_wrt_filter)

text \<open>A queue in which an account has at most one score.\<close>

definition queue_ok :: "mempool_score list \<Rightarrow> bool" where
  "queue_ok q \<longleftrightarrow> sorted_wrt score_less q \<and> distinct (map sc_account q)"

lemma bset_remove_account:
  assumes "queue_ok q" "x \<in> set q"
  shows "set (bset_remove x q) = {y \<in> set q. sc_account y \<noteq> sc_account x}"
proof -
  have "sc_account y = sc_account x \<longleftrightarrow> \<not> (score_less x y \<or> score_less y x)" if "y \<in> set q" for y
    using assms that score_eq_account
    by (auto simp: queue_ok_def distinct_map inj_on_def)
  then show ?thesis by (auto simp: bset_remove_def)
qed

text \<open>A score replaced: the old one of an account removed, the new one inserted.\<close>

definition requeue ::
    "mempool_score option \<Rightarrow> mempool_score option \<Rightarrow> mempool_score list \<Rightarrow> mempool_score list" where
  "requeue old new q =
     (let q' = (case old of Some sc \<Rightarrow> bset_remove sc q | None \<Rightarrow> q)
      in case new of Some sc \<Rightarrow> bset_insert sc q' | None \<Rightarrow> q')"

lemma requeue_set:
  assumes "queue_ok q" "{y \<in> set q. sc_account y = acc} = set_option old"
    and "\<And>sc. sc \<in> set_option old \<union> set_option new \<Longrightarrow> sc_account sc = acc"
  shows "set (requeue old new q) = {y \<in> set q. sc_account y \<noteq> acc} \<union> set_option new"
    and "sorted_wrt score_less (requeue old new q)"
proof -
  let ?q = "case old of Some sc \<Rightarrow> bset_remove sc q | None \<Rightarrow> q"
  have "set ?q = {y \<in> set q. sc_account y \<noteq> acc}"
  proof (cases old)
    case (Some x)
    then have "x \<in> set q" "sc_account x = acc" using assms(2,3) by auto
    with bset_remove_account [OF assms(1)] Some show ?thesis by simp
  qed (use assms(2) in auto)
  with assms(3) bset_insert_set [of ?q]
  show "set (requeue old new q) = {y \<in> set q. sc_account y \<noteq> acc} \<union> set_option new"
    by (cases new) (auto simp: requeue_def Let_def)
  have "sorted_wrt score_less ?q"
    using assms(1) by (auto simp: queue_ok_def bset_remove_sorted split: option.splits)
  then show "sorted_wrt score_less (requeue old new q)"
    by (auto simp: requeue_def Let_def bset_insert_sorted split: option.splits)
qed

section \<open>Accounts\<close>

lemma word_less_inc: "x + 1 \<noteq> 0 \<Longrightarrow> x < x + 1" for x :: "'a :: len word"
  using unatSuc [of x] by (simp add: word_less_nat_alt add.commute)

definition head_tx :: "account_transactions \<Rightarrow> l2_tx option" where
  "head_tx a = map_of (at_transactions a) (at_nonce a)"

definition account_ok :: "eth_address \<Rightarrow> account_transactions \<Rightarrow> bool" where
  "account_ok acc a \<longleftrightarrow> alist_ok (at_transactions a)
     \<and> (\<forall>n t. map_of (at_transactions a) n = Some t \<longrightarrow>
          l2_nonce t = n \<and> l2_initiator t = acc \<and> at_nonce a \<le> n)"

lemma account_ok_new [simp]: "account_ok acc (account_transactions_new n)"
  by (simp add: account_ok_def account_transactions_new_def)

lemma head_tx_new [simp]: "head_tx (account_transactions_new n) = None"
  by (simp add: head_tx_def account_transactions_new_def)

lemma head_tx_ok: "account_ok acc a \<Longrightarrow> head_tx a = Some t \<Longrightarrow> l2_nonce t = at_nonce a \<and> l2_initiator t = acc"
  by (auto simp: account_ok_def head_tx_def)

lemma score_account [simp]: "sc_account (score_for_transaction t) = l2_initiator t"
  by (simp add: score_for_transaction_def)

lemma account_insert_ok:
  assumes "account_ok acc a" "l2_initiator tx = acc" "account_insert tx a = (m, a')"
  shows "account_ok acc a'"
    and "account_len a' = account_len a + (if im_is_new m then 1 else 0)"
    and "if l2_nonce tx = at_nonce a
      then im_new_score m = Some (score_for_transaction tx)
        \<and> im_previous_score m = map_option score_for_transaction (head_tx a) \<and> head_tx a' = Some tx
      else im_new_score m = None \<and> im_previous_score m = None \<and> head_tx a' = head_tx a"
proof -
  let ?a = "a\<lparr>at_transactions := AList.update (l2_nonce tx) tx (at_transactions a)\<rparr>"
  have old: "a' = a \<and> \<not> im_is_new m \<and> im_new_score m = None \<and> im_previous_score m = None"
    if "l2_nonce tx < at_nonce a"
    using assms(3) that by (auto simp: account_insert_def)
  have new: "a' = ?a" "im_is_new m \<longleftrightarrow> map_of (at_transactions a) (l2_nonce tx) = None"
    "im_new_score m = (if l2_nonce tx = at_nonce a then Some (score_for_transaction tx) else None)"
    "im_previous_score m = (if l2_nonce tx = at_nonce a
       then map_option score_for_transaction (head_tx a) else None)"
    if "\<not> l2_nonce tx < at_nonce a"
    using assms(3) that by (auto simp: account_insert_def Let_def head_tx_def)
  have "alist_ok (at_transactions a)" using assms(1) by (simp add: account_ok_def)
  then have len: "account_len ?a
      = account_len a + (if map_of (at_transactions a) (l2_nonce tx) = None then 1 else 0)"
    by (simp add: account_len_def length_alist_update)
  have ok: "account_ok acc ?a" if "\<not> l2_nonce tx < at_nonce a"
    using assms(1,2) that by (auto simp: account_ok_def update_conv' not_less split: if_splits)
  show "account_ok acc a'" using assms(1) old new(1) ok by metis
  show "account_len a' = account_len a + (if im_is_new m then 1 else 0)"
    using old new(1,2) len by (cases "l2_nonce tx < at_nonce a") simp_all
  have "head_tx ?a = (if l2_nonce tx = at_nonce a then Some tx else head_tx a)"
    by (simp add: head_tx_def update_conv')
  then show "if l2_nonce tx = at_nonce a
      then im_new_score m = Some (score_for_transaction tx)
        \<and> im_previous_score m = map_option score_for_transaction (head_tx a) \<and> head_tx a' = Some tx
      else im_new_score m = None \<and> im_previous_score m = None \<and> head_tx a' = head_tx a"
    using old new by (cases "l2_nonce tx < at_nonce a") auto
qed

lemma account_next_ok:
  assumes ok: "account_ok acc a" and head: "head_tx a = Some t"
  obtains a' where "account_next a = Ok ((t, map_option score_for_transaction (head_tx a')), a')"
    "account_ok acc a'" "Suc (account_len a') = account_len a" "at_nonce a' = at_nonce a + 1"
    "at_transactions a' = AList.delete (at_nonce a) (at_transactions a)"
proof -
  let ?a = "\<lparr>at_transactions = AList.delete (at_nonce a) (at_transactions a), at_nonce = at_nonce a + 1\<rparr>"
  have "at_nonce a + 1 \<le> n" if "at_nonce a \<le> n" "n \<noteq> at_nonce a" for n
    using that by (intro inc_le) (simp add: order_less_le)
  then have "account_ok acc ?a"
    using ok by (auto simp: account_ok_def delete_conv' split: if_splits)
  moreover have "Suc (account_len ?a) = account_len a"
    using ok head by (simp add: account_len_def account_ok_def head_tx_def length_alist_delete)
  ultimately show thesis
    using that [of ?a] head by (simp add: account_next_def head_tx_def)
qed

lemma account_reset_ok:
  assumes "account_ok acc a" "at_nonce a = l2_nonce t + 1" "l2_nonce t + 1 \<noteq> 0"
  shows "fst (account_reset t a) = map_option score_for_transaction (head_tx a)"
    and "account_ok acc (snd (account_reset t a))"
    and "head_tx (snd (account_reset t a)) = None"
    and "account_len (snd (account_reset t a)) = account_len a"
    and "at_nonce (snd (account_reset t a)) = l2_nonce t"
proof -
  have less: "l2_nonce t < at_nonce a"
    unfolding assms(2) by (rule word_less_inc [OF assms(3)])
  then have le: "l2_nonce t \<le> n" if "at_nonce a \<le> n" for n using that by simp
  show "at_nonce (snd (account_reset t a)) = l2_nonce t"
    using less by (simp add: account_reset_def)
  show "fst (account_reset t a) = map_option score_for_transaction (head_tx a)"
    by (simp add: account_reset_def head_tx_def assms(2))
  show "account_ok acc (snd (account_reset t a))"
    using assms(1) le by (auto simp: account_ok_def account_reset_def)
  have "map_of (at_transactions a) (l2_nonce t) = None"
    using assms(1) less unfolding account_ok_def by (metis not_le option.exhaust)
  then show "head_tx (snd (account_reset t a)) = None"
    using less by (simp add: account_reset_def head_tx_def)
  show "account_len (snd (account_reset t a)) = account_len a"
    by (simp add: account_reset_def account_len_def)
qed

section \<open>The invariant\<close>

type_synonym accounts = "eth_address \<Rightarrow> account_transactions option"

text \<open>The transactions that are next for their accounts, and the scores of an account.\<close>

definition ready_txs :: "accounts \<Rightarrow> l2_tx set" where
  "ready_txs M = {t. \<exists>acc a. M acc = Some a \<and> head_tx a = Some t}"

definition accounts_ok :: "accounts \<Rightarrow> bool" where
  "accounts_ok M \<longleftrightarrow> (\<forall>acc a. M acc = Some a \<longrightarrow> account_ok acc a)"

definition mempool_inv :: "mempool_store \<Rightarrow> bool" where
  "mempool_inv s \<longleftrightarrow>
     alist_ok (l1_transactions s)
   \<and> (\<forall>k t. map_of (l1_transactions s) k = Some t \<longrightarrow> l1_serial_id t = k)
   \<and> alist_ok (l2_transactions_per_account s)
   \<and> accounts_ok (map_of (l2_transactions_per_account s))
   \<and> sorted_wrt score_less (l2_priority_queue s)
   \<and> set (l2_priority_queue s)
       = score_for_transaction ` ready_txs (map_of (l2_transactions_per_account s))
   \<and> pool_size s = alist_sum account_len (l2_transactions_per_account s)"

lemma mempool_inv_new: "mempool_inv (mempool_new n c)"
  by (simp add: mempool_inv_def mempool_new_def accounts_ok_def ready_txs_def)

lemma ready_txsI: "M acc = Some a \<Longrightarrow> head_tx a = Some t \<Longrightarrow> t \<in> ready_txs M"
  by (auto simp: ready_txs_def)

lemma ready_txs_account:
  assumes "accounts_ok M" "t \<in> ready_txs M"
  shows "\<exists>a. M (l2_initiator t) = Some a \<and> head_tx a = Some t"
  using assms head_tx_ok unfolding ready_txs_def accounts_ok_def by fastforce

lemma ready_txs_update:
  assumes "accounts_ok M"
  shows "ready_txs (M(acc \<mapsto> a)) = {t \<in> ready_txs M. l2_initiator t \<noteq> acc} \<union> set_option (head_tx a)"
proof -
  have "l2_initiator t = acc'" if "M acc' = Some a'" "head_tx a' = Some t" for acc' a' t
    using assms that head_tx_ok unfolding accounts_ok_def by blast
  then show ?thesis by (auto simp: ready_txs_def split: if_splits)
qed

lemma ready_txs_restrict:
  assumes "accounts_ok M"
  shows "ready_txs (M |` (- A)) = {t \<in> ready_txs M. l2_initiator t \<notin> A}"
proof -
  have "l2_initiator t = acc'" if "M acc' = Some a'" "head_tx a' = Some t" for acc' a' t
    using assms that head_tx_ok unfolding accounts_ok_def by blast
  then show ?thesis by (auto simp: ready_txs_def restrict_map_def split: if_splits)
qed

lemma scores_of_account:
  assumes "accounts_ok M"
  shows "{y \<in> score_for_transaction ` ready_txs M. sc_account y = acc}
    = set_option (Option.bind (M acc) (\<lambda>a. map_option score_for_transaction (head_tx a)))"
proof (intro set_eqI iffI)
  fix y
  assume "y \<in> {y \<in> score_for_transaction ` ready_txs M. sc_account y = acc}"
  then show "y \<in> set_option (Option.bind (M acc) (\<lambda>a. map_option score_for_transaction (head_tx a)))"
    using ready_txs_account [OF assms] by fastforce
next
  fix y
  assume "y \<in> set_option (Option.bind (M acc) (\<lambda>a. map_option score_for_transaction (head_tx a)))"
  then obtain a t where "M acc = Some a" "head_tx a = Some t" "y = score_for_transaction t"
    by (auto simp: bind_eq_Some_conv)
  then show "y \<in> {y \<in> score_for_transaction ` ready_txs M. sc_account y = acc}"
    using assms head_tx_ok unfolding accounts_ok_def ready_txs_def by fastforce
qed

lemma mempool_inv_queue_ok:
  assumes "mempool_inv s"
  shows "queue_ok (l2_priority_queue s)"
proof -
  let ?M = "map_of (l2_transactions_per_account s)"
  have ok: "accounts_ok ?M" and q: "set (l2_priority_queue s) = score_for_transaction ` ready_txs ?M"
    and sorted: "sorted_wrt score_less (l2_priority_queue s)"
    using assms by (simp_all add: mempool_inv_def)
  have "t = t'" if "t \<in> ready_txs ?M" "t' \<in> ready_txs ?M" "l2_initiator t = l2_initiator t'" for t t'
    using ready_txs_account [OF ok that(1)] ready_txs_account [OF ok that(2)] that(3) by auto
  then have "inj_on sc_account (set (l2_priority_queue s))"
    unfolding q inj_on_def by fastforce
  with sorted sorted_scores_distinct [OF sorted] show ?thesis
    by (simp add: queue_ok_def distinct_map)
qed

text \<open>One account changed, its score in the queue replaced accordingly.\<close>

definition stored_score :: "mempool_store \<Rightarrow> eth_address \<Rightarrow> mempool_score option" where
  "stored_score s acc = Option.bind (map_of (l2_transactions_per_account s) acc)
     (\<lambda>a. map_option score_for_transaction (head_tx a))"

definition stored_len :: "mempool_store \<Rightarrow> eth_address \<Rightarrow> nat" where
  "stored_len s acc = (case map_of (l2_transactions_per_account s) acc of
     Some a \<Rightarrow> account_len a | None \<Rightarrow> 0)"

lemma queue_of_account:
  "mempool_inv s \<Longrightarrow> {y \<in> set (l2_priority_queue s). sc_account y = acc} = set_option (stored_score s acc)"
  using scores_of_account by (simp add: mempool_inv_def stored_score_def)

lemma replace_account_inv:
  assumes inv: "mempool_inv s" and a: "account_ok acc a"
    and q': "sorted_wrt score_less q'" "set q' = {y \<in> set (l2_priority_queue s). sc_account y \<noteq> acc}
        \<union> set_option (map_option score_for_transaction (head_tx a))"
    and size: "n + stored_len s acc = pool_size s + account_len a"
  shows "mempool_inv (s\<lparr>l2_transactions_per_account := AList.update acc a (l2_transactions_per_account s),
      l2_priority_queue := q', pool_size := n\<rparr>)"
proof -
  let ?M = "map_of (l2_transactions_per_account s)"
  have ok: "accounts_ok ?M" "alist_ok (l2_transactions_per_account s)"
    and q: "set (l2_priority_queue s) = score_for_transaction ` ready_txs ?M"
    using inv by (simp_all add: mempool_inv_def)
  have "score_for_transaction ` ready_txs (?M(acc \<mapsto> a)) = set q'"
    unfolding ready_txs_update [OF ok(1)] q'(2) q by (cases "head_tx a") auto
  moreover have "n = alist_sum account_len (AList.update acc a (l2_transactions_per_account s))"
    using alist_sum_update [OF ok(2), of account_len acc a] size inv
    by (simp add: mempool_inv_def stored_len_def)
  moreover have "accounts_ok (?M(acc \<mapsto> a))" using ok(1) a by (simp add: accounts_ok_def)
  ultimately show ?thesis
    using inv q'(1) by (simp add: mempool_inv_def update_conv')
qed

lemma requeue_account:
  assumes inv: "mempool_inv s" and a: "account_ok acc a"
  shows "sorted_wrt score_less (requeue (stored_score s acc)
      (map_option score_for_transaction (head_tx a)) (l2_priority_queue s))"
    and "set (requeue (stored_score s acc) (map_option score_for_transaction (head_tx a))
        (l2_priority_queue s))
      = {y \<in> set (l2_priority_queue s). sc_account y \<noteq> acc}
        \<union> set_option (map_option score_for_transaction (head_tx a))"
proof -
  note part = queue_of_account [OF inv, of acc]
  have "sc_account sc = acc"
    if "sc \<in> set_option (stored_score s acc) \<union> set_option (map_option score_for_transaction (head_tx a))" for sc
    using that head_tx_ok [OF a] unfolding part [symmetric] by (cases "head_tx a") auto
  from requeue_set [where new = "map_option score_for_transaction (head_tx a)",
      OF mempool_inv_queue_ok [OF inv] part this]
  show "sorted_wrt score_less (requeue (stored_score s acc)
      (map_option score_for_transaction (head_tx a)) (l2_priority_queue s))"
    and "set (requeue (stored_score s acc) (map_option score_for_transaction (head_tx a))
        (l2_priority_queue s))
      = {y \<in> set (l2_priority_queue s). sc_account y \<noteq> acc}
        \<union> set_option (map_option score_for_transaction (head_tx a))"
    by blast+
qed

section \<open>Insertion\<close>

lemma account_or_new_ok:
  assumes "mempool_inv s"
  shows "account_ok acc (account_or_new nonces acc s)"
    and "stored_score s acc = map_option score_for_transaction (head_tx (account_or_new nonces acc s))"
    and "stored_len s acc = account_len (account_or_new nonces acc s)"
  using assms
  by (auto simp: mempool_inv_def accounts_ok_def account_or_new_def stored_score_def stored_len_def
      account_len_def account_transactions_new_def head_tx_def account_ok_def split: option.splits)

lemma insert_l2_inv:
  assumes inv: "mempool_inv s"
  shows "mempool_inv (insert_l2_transaction nonces tx s)"
proof -
  let ?acc = "l2_initiator tx" and ?a0 = "account_or_new nonces (l2_initiator tx) s"
  obtain m a where run: "account_insert tx ?a0 = (m, a)" by fastforce
  note ok = account_insert_ok [OF account_or_new_ok(1) [OF inv] refl run]
  let ?n = "if im_is_new m then pool_size s + 1 else pool_size s"
  have size: "?n + stored_len s ?acc = pool_size s + account_len a"
    using ok(2) account_or_new_ok(3) [OF inv] by simp
  show ?thesis
  proof (cases "l2_nonce tx = at_nonce ?a0")
    case True
    then have "insert_l2_transaction nonces tx s
        = s\<lparr>l2_transactions_per_account := AList.update ?acc a (l2_transactions_per_account s),
            l2_priority_queue := requeue (stored_score s ?acc)
              (map_option score_for_transaction (head_tx a)) (l2_priority_queue s), pool_size := ?n\<rparr>"
      using ok(3) run account_or_new_ok(2) [OF inv, of ?acc nonces]
      by (simp add: insert_l2_transaction_def requeue_def Let_def)
    with replace_account_inv [OF inv ok(1) requeue_account [OF inv ok(1)] size] show ?thesis by simp
  next
    case False
    then have eq: "insert_l2_transaction nonces tx s
        = s\<lparr>l2_transactions_per_account := AList.update ?acc a (l2_transactions_per_account s),
            l2_priority_queue := l2_priority_queue s, pool_size := ?n\<rparr>"
      using ok(3) run by (simp add: insert_l2_transaction_def Let_def)
    have same: "set (l2_priority_queue s) = {y \<in> set (l2_priority_queue s). sc_account y \<noteq> ?acc}
        \<union> set_option (map_option score_for_transaction (head_tx a))"
      using False ok(3) queue_of_account [OF inv, of ?acc] account_or_new_ok(2) [OF inv, of ?acc nonces]
      by auto
    have sorted: "sorted_wrt score_less (l2_priority_queue s)" using inv by (simp add: mempool_inv_def)
    show ?thesis unfolding eq by (rule replace_account_inv [OF inv ok(1) sorted same size])
  qed
qed

lemma insert_l1_inv:
  "mempool_inv s \<Longrightarrow>
     mempool_inv (s\<lparr>l1_transactions := AList.update (l1_serial_id tx) tx (l1_transactions s)\<rparr>)"
  by (auto simp: mempool_inv_def update_conv' split: if_splits)

lemma mempool_insert_inv:
  assumes "mempool_inv s" "\<And>x. ProtocolUpgradeTx x \<notin> set txs"
  shows "\<exists>s'. mempool_insert txs nonces s = Ok s' \<and> mempool_inv s'"
  using assms
proof (induction txs nonces s rule: mempool_insert.induct)
  case (2 tx txs nonces s)
  then show ?case by (simp add: insert_l1_inv)
next
  case (3 tx txs nonces s)
  then show ?case by (simp add: insert_l2_inv)
qed auto

section \<open>The next transaction\<close>

lemma rfind_Some:
  "rfind p xs = Some x \<Longrightarrow> \<exists>ys zs. xs = ys @ x # zs \<and> p x \<and> (\<forall>z \<in> set zs. \<not> p z)"
proof (induction xs rule: rev_induct)
  case (snoc y xs)
  show ?case
  proof (cases "p y")
    case True
    then have "xs @ [y] = xs @ x # []" "p x" using snoc.prems by (auto simp: rfind_def)
    then show ?thesis by fastforce
  next
    case False
    then have "rfind p xs = Some x" using snoc.prems by (simp add: rfind_def)
    from snoc.IH [OF this] obtain ys zs where "xs = ys @ x # zs" "p x" "\<forall>z \<in> set zs. \<not> p z" by blast
    then show ?thesis using False by (intro exI [of _ ys] exI [of _ "zs @ [y]"]) auto
  qed
qed (simp add: rfind_def)

lemma rfind_None: "rfind p xs = None \<longleftrightarrow> (\<forall>x \<in> set xs. \<not> p x)"
  by (auto simp: rfind_def find_None_iff)

lemma stash_accounts_Ok:
  assumes "alist_ok accs" "distinct (map sc_account ps)"
    and "\<And>p. p \<in> set ps \<Longrightarrow> map_of accs (sc_account p) \<noteq> None"
  shows "\<exists>accs' removed. stash_accounts ps accs = Ok (accs', removed) \<and> alist_ok accs'
    \<and> map_of accs' = map_of accs |` (- sc_account ` set ps)
    \<and> alist_sum account_len accs' + removed = alist_sum account_len accs"
  using assms
proof (induction ps arbitrary: accs)
  case (Cons p ps)
  let ?accs = "AList.delete (sc_account p) accs"
  obtain a where a: "map_of accs (sc_account p) = Some a" using Cons.prems(3) [of p] by auto
  have "map_of ?accs (sc_account q) \<noteq> None" if "q \<in> set ps" for q
  proof -
    have "sc_account q \<noteq> sc_account p" using Cons.prems(2) that by (metis distinct.simps(2) imageI list.set_map list.simps(9))
    then show ?thesis using Cons.prems(3) [of q] that by (simp add: delete_conv')
  qed
  then obtain accs' removed where IH: "stash_accounts ps ?accs = Ok (accs', removed)" "alist_ok accs'"
    "map_of accs' = map_of ?accs |` (- sc_account ` set ps)"
    "alist_sum account_len accs' + removed = alist_sum account_len ?accs"
    using Cons.IH [of ?accs] Cons.prems(1,2) by auto
  moreover have "map_of ?accs |` (- sc_account ` set ps) = map_of accs |` (- sc_account ` set (p # ps))"
    by (auto simp: restrict_map_def delete_conv')
  moreover have "alist_sum account_len ?accs + account_len a = alist_sum account_len accs"
    using alist_sum_delete [OF Cons.prems(1), of account_len "sc_account p"] a by simp
  ultimately show ?case using a by simp
qed (simp add: restrict_map_def)

lemma sorted_split:
  assumes "sorted_wrt score_less (ys @ x # zs)"
  shows "filter (\<lambda>el. score_less el x) (ys @ x # zs) = ys"
    and "filter (\<lambda>el. \<not> score_less el x) (ys @ x # zs) = x # zs"
  using assms score_less_asym by (auto simp: sorted_wrt_append filter_id_conv filter_empty_conv)

lemma stash_inv:
  assumes inv: "mempool_inv s" and q: "l2_priority_queue s = ys @ x # zs"
  obtains accs removed where
    "stash_accounts zs (l2_transactions_per_account s) = Ok (accs, removed)" "removed \<le> pool_size s"
    "map_of accs = map_of (l2_transactions_per_account s) |` (- sc_account ` set zs)"
    "mempool_inv (s\<lparr>l2_transactions_per_account := accs, l2_priority_queue := ys @ [x],
       pool_size := pool_size s - removed\<rparr>)"
proof -
  let ?M = "map_of (l2_transactions_per_account s)"
  have ok: "accounts_ok ?M" "alist_ok (l2_transactions_per_account s)"
    and qs: "set (l2_priority_queue s) = score_for_transaction ` ready_txs ?M"
    and size: "pool_size s = alist_sum account_len (l2_transactions_per_account s)"
    and sorted: "sorted_wrt score_less (ys @ x # zs)"
    using inv by (simp_all add: mempool_inv_def flip: q)
  have distinct: "distinct (map sc_account (ys @ x # zs))"
    using mempool_inv_queue_ok [OF inv] unfolding q queue_ok_def by blast
  have present: "?M (sc_account p) \<noteq> None" if "p \<in> set zs" for p
  proof -
    have "p \<in> score_for_transaction ` ready_txs ?M" using that qs q by auto
    then show ?thesis using ready_txs_account [OF ok(1)] by fastforce
  qed
  obtain accs removed where run: "stash_accounts zs (l2_transactions_per_account s) = Ok (accs, removed)"
    and accs: "alist_ok accs" "map_of accs = ?M |` (- sc_account ` set zs)"
    "alist_sum account_len accs + removed = alist_sum account_len (l2_transactions_per_account s)"
    using stash_accounts_Ok [where ps = zs, OF ok(2) _ present] distinct by auto
  have "score_for_transaction ` ready_txs (map_of accs) = {y \<in> set (ys @ x # zs). sc_account y \<notin> sc_account ` set zs}"
    unfolding accs(2) ready_txs_restrict [OF ok(1)] using qs unfolding q by auto
  also have "\<dots> = set (ys @ [x])" using distinct by auto
  finally have "set (ys @ [x]) = score_for_transaction ` ready_txs (map_of accs)" by simp
  moreover have "sorted_wrt score_less (ys @ [x])" using sorted by (auto simp: sorted_wrt_append)
  moreover have "accounts_ok (map_of accs)"
    using ok(1) unfolding accs(2) by (auto simp: accounts_ok_def restrict_map_def split: if_splits)
  ultimately have "mempool_inv (s\<lparr>l2_transactions_per_account := accs, l2_priority_queue := ys @ [x],
       pool_size := pool_size s - removed\<rparr>)"
    using inv accs(1,3) size by (simp add: mempool_inv_def)
  then show thesis using that run accs size by simp
qed

text \<open>What the next L2 transaction is: the greatest matching score's head, with the accounts of the
  greater scores stashed.\<close>

lemma next_l2_Ok:
  assumes inv: "mempool_inv s" and q: "l2_priority_queue s = ys @ x # zs"
  obtains t a a' s' where "next_l2_transaction x s = Ok (L2Tx t, s')" "mempool_inv s'"
    "x = score_for_transaction t" "t \<in> ready_txs (map_of (l2_transactions_per_account s))"
    "map_of (l2_transactions_per_account s) (l2_initiator t) = Some a" "head_tx a = Some t"
    "account_next a = Ok ((t, map_option score_for_transaction (head_tx a')), a')"
    "map_of (l2_transactions_per_account s')
       = (map_of (l2_transactions_per_account s) |` (- sc_account ` set zs))(l2_initiator t \<mapsto> a')"
    "stashed_accounts s' = stashed_accounts s @ map sc_account zs"
    "l1_transactions s' = l1_transactions s" "next_priority_id s' = next_priority_id s"
    "l2_priority_queue s' = requeue None (map_option score_for_transaction (head_tx a')) ys"
    "pool_capacity s' = pool_capacity s"
proof -
  let ?M = "map_of (l2_transactions_per_account s)"
  obtain accs removed where run: "stash_accounts zs (l2_transactions_per_account s) = Ok (accs, removed)"
    and le: "removed \<le> pool_size s" and accs: "map_of accs = ?M |` (- sc_account ` set zs)"
    and inv1: "mempool_inv (s\<lparr>l2_transactions_per_account := accs, l2_priority_queue := ys @ [x],
       pool_size := pool_size s - removed\<rparr>)" (is "mempool_inv ?s1")
    using stash_inv [OF inv q] by blast
  have sorted: "sorted_wrt score_less (ys @ x # zs)"
    using inv unfolding mempool_inv_def by (simp add: q)
  have ok1: "accounts_ok (map_of accs)"
    and qs: "set (ys @ [x]) = score_for_transaction ` ready_txs (map_of accs)"
    using inv1 by (simp_all add: mempool_inv_def)
  have "x \<in> score_for_transaction ` ready_txs (map_of accs)" unfolding qs [symmetric] by simp
  then obtain t where t: "x = score_for_transaction t" "t \<in> ready_txs (map_of accs)" by blast
  obtain a where a: "map_of accs (l2_initiator t) = Some a" "head_tx a = Some t"
    using ready_txs_account [OF ok1 t(2)] by blast
  have aok: "account_ok (l2_initiator t) a" using ok1 a(1) unfolding accounts_ok_def by blast
  obtain a' where a': "account_next a = Ok ((t, map_option score_for_transaction (head_tx a')), a')"
    "account_ok (l2_initiator t) a'" "Suc (account_len a') = account_len a"
    by (rule account_next_ok [OF aok a(2)])
  let ?new = "map_option score_for_transaction (head_tx a')"
  let ?s' = "s\<lparr>l2_transactions_per_account := AList.update (l2_initiator t) a' accs,
      l2_priority_queue := requeue None ?new ys, stashed_accounts := stashed_accounts s @ map sc_account zs,
      pool_size := pool_size s - (removed + 1)\<rparr>"
  have others: "sc_account y \<noteq> l2_initiator t" if "y \<in> set ys" for y
  proof
    assume "sc_account y = l2_initiator t"
    then have "l2_initiator t \<in> sc_account ` set ys" using that by (metis imageI)
    then show False using mempool_inv_queue_ok [OF inv1] t(1) by (simp add: queue_ok_def)
  qed
  have ysok: "queue_ok ys" using mempool_inv_queue_ok [OF inv1] by (simp add: queue_ok_def sorted_wrt_append)
  have none: "{y \<in> set ys. sc_account y = l2_initiator t} = set_option None" using others by simp
  have "sc_account sc = l2_initiator t" if "sc \<in> set_option None \<union> set_option ?new" for sc
  proof (cases "head_tx a'")
    case (Some u)
    from head_tx_ok [OF a'(2) Some] that Some show ?thesis by simp
  qed (use that in simp)
  note requeue = requeue_set [where new = ?new, OF ysok none this]
  have pos: "removed + 1 \<le> pool_size s" and len: "stored_len ?s1 (l2_initiator t) = account_len a"
  proof -
    show "stored_len ?s1 (l2_initiator t) = account_len a" by (simp add: stored_len_def a(1))
    have "account_len a \<le> pool_size ?s1"
      using alist_sum_delete [of accs account_len "l2_initiator t"] a(1) inv1 by (simp add: mempool_inv_def)
    then show "removed + 1 \<le> pool_size s" using a'(3) le by simp
  qed
  have "mempool_inv (?s1\<lparr>l2_transactions_per_account := AList.update (l2_initiator t) a'
      (l2_transactions_per_account ?s1), l2_priority_queue := requeue None ?new ys,
      pool_size := pool_size s - (removed + 1)\<rparr>)"
  proof (rule replace_account_inv [OF inv1 a'(2) requeue(2)])
    show "set (requeue None ?new ys) = {y \<in> set (l2_priority_queue ?s1). sc_account y \<noteq> l2_initiator t}
        \<union> set_option ?new"
    proof -
      have "{y \<in> set (l2_priority_queue ?s1). sc_account y \<noteq> l2_initiator t}
          = {y \<in> set ys. sc_account y \<noteq> l2_initiator t}"
        using t(1) by auto
      with requeue(1) show ?thesis by simp
    qed
    show "pool_size s - (removed + 1) + stored_len ?s1 (l2_initiator t) = pool_size ?s1 + account_len a'"
      unfolding len using pos a'(3) by simp
  qed
  then have inv': "mempool_inv ?s'" by (simp add: mempool_inv_def)
  have "sc_account x = l2_initiator t" by (simp add: t(1))
  then have "next_l2_transaction x s = Ok (L2Tx t, ?s')"
    using run a(1) a'(1) pos sorted_split [OF sorted]
    by (simp add: next_l2_transaction_def q requeue_def)
  moreover have "?M (l2_initiator t) = Some a"
    using a(1) unfolding accs by (auto simp: restrict_map_def split: if_splits)
  moreover from this a(2) have "t \<in> ready_txs ?M" by (auto simp: ready_txs_def)
  ultimately show thesis
    using inv' t(1) a(2) a'(1) by (intro that [of t ?s' a a']) (simp_all add: update_conv' accs)
qed

section \<open>Rollback and garbage collection\<close>

lemma rollback_inv:
  assumes inv: "mempool_inv s" and a: "map_of (l2_transactions_per_account s) (l2_initiator t) = Some a"
    and nonce: "at_nonce a = l2_nonce t + 1" "l2_nonce t + 1 \<noteq> 0"
  obtains s' where "mempool_rollback (L2Tx t) s = Ok s'" "mempool_inv s'"
    "map_of (l2_transactions_per_account s')
       = (map_of (l2_transactions_per_account s))(l2_initiator t \<mapsto> a\<lparr>at_nonce := l2_nonce t\<rparr>)"
    "l2_priority_queue s' = requeue (map_option score_for_transaction (head_tx a)) None (l2_priority_queue s)"
    "l1_transactions s' = l1_transactions s" "next_priority_id s' = next_priority_id s"
proof -
  have aok: "account_ok (l2_initiator t) a" using inv a by (simp add: mempool_inv_def accounts_ok_def)
  note r = account_reset_ok [OF aok nonce]
  let ?a = "snd (account_reset t a)"
  have eq: "?a = a\<lparr>at_nonce := l2_nonce t\<rparr>" using r(5) by (simp add: account_reset_def)
  have old: "stored_score s (l2_initiator t) = map_option score_for_transaction (head_tx a)"
    "stored_len s (l2_initiator t) = account_len a"
    by (simp_all add: stored_score_def stored_len_def a)
  let ?s' = "s\<lparr>l2_transactions_per_account := AList.update (l2_initiator t) ?a (l2_transactions_per_account s),
      l2_priority_queue := requeue (map_option score_for_transaction (head_tx a)) None (l2_priority_queue s),
      pool_size := pool_size s\<rparr>"
  have "mempool_inv ?s'"
    using requeue_account [OF inv r(2)] r(3,4) unfolding old
    by (intro replace_account_inv [OF inv r(2)]) (simp_all add: old)
  moreover have "mempool_rollback (L2Tx t) s = Ok ?s'"
    using r(1) by (cases "account_reset t a") (simp add: mempool_rollback_def a requeue_def Let_def)
  ultimately show thesis using that by (simp add: update_conv' eq)
qed

lemma rollback_l1_inv:
  "mempool_inv s \<Longrightarrow> mempool_inv (s\<lparr>next_priority_id := n\<rparr>)"
  by (simp add: mempool_inv_def)

lemma next_l1_inv:
  "mempool_inv s \<Longrightarrow> mempool_inv (s\<lparr>l1_transactions := AList.delete k (l1_transactions s), next_priority_id := n\<rparr>)"
  by (auto simp: mempool_inv_def delete_conv' split: if_splits)

lemma gc_inv:
  assumes inv: "mempool_inv s"
  shows "mempool_inv (snd (mempool_gc s))"
proof (cases "pool_capacity s \<le> pool_size s")
  case True
  let ?M = "map_of (l2_transactions_per_account s)"
  let ?A = "sc_account ` set (l2_priority_queue s)"
  let ?kept = "filter (\<lambda>(address, _). address \<in> ?A) (l2_transactions_per_account s)"
  have ok: "accounts_ok ?M" and q: "set (l2_priority_queue s) = score_for_transaction ` ready_txs ?M"
    using inv by (simp_all add: mempool_inv_def)
  have kept: "map_of ?kept = ?M |` (- (- ?A))"
    by (rule ext) (simp add: map_of_filter_key restrict_map_def)
  have "l2_initiator t \<in> ?A" if "t \<in> ready_txs ?M" for t
    using that unfolding q by (force simp: image_iff)
  then have "ready_txs (map_of ?kept) = ready_txs ?M"
    unfolding kept ready_txs_restrict [OF ok] by blast
  moreover have "accounts_ok (map_of ?kept)"
    using ok unfolding kept by (auto simp: accounts_ok_def restrict_map_def split: if_splits)
  ultimately show ?thesis
    using inv True by (simp add: mempool_gc_def mempool_inv_def Let_def)
qed (simp add: mempool_gc_def inv)

lemma mempool_info_inv: "mempool_inv s \<Longrightarrow> mempool_inv (snd (get_mempool_info s))"
proof -
  assume "mempool_inv s"
  then have "mempool_inv (s\<lparr>stashed_accounts := []\<rparr>)" by (simp add: mempool_inv_def)
  from gc_inv [OF this] show ?thesis
    by (cases "mempool_gc (s\<lparr>stashed_accounts := []\<rparr>)") (simp add: get_mempool_info_def)
qed

end
