(* ===== verification/Mempool_Properties.thy ===== *)
theory Mempool_Properties
  imports Mempool_Facts
begin

text \<open>
  The properties of the mempool: which transaction the sequencer executes next, that the queue never
  holds a dangling pointer, that giving a transaction back undoes taking it, and what the garbage
  collector does to a transaction that is being executed.
\<close>

section \<open>Reachable pools\<close>

text \<open>The pools that insertions, fetches and roll-backs can produce.  A rolled back transaction is the
  last one taken from its account, as in the state keeper.\<close>

inductive mempool_reach :: "u64 \<Rightarrow> nat \<Rightarrow> mempool_store \<Rightarrow> bool" for n c where
  new: "mempool_reach n c (mempool_new n c)"
| insert: "mempool_reach n c s \<Longrightarrow> (\<And>x. ProtocolUpgradeTx x \<notin> set txs) \<Longrightarrow>
    mempool_insert txs nonces s = Ok s' \<Longrightarrow> mempool_reach n c s'"
| take_next: "mempool_reach n c s \<Longrightarrow> next_transaction f s = Ok (x, s') \<Longrightarrow> mempool_reach n c s'"
| info: "mempool_reach n c s \<Longrightarrow> get_mempool_info s = (i, s') \<Longrightarrow> mempool_reach n c s'"
| rollback_l1: "mempool_reach n c s \<Longrightarrow> mempool_rollback (L1Tx t) s = Ok s' \<Longrightarrow> mempool_reach n c s'"
| rollback_l2: "mempool_reach n c s \<Longrightarrow>
    map_of (l2_transactions_per_account s) (l2_initiator t) = Some a \<Longrightarrow>
    at_nonce a = l2_nonce t + 1 \<Longrightarrow> l2_nonce t + 1 \<noteq> 0 \<Longrightarrow>
    mempool_rollback (L2Tx t) s = Ok s' \<Longrightarrow> mempool_reach n c s'"

text \<open>The transactions that are next for their accounts.\<close>

definition ready :: "mempool_store \<Rightarrow> l2_tx set" where
  "ready s = ready_txs (map_of (l2_transactions_per_account s))"

lemma next_transaction_cases:
  assumes inv: "mempool_inv s"
  obtains (l1) tx s' where "map_of (l1_transactions s) (next_priority_id s) = Some tx"
      "next_transaction f s = Ok (Some (L1Tx tx), s')" "mempool_inv s'"
  | (none) "map_of (l1_transactions s) (next_priority_id s) = None"
      "\<And>u. u \<in> ready s \<Longrightarrow> \<not> matches_filter (score_for_transaction u) f"
      "next_transaction f s = Ok (None, s)"
  | (l2) t s' ys zs where "map_of (l1_transactions s) (next_priority_id s) = None"
      "next_transaction f s = Ok (Some (L2Tx t), s')"
      "next_l2_transaction (score_for_transaction t) s = Ok (L2Tx t, s')" "mempool_inv s'"
      "l2_priority_queue s = ys @ score_for_transaction t # zs"
      "matches_filter (score_for_transaction t) f" "\<And>z. z \<in> set zs \<Longrightarrow> \<not> matches_filter z f"
proof (cases "map_of (l1_transactions s) (next_priority_id s)")
  case (Some tx)
  show thesis
    by (rule l1 [OF Some _ next_l1_inv [OF inv]]) (simp add: next_transaction_def Some)
next
  case None
  have q: "set (l2_priority_queue s) = score_for_transaction ` ready s"
    using inv by (simp add: mempool_inv_def ready_def)
  show thesis
  proof (cases "rfind (\<lambda>el. matches_filter el f) (l2_priority_queue s)")
    case none': None
    show thesis
      using none' unfolding rfind_None q
      by (intro none [OF None]) (auto simp: next_transaction_def None none')
  next
    case (Some x)
    then obtain ys zs where split: "l2_priority_queue s = ys @ x # zs" "matches_filter x f"
      "\<forall>z \<in> set zs. \<not> matches_filter z f"
      using rfind_Some by fastforce
    obtain t s' where run: "next_l2_transaction x s = Ok (L2Tx t, s')" "mempool_inv s'"
      "x = score_for_transaction t"
      by (rule next_l2_Ok [OF inv split(1)])
    have next': "next_transaction f s = Ok (Some (L2Tx t), s')"
      by (simp add: next_transaction_def None Some run(1))
    show thesis
      using run split by (intro l2 [OF None next']) auto
  qed
qed

lemma reach_inv: "mempool_reach n c s \<Longrightarrow> mempool_inv s"
proof (induction rule: mempool_reach.induct)
  case new
  show ?case by (rule mempool_inv_new)
next
  case (insert s txs nonces s')
  then show ?case using mempool_insert_inv [of s txs nonces] by auto
next
  case (take_next s f x s')
  from take_next.IH show ?case
    by (cases rule: next_transaction_cases [where f = f]) (use take_next in auto)
next
  case (info s i s')
  then show ?case using mempool_info_inv [of s] by simp
next
  case (rollback_l1 s t s')
  then show ?case by (auto simp: mempool_rollback_def rollback_l1_inv)
next
  case (rollback_l2 s t a s')
  show ?case
    by (rule rollback_inv [OF rollback_l2.IH rollback_l2.hyps(2-4)]) (use rollback_l2.hyps(5) in simp)
qed

text \<open>What happens to the other transactions that are next for their accounts.\<close>

lemma next_l2_effect:
  assumes inv: "mempool_inv s" and q: "l2_priority_queue s = ys @ score_for_transaction t # zs"
    and run: "next_l2_transaction (score_for_transaction t) s = Ok (L2Tx t, s')"
  obtains a a' where "t \<in> ready s" "map_of (l2_transactions_per_account s) (l2_initiator t) = Some a"
    "head_tx a = Some t" "account_next a = Ok ((t, map_option score_for_transaction (head_tx a')), a')"
    "map_of (l2_transactions_per_account s')
       = (map_of (l2_transactions_per_account s) |` (- sc_account ` set zs))(l2_initiator t \<mapsto> a')"
    "stashed_accounts s' = stashed_accounts s @ map sc_account zs"
    "l1_transactions s' = l1_transactions s" "next_priority_id s' = next_priority_id s"
    "l2_priority_queue s' = requeue None (map_option score_for_transaction (head_tx a')) ys"
    "pool_capacity s' = pool_capacity s"
proof (rule next_l2_Ok [OF inv q])
  fix t1 a a' s1
  assume *: "next_l2_transaction (score_for_transaction t) s = Ok (L2Tx t1, s1)"
    "t1 \<in> ready_txs (map_of (l2_transactions_per_account s))"
    "map_of (l2_transactions_per_account s) (l2_initiator t1) = Some a" "head_tx a = Some t1"
    "account_next a = Ok ((t1, map_option score_for_transaction (head_tx a')), a')"
    "map_of (l2_transactions_per_account s1)
       = (map_of (l2_transactions_per_account s) |` (- sc_account ` set zs))(l2_initiator t1 \<mapsto> a')"
    "stashed_accounts s1 = stashed_accounts s @ map sc_account zs"
    "l1_transactions s1 = l1_transactions s" "next_priority_id s1 = next_priority_id s"
    "l2_priority_queue s1 = requeue None (map_option score_for_transaction (head_tx a')) ys"
    "pool_capacity s1 = pool_capacity s"
  then have "t1 = t" "s1 = s'" using run by simp_all
  with * show thesis by (intro that [of a a']) (simp_all add: ready_def)
qed

lemma ready_same:
  assumes "mempool_inv s" "t \<in> ready s" "u \<in> ready s" "l2_initiator u = l2_initiator t"
  shows "u = t"
proof -
  have ok: "accounts_ok (map_of (l2_transactions_per_account s))"
    using assms(1) by (simp add: mempool_inv_def)
  show ?thesis
    using ready_txs_account [OF ok, of u] ready_txs_account [OF ok, of t] assms(2-4)
    unfolding ready_def by auto
qed

lemma next_l2_others:
  assumes inv: "mempool_inv s" and q: "l2_priority_queue s = ys @ score_for_transaction t # zs"
    and run: "next_l2_transaction (score_for_transaction t) s = Ok (L2Tx t, s')"
  shows "t \<in> ready s"
    and "u \<in> ready s \<Longrightarrow> u \<noteq> t \<Longrightarrow>
      if score_less (score_for_transaction t) (score_for_transaction u)
      then score_for_transaction u \<in> set zs \<and> l2_initiator u \<in> set (stashed_accounts s')
        \<and> map_of (l2_transactions_per_account s') (l2_initiator u) = None
      else score_less (score_for_transaction u) (score_for_transaction t) \<and> u \<in> ready s'"
proof -
  let ?M = "map_of (l2_transactions_per_account s)" and ?x = "score_for_transaction t"
  obtain a' where t: "t \<in> ready s" and map': "map_of (l2_transactions_per_account s')
       = (?M |` (- sc_account ` set zs))(l2_initiator t \<mapsto> a')"
    and stashed: "stashed_accounts s' = stashed_accounts s @ map sc_account zs"
    by (rule next_l2_effect [OF inv q run])
  show "t \<in> ready s" by (rule t)
  assume u: "u \<in> ready s" "u \<noteq> t"
  let ?y = "score_for_transaction u"
  have sorted: "sorted_wrt score_less (ys @ ?x # zs)" and ok: "accounts_ok ?M"
    and qs: "set (ys @ ?x # zs) = score_for_transaction ` ready s"
    using inv by (simp_all add: mempool_inv_def ready_def q)
  have "distinct (map sc_account (ys @ ?x # zs))"
    using mempool_inv_queue_ok [OF inv] unfolding q queue_ok_def by blast
  then have disjoint: "sc_account ` set ys \<inter> sc_account ` set zs = {}" by auto
  have other: "l2_initiator u \<noteq> l2_initiator t" using ready_same [OF inv t u(1)] u(2) by blast
  have "?y \<in> set (ys @ ?x # zs)" unfolding qs using u(1) by blast
  moreover have "?y \<noteq> ?x" using other by (metis score_account)
  ultimately consider (less) "?y \<in> set ys" | (more) "?y \<in> set zs" by auto
  then show "if score_less ?x ?y
      then ?y \<in> set zs \<and> l2_initiator u \<in> set (stashed_accounts s')
        \<and> map_of (l2_transactions_per_account s') (l2_initiator u) = None
      else score_less ?y ?x \<and> u \<in> ready s'"
  proof cases
    case less
    then have "score_less ?y ?x" using sorted by (simp add: sorted_wrt_append)
    moreover have "l2_initiator u \<in> sc_account ` set ys" using imageI [OF less, of sc_account] by simp
    then have "l2_initiator u \<notin> sc_account ` set zs" using disjoint by blast
    then have "map_of (l2_transactions_per_account s') (l2_initiator u) = ?M (l2_initiator u)"
      using other by (simp add: map' restrict_map_def)
    then have "u \<in> ready s'"
      using ready_txs_account [OF ok, of u] u(1) unfolding ready_def by (metis ready_txsI)
    ultimately show ?thesis using score_less_asym by auto
  next
    case more
    then have "score_less ?x ?y" using sorted by (simp add: sorted_wrt_append)
    moreover have "l2_initiator u \<in> sc_account ` set zs" using imageI [OF more, of sc_account] by simp
    ultimately show ?thesis using more other by (simp add: stashed map' restrict_map_def)
  qed
qed

text \<open>The account of the taken transaction after it is given back.\<close>

lemma account_after_rollback:
  assumes ok: "account_ok acc a" and head: "head_tx a = Some t" and nonce: "l2_nonce t + 1 \<noteq> 0"
    and next': "account_next a = Ok ((t, sc), a')"
  shows "at_nonce a' = l2_nonce t + 1"
    and "head_tx (snd (account_insert t (a'\<lparr>at_nonce := l2_nonce t\<rparr>))) = Some t"
proof -
  have "l2_nonce t = at_nonce a" using head_tx_ok [OF ok head] by simp
  with next' head show "at_nonce a' = l2_nonce t + 1"
    by (auto simp: account_next_def head_tx_def)
  show "head_tx (snd (account_insert t (a'\<lparr>at_nonce := l2_nonce t\<rparr>))) = Some t"
    by (simp add: account_insert_def Let_def head_tx_def update_conv')
qed

lemma insert_l2_accounts:
  "map_of (l2_transactions_per_account (insert_l2_transaction nonces tx s))
     = (map_of (l2_transactions_per_account s))
         (l2_initiator tx \<mapsto> snd (account_insert tx (account_or_new nonces (l2_initiator tx) s)))"
  "l1_transactions (insert_l2_transaction nonces tx s) = l1_transactions s"
  "next_priority_id (insert_l2_transaction nonces tx s) = next_priority_id s"
  by (simp_all add: insert_l2_transaction_def Let_def update_conv' split: prod.splits)

lemma keeper_rollback_again:
  assumes inv: "mempool_inv s" and next': "next_transaction f s = Ok (Some (L2Tx t), s1)"
    and nonce: "l2_nonce t + 1 \<noteq> 0"
  shows "\<exists>s2 s3. keeper_rollback (L2Tx t) s1 = Ok s2 \<and> next_transaction f s2 = Ok (Some (L2Tx t), s3)"
  using inv
proof (cases rule: next_transaction_cases [where f = f])
  case (l2 t0 s0 ys zs)
  then have [simp]: "t0 = t" "s0 = s1" using next' by simp_all
  have split: "l2_priority_queue s = ys @ score_for_transaction t # zs"
    and take': "next_l2_transaction (score_for_transaction t) s = Ok (L2Tx t, s1)"
    and match: "matches_filter (score_for_transaction t) f"
    using l2 by simp_all
  let ?M = "map_of (l2_transactions_per_account s)"
  obtain a a' where a: "t \<in> ready s" "?M (l2_initiator t) = Some a" "head_tx a = Some t"
    "account_next a = Ok ((t, map_option score_for_transaction (head_tx a')), a')"
    and map1: "map_of (l2_transactions_per_account s1)
       = (?M |` (- sc_account ` set zs))(l2_initiator t \<mapsto> a')"
    and same1: "l1_transactions s1 = l1_transactions s" "next_priority_id s1 = next_priority_id s"
    by (rule next_l2_effect [OF inv split take'])
  have aok: "account_ok (l2_initiator t) a" using inv a(2) by (simp add: mempool_inv_def accounts_ok_def)
  note given = account_after_rollback [OF aok a(3) nonce a(4)]
  have inv1: "mempool_inv s1" using l2(4) by simp
  obtain s2 where s2: "mempool_rollback (L2Tx t) s1 = Ok s2" "mempool_inv s2"
    "map_of (l2_transactions_per_account s2) = (map_of (l2_transactions_per_account s1))
       (l2_initiator t \<mapsto> a'\<lparr>at_nonce := l2_nonce t\<rparr>)"
    "l1_transactions s2 = l1_transactions s1" "next_priority_id s2 = next_priority_id s1"
    by (rule rollback_inv [OF inv1 _ given(1) nonce]) (auto simp: map1)
  let ?s3 = "insert_l2_transaction [] t s2"
  have run: "keeper_rollback (L2Tx t) s1 = Ok ?s3" by (simp add: keeper_rollback_def s2(1))
  have inv3: "mempool_inv ?s3" by (rule insert_l2_inv [OF s2(2)])
  have "account_or_new [] (l2_initiator t) s2 = a'\<lparr>at_nonce := l2_nonce t\<rparr>"
    by (simp add: account_or_new_def s2(3))
  then have map3: "map_of (l2_transactions_per_account ?s3) = (?M |` (- sc_account ` set zs))
      (l2_initiator t \<mapsto> snd (account_insert t (a'\<lparr>at_nonce := l2_nonce t\<rparr>)))"
    by (simp add: insert_l2_accounts s2(3) map1)
  have "accounts_ok (?M |` (- sc_account ` set zs))"
    using inv by (auto simp: mempool_inv_def accounts_ok_def restrict_map_def split: if_splits)
  then have ready3: "ready ?s3 \<subseteq> ready s" "t \<in> ready ?s3"
    using inv a(1) given(2)
    by (auto simp: ready_def map3 ready_txs_update ready_txs_restrict mempool_inv_def)
  have "\<exists>s4. next_transaction f ?s3 = Ok (Some (L2Tx t), s4)"
    using inv3
  proof (cases rule: next_transaction_cases [where f = f])
    case (l1 tx s')
    then show ?thesis using l2(1) by (simp add: insert_l2_accounts s2(4,5) same1)
  next
    case none
    then show ?thesis using ready3(2) match by blast
  next
    case again: (l2 u s4 ys' zs')
    note others = next_l2_others(2) [OF inv split take', of u] next_l2_others(2) [OF inv3 again(5,3), of t]
    have "u \<in> ready s" using next_l2_others(1) [OF inv3 again(5,3)] ready3(1) by blast
    have "u = t"
    proof (rule ccontr)
      assume "u \<noteq> t"
      then have "\<not> score_less (score_for_transaction t) (score_for_transaction u)"
        using others(1) [OF \<open>u \<in> ready s\<close>] again(6) l2(7) by (metis (full_types))
      moreover have "\<not> score_less (score_for_transaction u) (score_for_transaction t)"
        using others(2) [OF ready3(2)] \<open>u \<noteq> t\<close> again(7) match by (metis (full_types))
      ultimately show False using others(1) [OF \<open>u \<in> ready s\<close> \<open>u \<noteq> t\<close>] by simp
    qed
    then show ?thesis using again(2) by blast
  qed
  with run show ?thesis by blast
qed (use next' in auto)

section \<open>A concrete pool\<close>

definition demo_fee :: "256 word \<Rightarrow> tx_fee" where
  "demo_fee p = \<lparr>fee_gas_limit = 100, fee_max_fee_per_gas = p, fee_max_priority_fee_per_gas = 0,
     fee_gas_per_pubdata_limit = 8\<rparr>"

definition demo_l2 :: "eth_address \<Rightarrow> u32 \<Rightarrow> u64 \<Rightarrow> 256 word \<Rightarrow> l2_tx" where
  "demo_l2 a k ms p = \<lparr>l2_initiator = a, l2_nonce = k, l2_fee = demo_fee p, l2_received_ms = ms,
     l2_signature = [], l2_transaction_type = EIP1559Transaction, l2_input = None,
     l2_paymaster_params = \<lparr>pm_paymaster = [], pm_input = []\<rparr>,
     l2_execute = \<lparr>ex_contract_address = a, ex_calldata = [], ex_value = 0, ex_factory_deps = []\<rparr>,
     l2_raw_bytes = None\<rparr>"

definition demo_filter :: l2_tx_filter where
  "demo_filter = \<lparr>flt_fee_input = l1_pegged 0 0, flt_fee_per_gas = 5, flt_gas_per_pubdata = 1\<rparr>"

text \<open>Three accounts: the first pays too little, the second is next, the third has two transactions.\<close>

definition demo_txs :: "pool_tx list" where
  "demo_txs = [L2Tx (demo_l2 [1] 0 10 1), L2Tx (demo_l2 [2] 0 20 7), L2Tx (demo_l2 [3] 0 30 7),
     L2Tx (demo_l2 [3] 1 31 7)]"

definition demo_pool :: mempool_store where
  "demo_pool = ok_val (mempool_insert demo_txs [] (mempool_new 0 1))"

lemma demo_pool_insert: "mempool_insert demo_txs [] (mempool_new 0 1) = Ok demo_pool"
  by (simp add: demo_pool_def demo_txs_def)

lemma demo_pool_reach: "mempool_reach 0 1 demo_pool"
  by (rule mempool_reach.insert [OF mempool_reach.new _ demo_pool_insert]) (simp add: demo_txs_def)

definition demo_taken :: mempool_store where
  "demo_taken = snd (ok_val (next_transaction demo_filter demo_pool))"

lemma demo_next:
  "next_transaction demo_filter demo_pool = Ok (Some (L2Tx (demo_l2 [2] 0 20 7)), demo_taken)"
  by code_simp

lemma demo_taken_full: "pool_capacity demo_taken \<le> pool_size demo_taken"
  by code_simp

lemma demo_taken_accounts:
  "map (\<lambda>(k, a). (k, map_option l2_initiator (head_tx a))) (l2_transactions_per_account demo_taken)
     = [([2], None), ([3], Some [3])]"
  by code_simp

lemma demo_taken_ready: "u \<in> ready demo_taken \<Longrightarrow> l2_initiator u \<noteq> [2]"
proof -
  assume "u \<in> ready demo_taken"
  moreover have "accounts_ok (map_of (l2_transactions_per_account demo_taken))"
    using reach_inv [OF mempool_reach.take_next [OF demo_pool_reach demo_next]]
    by (simp add: mempool_inv_def)
  ultimately obtain a where "(l2_initiator u, a) \<in> set (l2_transactions_per_account demo_taken)"
    "head_tx a = Some u"
    using ready_txs_account unfolding ready_def by (metis map_of_SomeD)
  then have "(l2_initiator u, Some (l2_initiator u)) \<in> set (map (\<lambda>(k, a).
      (k, map_option l2_initiator (head_tx a))) (l2_transactions_per_account demo_taken))"
    by force
  then show ?thesis unfolding demo_taken_accounts by auto
qed

section \<open>The properties\<close>

text \<open>C19: The queue never dangles: in every reachable pool the queue holds exactly the scores of the
  transactions that are next for their accounts, once each and in order, the size counter is the
  number of stored transactions, and fetching the next transaction never panics; it returns one
  exactly when the pool says there is one.\<close>

theorem mempool_never_dangles:
  assumes "mempool_reach n c s"
  shows "sorted_wrt score_less (l2_priority_queue s)
    \<and> set (l2_priority_queue s) = score_for_transaction ` ready s
    \<and> pool_size s = alist_sum account_len (l2_transactions_per_account s)
    \<and> (\<exists>x s'. next_transaction f s = Ok (x, s') \<and> (x \<noteq> None \<longleftrightarrow> has_next f s))"
proof -
  note inv = reach_inv [OF assms]
  have q: "set (l2_priority_queue s) = score_for_transaction ` ready s"
    using inv by (simp add: mempool_inv_def ready_def)
  have "\<exists>x s'. next_transaction f s = Ok (x, s') \<and> (x \<noteq> None \<longleftrightarrow> has_next f s)"
    using inv
  proof (cases rule: next_transaction_cases [where f = f])
    case none
    then have "rfind (\<lambda>el. matches_filter el f) (l2_priority_queue s) = None"
      unfolding rfind_None q by blast
    with none show ?thesis by (simp add: has_next_def)
  next
    case (l2 t s' ys zs)
    then have "rfind (\<lambda>el. matches_filter el f) (l2_priority_queue s) \<noteq> None"
      unfolding rfind_None by auto
    with l2 show ?thesis by (simp add: has_next_def)
  qed (simp add: has_next_def)
  with inv q show ?thesis by (simp add: mempool_inv_def)
qed

theorem mempool_never_dangles_witness:
  "\<exists>x s'. next_transaction demo_filter demo_pool = Ok (x, s') \<and> (x \<noteq> None \<longleftrightarrow> has_next demo_filter demo_pool)"
  using mempool_never_dangles [OF demo_pool_reach, of demo_filter] by blast

text \<open>C20: Which transaction is next.  Priority operations come first, in the order of their ids.
  Otherwise it is the earliest received of the transactions that are next for their accounts and pay
  enough (the greater account first when received together); the accounts whose transaction was
  received earlier but pays too little are removed and reported as stashed.\<close>

theorem next_transaction_choice:
  assumes "mempool_reach n c s" "next_transaction f s = Ok (Some tx, s')"
  shows "case tx of
      L1Tx t \<Rightarrow> l1_serial_id t = next_priority_id s \<and> next_priority_id s' = next_priority_id s + 1
    | L2Tx t \<Rightarrow> map_of (l1_transactions s) (next_priority_id s) = None
        \<and> t \<in> ready s \<and> matches_filter (score_for_transaction t) f
        \<and> (\<forall>u \<in> ready s. u \<noteq> t \<longrightarrow>
             (if score_less (score_for_transaction t) (score_for_transaction u)
              then \<not> matches_filter (score_for_transaction u) f
                \<and> l2_initiator u \<in> set (stashed_accounts s')
                \<and> map_of (l2_transactions_per_account s') (l2_initiator u) = None
              else score_less (score_for_transaction u) (score_for_transaction t)
                \<and> u \<in> ready s'))
    | ProtocolUpgradeTx x \<Rightarrow> False"
  using reach_inv [OF assms(1)]
proof (cases rule: next_transaction_cases [where f = f])
  case (l1 tx s')
  then show ?thesis
    using assms(2) reach_inv [OF assms(1)]
    by (auto simp: next_transaction_def mempool_inv_def)
next
  case none
  with assms(2) show ?thesis by simp
next
  case (l2 t s1 ys zs)
  with assms(2) next_l2_others [OF reach_inv [OF assms(1)] l2(5,3)] show ?thesis by fastforce
qed

theorem next_transaction_choice_witness:
  "demo_l2 [2] 0 20 7 \<in> ready demo_pool
   \<and> matches_filter (score_for_transaction (demo_l2 [2] 0 20 7)) demo_filter"
  using next_transaction_choice [OF demo_pool_reach demo_next] by simp

text \<open>C23: Giving a transaction back undoes taking it: when the state keeper rolls back the L2
  transaction it just took, the same transaction is the next one again.\<close>

theorem rollback_undoes_next:
  assumes "mempool_reach n c s" "next_transaction f s = Ok (Some (L2Tx t), s1)" "l2_nonce t + 1 \<noteq> 0"
  shows "\<exists>s2 s3. keeper_rollback (L2Tx t) s1 = Ok s2
    \<and> next_transaction f s2 = Ok (Some (L2Tx t), s3)"
  using reach_inv [OF assms(1)] by (rule keeper_rollback_again) (fact assms(2,3))+

theorem rollback_undoes_next_witness:
  "\<exists>s2 s3. keeper_rollback (L2Tx (demo_l2 [2] 0 20 7)) demo_taken = Ok s2
    \<and> next_transaction demo_filter s2 = Ok (Some (L2Tx (demo_l2 [2] 0 20 7)), s3)"
  using rollback_undoes_next [OF demo_pool_reach demo_next] by (simp add: demo_l2_def)

text \<open>C24: The garbage collector drops accounts whose transaction is being executed: when the pool is
  full and the transaction just taken was the only one of its account in order, a collection before
  the state keeper rejects or rolls back that transaction makes the roll-back panic.\<close>

theorem gc_strands_taken_tx:
  assumes "mempool_reach n c s" "next_transaction f s = Ok (Some (L2Tx t), s1)"
    and "pool_capacity s1 \<le> pool_size s1" "\<forall>u \<in> ready s1. l2_initiator u \<noteq> l2_initiator t"
  shows "mempool_rollback (L2Tx t) (snd (get_mempool_info s1)) = Panic"
proof -
  have "mempool_reach n c s1" using mempool_reach.take_next assms(1,2) by blast
  then have "set (l2_priority_queue s1) = score_for_transaction ` ready s1"
    using reach_inv by (simp add: mempool_inv_def ready_def)
  then have "l2_initiator t \<notin> sc_account ` set (l2_priority_queue s1)" using assms(4) by auto
  then have "map_of (l2_transactions_per_account (snd (get_mempool_info s1))) (l2_initiator t) = None"
    using assms(3) by (simp add: get_mempool_info_def mempool_gc_def Let_def map_of_filter_key)
  then show ?thesis by (simp add: mempool_rollback_def)
qed

theorem gc_strands_taken_tx_witness:
  "mempool_rollback (L2Tx (demo_l2 [2] 0 20 7)) (snd (get_mempool_info demo_taken)) = Panic"
  using gc_strands_taken_tx [OF demo_pool_reach demo_next demo_taken_full] demo_taken_ready
  by (simp add: demo_l2_def)

end
