(* ===== verification/Vm_Fees.thy ===== *)
theory Vm_Fees
  imports Fee_Model
begin

text \<open>
  What the VM versions derive from a fee input: the base fee, the gas per byte of pubdata, and the
  adjustment of an input to the limits of a transaction (\<^verbatim>\<open>core/lib/multivm/src/utils/mod.rs\<close>).
  The versions up to Boojum take inputs pegged to the L1 gas price only.
\<close>

section \<open>Constants of the versions\<close>

definition MAX_L2_TX_GAS_LIMIT :: u64 where "MAX_L2_TX_GAS_LIMIT = 80000000"

fun get_max_gas_per_pubdata_byte :: "vm_version \<Rightarrow> u64" where
  "get_max_gas_per_pubdata_byte M5WithRefunds = MAX_L2_TX_GAS_LIMIT div 4000"
| "get_max_gas_per_pubdata_byte M5WithoutRefunds = MAX_L2_TX_GAS_LIMIT div 4000"
| "get_max_gas_per_pubdata_byte M6Initial = MAX_L2_TX_GAS_LIMIT div 4000"
| "get_max_gas_per_pubdata_byte M6BugWithCompressionFixed = MAX_L2_TX_GAS_LIMIT div 4000"
| "get_max_gas_per_pubdata_byte Vm1_3_2 = MAX_L2_TX_GAS_LIMIT div 4000"
| "get_max_gas_per_pubdata_byte VmVirtualBlocks = MAX_L2_TX_GAS_LIMIT div 4000"
| "get_max_gas_per_pubdata_byte VmVirtualBlocksRefundsEnhancement = MAX_L2_TX_GAS_LIMIT div 4000"
| "get_max_gas_per_pubdata_byte VmBoojumIntegration = MAX_L2_TX_GAS_LIMIT div 4000"
| "get_max_gas_per_pubdata_byte Vm1_4_1 = MAX_L2_TX_GAS_LIMIT div 2500"
| "get_max_gas_per_pubdata_byte Vm1_4_2 = MAX_L2_TX_GAS_LIMIT div 2500"
| "get_max_gas_per_pubdata_byte Vm1_5_0SmallBootloaderMemory = 50000"
| "get_max_gas_per_pubdata_byte Vm1_5_0IncreasedBootloaderMemory = 50000"

fun get_bootloader_max_txs_in_batch :: "vm_version \<Rightarrow> nat" where
  "get_bootloader_max_txs_in_batch Vm1_4_1 = 10000"
| "get_bootloader_max_txs_in_batch Vm1_4_2 = 10000"
| "get_bootloader_max_txs_in_batch Vm1_5_0SmallBootloaderMemory = 10000"
| "get_bootloader_max_txs_in_batch Vm1_5_0IncreasedBootloaderMemory = 10000"
| "get_bootloader_max_txs_in_batch _ = 1024"

fun gas_bootloader_batch_tip_overhead :: "vm_version \<Rightarrow> u32" where
  "gas_bootloader_batch_tip_overhead VmBoojumIntegration = 80000000"
| "gas_bootloader_batch_tip_overhead Vm1_4_1 = 80000000"
| "gas_bootloader_batch_tip_overhead Vm1_4_2 = 170000000"
| "gas_bootloader_batch_tip_overhead Vm1_5_0SmallBootloaderMemory = 400000000"
| "gas_bootloader_batch_tip_overhead Vm1_5_0IncreasedBootloaderMemory = 400000000"
| "gas_bootloader_batch_tip_overhead _ = 0"

fun circuit_statistics_bootloader_batch_tip_overhead :: "vm_version \<Rightarrow> nat" where
  "circuit_statistics_bootloader_batch_tip_overhead Vm1_4_2 = 5000"
| "circuit_statistics_bootloader_batch_tip_overhead Vm1_5_0SmallBootloaderMemory = 12000"
| "circuit_statistics_bootloader_batch_tip_overhead Vm1_5_0IncreasedBootloaderMemory = 12000"
| "circuit_statistics_bootloader_batch_tip_overhead _ = 0"

fun execution_metrics_bootloader_batch_tip_overhead :: "vm_version \<Rightarrow> nat" where
  "execution_metrics_bootloader_batch_tip_overhead Vm1_4_2 = 1500"
| "execution_metrics_bootloader_batch_tip_overhead Vm1_5_0SmallBootloaderMemory = 2000"
| "execution_metrics_bootloader_batch_tip_overhead Vm1_5_0IncreasedBootloaderMemory = 2000"
| "execution_metrics_bootloader_batch_tip_overhead _ = 0"

fun get_max_batch_base_layer_circuits :: "vm_version \<Rightarrow> nat" where
  "get_max_batch_base_layer_circuits Vm1_5_0SmallBootloaderMemory = 34100"
| "get_max_batch_base_layer_circuits Vm1_5_0IncreasedBootloaderMemory = 34100"
| "get_max_batch_base_layer_circuits _ = 24100"

fun get_used_bootloader_memory_bytes :: "vm_version \<Rightarrow> nat" where
  "get_used_bootloader_memory_bytes Vm1_4_1 = 24000000"
| "get_used_bootloader_memory_bytes Vm1_4_2 = 30000000"
| "get_used_bootloader_memory_bytes Vm1_5_0SmallBootloaderMemory = 59000000"
| "get_used_bootloader_memory_bytes Vm1_5_0IncreasedBootloaderMemory = 63800000"
| "get_used_bootloader_memory_bytes _ = 2 ^ 24"

text \<open>For the versions 1.5.0 the code returns the number of bytes here as well.\<close>

fun get_used_bootloader_memory_words :: "vm_version \<Rightarrow> nat" where
  "get_used_bootloader_memory_words Vm1_5_0SmallBootloaderMemory =
     get_used_bootloader_memory_bytes Vm1_5_0SmallBootloaderMemory"
| "get_used_bootloader_memory_words Vm1_5_0IncreasedBootloaderMemory =
     get_used_bootloader_memory_bytes Vm1_5_0IncreasedBootloaderMemory"
| "get_used_bootloader_memory_words v = get_used_bootloader_memory_bytes v div 32"

section \<open>Base fee and gas per pubdata\<close>

definition ceil_div :: "u64 \<Rightarrow> u64 \<Rightarrow> (unit, u64) res" where
  "ceil_div a b =
     (if a = 0 then Ok a else if b = 0 then Panic else Ok ((a - 1) div b + 1))"

definition eth_price_per_pubdata_byte :: "u64 \<Rightarrow> u64" where
  "eth_price_per_pubdata_byte l1_gas_price = l1_gas_price * ucast L1_GAS_PER_PUBDATA_BYTE"

definition base_fee_to_gas_per_pubdata :: "u64 \<Rightarrow> u64 \<Rightarrow> (unit, u64) res" where
  "base_fee_to_gas_per_pubdata l1_gas_price base_fee =
     ceil_div (eth_price_per_pubdata_byte l1_gas_price) base_fee"

text \<open>The \<^verbatim>\<open>fee\<close> module of a version with pegged prices and of one without.\<close>

definition derive_pegged :: "u64 \<Rightarrow> l1_pegged_input \<Rightarrow> (unit, u64 \<times> u64) res" where
  "derive_pegged max_gas_per_pubdata i =
     res_bind (ceil_div (eth_price_per_pubdata_byte (lp_l1_gas_price i)) max_gas_per_pubdata)
       (\<lambda>pubdata_fee.
     let base_fee = max (lp_fair_l2_gas_price i) pubdata_fee in
     res_bind (base_fee_to_gas_per_pubdata (lp_l1_gas_price i) base_fee) (\<lambda>gas_per_pubdata.
     Ok (base_fee, gas_per_pubdata)))"

definition derive_independent :: "u64 \<Rightarrow> pubdata_independent_input \<Rightarrow> (unit, u64 \<times> u64) res" where
  "derive_independent max_gas_per_pubdata i =
     res_bind (ceil_div (pi_fair_pubdata_price i) max_gas_per_pubdata) (\<lambda>pubdata_fee.
     let base_fee = max (pi_fair_l2_gas_price i) pubdata_fee in
     res_bind (ceil_div (pi_fair_pubdata_price i) base_fee) (\<lambda>gas_per_pubdata.
     Ok (base_fee, gas_per_pubdata)))"

fun takes_pegged_only :: "vm_version \<Rightarrow> bool" where
  "takes_pegged_only Vm1_4_1 = False"
| "takes_pegged_only Vm1_4_2 = False"
| "takes_pegged_only Vm1_5_0SmallBootloaderMemory = False"
| "takes_pegged_only Vm1_5_0IncreasedBootloaderMemory = False"
| "takes_pegged_only _ = True"

definition derive_base_fee_and_gas_per_pubdata ::
    "batch_fee_input \<Rightarrow> vm_version \<Rightarrow> (unit, u64 \<times> u64) res" where
  "derive_base_fee_and_gas_per_pubdata i v =
     (if takes_pegged_only v
      then res_bind (into_l1_pegged i) (derive_pegged (get_max_gas_per_pubdata_byte v))
      else derive_independent (get_max_gas_per_pubdata_byte v) (into_pubdata_independent i))"

text \<open>The base fee of a batch, from the fields \<^verbatim>\<open>enforced_base_fee\<close> and \<^verbatim>\<open>fee_input\<close> of its
  environment.\<close>

definition get_batch_base_fee :: "u64 option \<Rightarrow> batch_fee_input \<Rightarrow> vm_version \<Rightarrow> (unit, u64) res" where
  "get_batch_base_fee enforced_base_fee fee_input v =
     (case enforced_base_fee of
        Some base_fee \<Rightarrow> Ok base_fee
      | None \<Rightarrow> res_bind (derive_base_fee_and_gas_per_pubdata fee_input v) (\<lambda>(base_fee, _). Ok base_fee))"

section \<open>Adjusting an input to a transaction\<close>

definition as_u64 :: "u256 \<Rightarrow> (unit, u64) res" where
  "as_u64 x = (if unat x < 2 ^ 64 then Ok (ucast x) else Panic)"

text \<open>The operators of \<^verbatim>\<open>U256\<close> panic on overflow.\<close>

definition u256_sub :: "u256 \<Rightarrow> u256 \<Rightarrow> (unit, u256) res" where
  "u256_sub a b = (if b \<le> a then Ok (a - b) else Panic)"

definition u256_mul :: "u256 \<Rightarrow> u256 \<Rightarrow> (unit, u256) res" where
  "u256_mul a b = (if unat a * unat b < 2 ^ 256 then Ok (a * b) else Panic)"

definition adjusted_l2_price :: "u256 \<Rightarrow> u64 \<Rightarrow> u256" where
  "adjusted_l2_price max_base_fee price =
     (if max_base_fee < ucast price then max_base_fee else ucast price)"

definition adjusted_input :: "batch_fee_input \<Rightarrow> u256 \<Rightarrow> u256 \<Rightarrow> (unit, batch_fee_input) res" where
  "adjusted_input input desired max_base_fee =
     (case input of
        L1Pegged i \<Rightarrow>
          let price = adjusted_l2_price max_base_fee (lp_fair_l2_gas_price i) in
          res_bind (u256_sub desired 1) (\<lambda>less.
          res_bind (u256_mul price less) (\<lambda>product.
          res_bind (as_u64 (product div 17)) (\<lambda>l1_gas_price.
          res_bind (as_u64 price) (\<lambda>fair_l2.
          Ok (L1Pegged \<lparr>lp_fair_l2_gas_price = fair_l2, lp_l1_gas_price = l1_gas_price\<rparr>)))))
      | PubdataIndependent i \<Rightarrow>
          let price = adjusted_l2_price max_base_fee (pi_fair_l2_gas_price i) in
          res_bind (u256_sub desired 1) (\<lambda>less.
          res_bind (u256_mul price less) (\<lambda>product.
          res_bind (as_u64 product) (\<lambda>pubdata_price.
          res_bind (as_u64 price) (\<lambda>fair_l2.
          Ok (PubdataIndependent (i\<lparr>pi_fair_pubdata_price := pubdata_price,
            pi_fair_l2_gas_price := fair_l2\<rparr>)))))))"

definition adjust_pubdata_price_for_tx ::
    "batch_fee_input \<Rightarrow> u256 \<Rightarrow> u256 option \<Rightarrow> vm_version \<Rightarrow> (unit, batch_fee_input) res" where
  "adjust_pubdata_price_for_tx input tx_gas_per_pubdata_limit opt_max_base_fee v =
     (let max_base_fee = (case opt_max_base_fee of Some m \<Rightarrow> m | None \<Rightarrow> - 1);
          desired = min tx_gas_per_pubdata_limit (ucast (get_max_gas_per_pubdata_byte v)) in
      res_bind (derive_base_fee_and_gas_per_pubdata input v) (\<lambda>(base_fee, gas_per_pubdata).
      if ucast gas_per_pubdata \<le> desired \<and> ucast base_fee \<le> max_base_fee then Ok input
      else adjusted_input input desired max_base_fee))"

section \<open>Lemmas\<close>

text \<open>The quotient is the least number that reaches the dividend.\<close>

lemma least_multiple:
  fixes a b :: nat
  assumes "0 < a" "0 < b"
  shows "a \<le> ((a - 1) div b + 1) * b" "(a - 1) div b * b < a" "(a - 1) div b + 1 \<le> a"
proof -
  have "a - 1 < ((a - 1) div b + 1) * b"
    using dividend_less_div_times [OF assms(2), of "a - 1"] by (simp add: algebra_simps)
  then show "a \<le> ((a - 1) div b + 1) * b" using assms(1) by linarith
  show "(a - 1) div b * b < a"
    using div_times_less_eq_dividend [of "a - 1" b] assms(1) by linarith
  show "(a - 1) div b + 1 \<le> a"
    using div_le_dividend [of "a - 1" b] assms(1) by linarith
qed

lemma unat_minus_1: "a \<noteq> 0 \<Longrightarrow> unat (a - 1 :: 'a::len word) = unat a - 1"
  by (simp add: unat_minus_one)

lemma ceil_div_cases:
  assumes "b \<noteq> 0"
  obtains q where "ceil_div a b = Ok q" "unat a \<le> unat q * unat b"
    "a \<noteq> 0 \<longrightarrow> (unat q - 1) * unat b < unat a \<and> 0 < unat q" "q \<le> a"
proof (cases "a = 0")
  case True
  then show ?thesis using that [of 0] by (simp add: ceil_div_def)
next
  case False
  let ?n = "(unat a - 1) div unat b + 1"
  have pos: "0 < unat a" "0 < unat b" using False assms by (simp_all add: unat_gt_0)
  have le: "?n \<le> unat a" using least_multiple(3) [OF pos] .
  then have n: "?n < 2 ^ 64" using unsigned_less [of a, where 'a = nat] by simp
  define q where "q = (a - 1) div b + 1"
  have "q = of_nat ?n"
    by (simp add: q_def word_arith_nat_div unat_minus_1 [OF False])
  then have q: "unat q = ?n" by (simp only: unat_of_nat) (use n in simp)
  show ?thesis
  proof (rule that [of q])
    show "ceil_div a b = Ok q" using False assms by (simp add: ceil_div_def q_def)
    show "q \<le> a" using le q by (simp add: word_le_nat_alt)
  qed (use least_multiple [OF pos] q False in simp_all)
qed

text \<open>The fees of a version: the price of a byte of pubdata it charges for and the base fee.\<close>

definition fees_for :: "u64 \<Rightarrow> u64 \<Rightarrow> u64 \<Rightarrow> u64 \<times> u64 \<Rightarrow> bool" where
  "fees_for max_gas fair_l2 pubdata_price = (\<lambda>(base_fee, gas_per_pubdata).
     fair_l2 \<le> base_fee
   \<and> unat pubdata_price \<le> unat gas_per_pubdata * unat base_fee
   \<and> (pubdata_price \<noteq> 0 \<longrightarrow> (unat gas_per_pubdata - 1) * unat base_fee < unat pubdata_price)
   \<and> gas_per_pubdata \<le> max_gas)"

lemma max_gas_nonzero: "get_max_gas_per_pubdata_byte v \<noteq> 0"
  by (cases v) (simp_all add: MAX_L2_TX_GAS_LIMIT_def)

text \<open>Choosing the base fee at least the price spread over the greatest number of gas keeps the gas per
  byte within that number.\<close>

lemma ceil_div_bounded:
  assumes "m \<noteq> 0" "ceil_div p m = Ok c" "max l c = b" "ceil_div p b = Ok g"
  shows "g \<le> m"
proof (cases "p = 0")
  case True
  then show ?thesis using assms by (simp add: ceil_div_def)
next
  case False
  have b: "b \<noteq> 0" using False assms(4) by (auto simp: ceil_div_def split: if_splits)
  obtain q where q: "ceil_div p m = Ok q" "unat p \<le> unat q * unat m"
    by (rule ceil_div_cases [OF assms(1), of p])
  obtain h where h: "ceil_div p b = Ok h" "(unat h - 1) * unat b < unat p" "0 < unat h"
    by (rule ceil_div_cases [OF b, of p]) (use False in blast)
  have eq: "q = c" "h = g" using q(1) h(1) assms(2,4) by simp_all
  have "c \<le> b" using assms(3) by auto
  then have "unat p \<le> unat b * unat m"
    using q(2) eq by (meson le_trans mult_le_mono1 word_le_nat_alt)
  then have "unat p \<le> unat m * unat b" by (simp only: mult.commute)
  with h(2) have "(unat h - 1) * unat b < unat m * unat b" by (rule less_le_trans)
  then have "unat h - 1 < unat m" by (simp only: mult_less_cancel2)
  with h(3) have "unat h \<le> unat m" by linarith
  then have "unat g \<le> unat m" by (simp only: eq)
  then show ?thesis by (simp add: word_le_nat_alt)
qed

lemma derive_independent_fees:
  assumes "m \<noteq> 0"
  shows "\<exists>r. derive_independent m i = (Ok r)
    \<and> fees_for m (pi_fair_l2_gas_price i) (pi_fair_pubdata_price i) r"
proof -
  let ?p = "pi_fair_pubdata_price i"
  obtain c where c: "ceil_div ?p m = Ok c" "unat ?p \<le> unat c * unat m"
    by (rule ceil_div_cases [OF assms, of ?p])
  define b where "b = max (pi_fair_l2_gas_price i) c"
  show ?thesis
  proof (cases "?p = 0")
    case True
    then show ?thesis
      using c by (auto simp: derive_independent_def ceil_div_def Let_def fees_for_def)
  next
    case False
    then have "c \<noteq> 0" using c(2) by (auto simp: unat_eq_0)
    then have "b \<noteq> 0" unfolding b_def by (metis max.cobounded2 word_le_0_iff)
    then obtain g where g: "ceil_div ?p b = Ok g" "unat ?p \<le> unat g * unat b"
      "?p \<noteq> 0 \<longrightarrow> (unat g - 1) * unat b < unat ?p \<and> 0 < unat g"
      by (rule ceil_div_cases [of b ?p])
    have "derive_independent m i = (Ok (b, g))"
      using c(1) g(1) by (simp add: derive_independent_def Let_def b_def)
    moreover have "g \<le> m" using ceil_div_bounded [OF assms c(1) b_def [symmetric] g(1)] .
    ultimately show ?thesis
      using g(2,3) by (simp add: fees_for_def b_def)
  qed
qed

lemma derive_pegged_independent:
  "derive_pegged m i = derive_independent m (into_pubdata_independent (L1Pegged i))"
  by (simp add: derive_pegged_def derive_independent_def base_fee_to_gas_per_pubdata_def
    eth_price_per_pubdata_byte_def)

lemma into_pubdata_independent_prices [simp]:
  "pi_fair_l2_gas_price (into_pubdata_independent i) = fair_l2_gas_price i"
  "pi_fair_pubdata_price (into_pubdata_independent i) = fair_pubdata_price i"
  by (cases i; simp)+

definition accepts :: "vm_version \<Rightarrow> batch_fee_input \<Rightarrow> bool" where
  "accepts v i \<longleftrightarrow> takes_pegged_only v \<longrightarrow> (\<exists>p. i = L1Pegged p)"

lemma derive_accepted:
  "accepts v i \<Longrightarrow> derive_base_fee_and_gas_per_pubdata i v
     = derive_independent (get_max_gas_per_pubdata_byte v) (into_pubdata_independent i)"
  by (auto simp: derive_base_fee_and_gas_per_pubdata_def accepts_def derive_pegged_independent
    simp del: into_pubdata_independent.simps)

lemma derive_refused:
  "\<not> accepts v i \<Longrightarrow> derive_base_fee_and_gas_per_pubdata i v = Panic"
  by (cases i) (auto simp: derive_base_fee_and_gas_per_pubdata_def accepts_def)

lemma derive_fees:
  assumes "accepts v i"
  obtains r where "derive_base_fee_and_gas_per_pubdata i v = Ok r"
    "fees_for (get_max_gas_per_pubdata_byte v) (fair_l2_gas_price i) (fair_pubdata_price i) r"
  using derive_independent_fees [OF max_gas_nonzero, of v "into_pubdata_independent i"]
  by (auto simp: derive_accepted [OF assms])

text \<open>For the versions 1.5.0 the number of words reported is the number of bytes, and not the number of
  32-byte words that it is for the other versions.\<close>

lemma bootloader_words_are_bytes:
  "get_used_bootloader_memory_words v * 32 = get_used_bootloader_memory_bytes v \<longleftrightarrow>
     v \<notin> {Vm1_5_0SmallBootloaderMemory, Vm1_5_0IncreasedBootloaderMemory}"
  by (cases v) simp_all

end
