(* ===== verification/Fee_Properties.thy ===== *)
theory Fee_Properties
  imports Vm_Fees
begin

text \<open>
  The properties of the fee model: every protocol version gets an input its VM accepts, the derived
  fees pay for the pubdata, the adjustment to a transaction keeps its limits, and the two providers
  agree.
\<close>

section \<open>Adjusted inputs\<close>

lemma ceil_div_le:
  assumes "ceil_div p b = Ok g" "unat p \<le> n * unat b"
  shows "unat g \<le> n"
proof (cases "p = 0")
  case True
  then show ?thesis using assms by (simp add: ceil_div_def)
next
  case False
  have b: "b \<noteq> 0" using False assms(1) by (auto simp: ceil_div_def split: if_splits)
  obtain h where h: "ceil_div p b = Ok h"
    "p \<noteq> 0 \<longrightarrow> (unat h - 1) * unat b < unat p \<and> 0 < unat h"
    by (rule ceil_div_cases [OF b, of p])
  have "(unat h - 1) * unat b < n * unat b" using h(2) False assms(2) by linarith
  then have "unat h \<le> n" by (simp only: mult_less_cancel2) linarith
  then show ?thesis using h(1) assms(1) by simp
qed

text \<open>An input whose pubdata price is at most \<open>d - 1\<close> times its gas price.\<close>

lemma derive_independent_small:
  assumes "unat (pi_fair_pubdata_price i) \<le> k * unat (pi_fair_l2_gas_price i)"
    and "k \<le> unat m" and "m \<noteq> 0"
  shows "\<exists>g. derive_independent m i = (Ok (pi_fair_l2_gas_price i, g))
    \<and> unat g \<le> k"
proof -
  let ?p = "pi_fair_pubdata_price i" and ?l = "pi_fair_l2_gas_price i"
  obtain c where c: "ceil_div ?p m = Ok c" by (rule ceil_div_cases [OF assms(3), of ?p])
  have "unat ?p \<le> unat ?l * unat m"
    using le_trans [OF assms(1) mult_le_mono1 [OF assms(2)]] by (simp only: mult.commute)
  then have "unat c \<le> unat ?l" by (rule ceil_div_le [OF c])
  then have "c \<le> ?l" by (simp add: word_le_nat_alt)
  then have base: "max ?l c = ?l" by (simp add: max_def)
  have "?l = 0 \<longrightarrow> ?p = 0" using assms(1) by (auto simp: unat_eq_0)
  then have "\<exists>g. ceil_div ?p ?l = Ok g" by (simp add: ceil_div_def)
  then obtain g where g: "ceil_div ?p ?l = Ok g" ..
  have "derive_independent m i = (Ok (?l, g))"
    using c g base by (simp add: derive_independent_def Let_def)
  then show ?thesis using ceil_div_le [OF g assms(1)] by blast
qed

lemma adjusted_l2_price_le:
  "adjusted_l2_price m p \<le> m" "adjusted_l2_price m p \<le> ucast p"
  by (auto simp: adjusted_l2_price_def)

lemma as_u64_Ok: "as_u64 x = Ok y \<longleftrightarrow> unat x < 2 ^ 64 \<and> y = ucast x"
  by (auto simp: as_u64_def)

lemma as_u64_unat: "as_u64 x = Ok y \<Longrightarrow> unat y = unat x"
  by (simp add: as_u64_Ok unsigned_ucast_eq unsigned_take_bit_eq take_bit_nat_eq_self)

lemma u256_ops_Ok:
  "u256_sub a b = Ok c \<longleftrightarrow> b \<le> a \<and> c = a - b"
  "u256_mul a b = Ok c \<longleftrightarrow> unat a * unat b < 2 ^ 256 \<and> c = a * b"
  by (auto simp: u256_sub_def u256_mul_def)

lemma u256_mul_unat: "u256_mul a b = Ok c \<Longrightarrow> unat c = unat a * unat b"
  by (auto simp: u256_ops_Ok unat_word_ariths)

text \<open>What the adjustment aims for, and what it makes of an input outside of it.\<close>

definition desired_gas :: "vm_version \<Rightarrow> u256 \<Rightarrow> u256" where
  "desired_gas v limit = min limit (ucast (get_max_gas_per_pubdata_byte v))"

definition base_limit :: "u256 option \<Rightarrow> u256" where
  "base_limit m = (case m of Some b \<Rightarrow> b | None \<Rightarrow> - 1)"

definition within :: "vm_version \<Rightarrow> u256 \<Rightarrow> u256 option \<Rightarrow> u64 \<times> u64 \<Rightarrow> bool" where
  "within v limit m r \<longleftrightarrow> ucast (snd r) \<le> desired_gas v limit \<and> ucast (fst r) \<le> base_limit m"

lemma unat_ucast_up: "unat (ucast (x :: u64) :: u256) = unat x"
  using unsigned_less [of x, where 'a = nat]
  by (simp add: unsigned_ucast_eq unsigned_take_bit_eq take_bit_nat_eq_self)

lemma ucast_up_le: "(ucast (x :: u64) :: u256) \<le> ucast y \<longleftrightarrow> x \<le> y"
  by (simp add: word_le_nat_alt unat_ucast_up)

lemma ucast_up_0: "(ucast (x :: u64) :: u256) = 0 \<longleftrightarrow> x = 0"
  by (simp only: unat_eq_0 [symmetric] unat_ucast_up)

lemma unat_desired_gas: "unat (desired_gas v limit) \<le> unat (get_max_gas_per_pubdata_byte v)"
  by (simp add: desired_gas_def min_def unat_ucast_up word_le_nat_alt)

lemma adjust_unfold:
  "derive_base_fee_and_gas_per_pubdata i v = Ok r \<Longrightarrow> adjust_pubdata_price_for_tx i limit m v =
     (if within v limit m r then Ok i else adjusted_input i (desired_gas v limit) (base_limit m))"
  by (cases r) (simp add: adjust_pubdata_price_for_tx_def within_def desired_gas_def base_limit_def
    Let_def)

definition below :: "vm_version \<Rightarrow> u256 \<Rightarrow> u256 option \<Rightarrow> batch_fee_input \<Rightarrow> bool" where
  "below v limit m i \<longleftrightarrow> accepts v i \<and> 1 \<le> desired_gas v limit
   \<and> unat (fair_pubdata_price i) \<le> (unat (desired_gas v limit) - 1) * unat (fair_l2_gas_price i)
   \<and> unat (fair_l2_gas_price i) \<le> unat (base_limit m)"

lemma unat_sub_1: "(1 :: u256) \<le> d \<Longrightarrow> unat (d - 1) = unat d - 1"
  by (rule unat_minus_1) auto

lemma as_u64_price: "\<exists>y. as_u64 (adjusted_l2_price b p) = Ok y"
  using adjusted_l2_price_le(2) [of b p] unsigned_less [of p, where 'a = nat]
  by (auto simp: as_u64_def word_le_nat_alt unat_ucast_up)

lemma pegged_price_le:
  assumes "as_u64 (x div 17) = Ok y"
  shows "unat (y * ucast L1_GAS_PER_PUBDATA_BYTE :: u64) \<le> unat x"
proof -
  have "unat (y * ucast L1_GAS_PER_PUBDATA_BYTE :: u64) \<le> unat y * 17"
    by (simp add: L1_GAS_PER_PUBDATA_BYTE_def unat_word_ariths)
  also have "\<dots> = unat x div 17 * 17" using as_u64_unat [OF assms] by (simp add: unat_div)
  also have "\<dots> \<le> unat x" by simp
  finally show ?thesis .
qed

lemma adjust_below:
  assumes "accepts v i" "derive_base_fee_and_gas_per_pubdata i v = Ok r" "\<not> within v limit m r"
    and "adjust_pubdata_price_for_tx i limit m v = Ok i'"
  shows "below v limit m i'"
proof -
  let ?price = "adjusted_l2_price (base_limit m) (fair_l2_gas_price i)"
  let ?d = "desired_gas v limit"
  have price: "unat ?price \<le> unat (base_limit m)"
    using adjusted_l2_price_le(1) by (simp add: word_le_nat_alt)
  show ?thesis
  proof (cases i)
    case (L1Pegged p)
    with assms obtain x y l where *: "1 \<le> ?d" "u256_mul ?price (?d - 1) = Ok x"
      "as_u64 (x div 17) = Ok y" "as_u64 ?price = Ok l"
      "i' = L1Pegged \<lparr>lp_fair_l2_gas_price = l, lp_l1_gas_price = y\<rparr>"
      by (auto simp: adjust_unfold adjusted_input_def Let_def res_bind_Ok_iff u256_ops_Ok(1))
    have "unat x = (unat ?d - 1) * unat l"
      using u256_mul_unat [OF *(2)] as_u64_unat [OF *(4)] unat_sub_1 [OF *(1)] by simp
    then show ?thesis
      using assms(1) * L1Pegged pegged_price_le [OF *(3)] as_u64_unat [OF *(4)] price
      by (simp add: below_def accepts_def)
  next
    case (PubdataIndependent p)
    with assms obtain x y l where *: "1 \<le> ?d" "u256_mul ?price (?d - 1) = Ok x"
      "as_u64 x = Ok y" "as_u64 ?price = Ok l"
      "i' = PubdataIndependent (p\<lparr>pi_fair_pubdata_price := y, pi_fair_l2_gas_price := l\<rparr>)"
      by (auto simp: adjust_unfold adjusted_input_def Let_def res_bind_Ok_iff u256_ops_Ok(1))
    have "unat y = (unat ?d - 1) * unat l"
      using u256_mul_unat [OF *(2)] as_u64_unat [OF *(3)] as_u64_unat [OF *(4)] unat_sub_1 [OF *(1)]
      by simp
    then show ?thesis
      using assms(1) * PubdataIndependent as_u64_unat [OF *(4)] price
      by (simp add: below_def accepts_def)
  qed
qed

lemma below_within:
  assumes "below v limit m i"
  shows "\<exists>r. derive_base_fee_and_gas_per_pubdata i v = Ok r \<and> within v limit m r"
proof -
  let ?k = "unat (desired_gas v limit) - 1"
  have "?k \<le> unat (get_max_gas_per_pubdata_byte v)" using unat_desired_gas [of v limit] by linarith
  then obtain g where g: "derive_base_fee_and_gas_per_pubdata i v = Ok (fair_l2_gas_price i, g)"
    "unat g \<le> ?k"
    using derive_independent_small [of "into_pubdata_independent i" ?k
        "get_max_gas_per_pubdata_byte v"] assms max_gas_nonzero derive_accepted
    by (auto simp: below_def)
  then show ?thesis
    using assms by (auto simp: within_def below_def word_le_nat_alt unat_ucast_up)
qed

lemma adjusted_input_Panic:
  assumes "adjusted_input i d b = Panic" "unat d \<le> 2 ^ 64"
  shows "d = 0 \<or> 2 ^ 64 \<le> unat (fair_l2_gas_price i) * unat d"
proof (rule ccontr)
  assume neg: "\<not> ?thesis"
  let ?price = "adjusted_l2_price b (fair_l2_gas_price i)"
  have d: "1 \<le> d" using neg by (simp add: word_le_nat_alt unat_gt_0 Suc_le_eq)
  have "unat ?price \<le> unat (fair_l2_gas_price i)"
    using adjusted_l2_price_le(2) by (simp add: word_le_nat_alt unat_ucast_up)
  then have "unat ?price * unat (d - 1) \<le> unat (fair_l2_gas_price i) * unat d"
    by (rule mult_le_mono) (simp add: unat_sub_1 [OF d])
  then have small: "unat ?price * unat (d - 1) < 2 ^ 64" using neg by linarith
  then have mul: "u256_mul ?price (d - 1) = Ok (?price * (d - 1))" by (simp add: u256_mul_def)
  have prod: "unat (?price * (d - 1)) < 2 ^ 64" using u256_mul_unat [OF mul] small by simp
  then have quot: "unat (?price * (d - 1) div 17) < 2 ^ 64"
    by (simp add: unat_div)
  obtain l where l: "as_u64 ?price = Ok l" using as_u64_price by blast
  show False
  proof (cases i)
    case (L1Pegged p)
    then show ?thesis using assms(1) d mul quot l
      by (simp add: adjusted_input_def u256_sub_def Let_def as_u64_def)
  next
    case (PubdataIndependent p)
    then show ?thesis using assms(1) d mul prod l
      by (simp add: adjusted_input_def u256_sub_def Let_def as_u64_def)
  qed
qed

lemma adjusted_input_not_Err: "adjusted_input i d b \<noteq> Err e"
  by (cases i) (auto simp: adjusted_input_def u256_sub_def u256_mul_def as_u64_def Let_def)

section \<open>The properties\<close>

text \<open>C29: Every protocol version gets a fee input that its VM accepts, and the fees derived from it pay
  for the pubdata: the base fee is at least the fair gas price, the gas charged for a byte of pubdata
  is the least whose value at the base fee reaches the price of the byte, and it never exceeds what a
  user of that version can sign.\<close>

theorem fees_cover_pubdata:
  "\<exists>i base_fee gas_per_pubdata.
     for_protocol_version p l2_price (Some pubdata_price) l1_price = Ok i
   \<and> derive_base_fee_and_gas_per_pubdata i (vm_version_from p) = Ok (base_fee, gas_per_pubdata)
   \<and> l2_price \<le> base_fee
   \<and> unat (fair_pubdata_price i) \<le> unat gas_per_pubdata * unat base_fee
   \<and> (fair_pubdata_price i = 0 \<or> (unat gas_per_pubdata - 1) * unat base_fee < unat (fair_pubdata_price i))
   \<and> gas_per_pubdata \<le> get_max_gas_per_pubdata_byte (vm_version_from p)"
proof -
  obtain i where i: "for_protocol_version p l2_price (Some pubdata_price) l1_price = Ok i"
    "fair_l2_gas_price i = l2_price" "is_post_1_4_1 p \<or> (\<exists>x. i = L1Pegged x)"
    by (cases "is_post_1_4_1 p") (auto simp: for_protocol_version_def unwrap_def)
  have "accepts (vm_version_from p) i"
    using i(3) by (cases p) (auto simp: accepts_def is_post_1_4_1_def less_eq_protocol_version_id_def)
  then obtain r where "derive_base_fee_and_gas_per_pubdata i (vm_version_from p) = Ok r"
    "fees_for (get_max_gas_per_pubdata_byte (vm_version_from p)) (fair_l2_gas_price i)
       (fair_pubdata_price i) r"
    by (rule derive_fees)
  then show ?thesis using i(1,2) by (cases r) (auto simp: fees_for_def)
qed

lemma within_iff:
  "within v limit max_base_fee (base_fee, gas) \<longleftrightarrow> ucast gas \<le> limit
     \<and> gas \<le> get_max_gas_per_pubdata_byte v
     \<and> (case max_base_fee of Some m \<Rightarrow> ucast base_fee \<le> m | None \<Rightarrow> True)"
  by (auto simp: within_def desired_gas_def base_limit_def ucast_up_le split: option.splits)

lemma adjust_Panic:
  assumes "adjusted_input i (desired_gas v limit) (base_limit max_base_fee) = Panic"
  shows "limit = 0 \<or> 2 ^ 64 \<le> unat (fair_l2_gas_price i) * unat (get_max_gas_per_pubdata_byte v)"
proof -
  have d: "unat (desired_gas v limit) \<le> unat (get_max_gas_per_pubdata_byte v)"
    by (rule unat_desired_gas)
  then have "unat (desired_gas v limit) \<le> 2 ^ 64"
    using unsigned_less [of "get_max_gas_per_pubdata_byte v", where 'a = nat] by simp
  then consider "desired_gas v limit = 0"
    | "2 ^ 64 \<le> unat (fair_l2_gas_price i) * unat (desired_gas v limit)"
    using adjusted_input_Panic assms by blast
  then show ?thesis
  proof cases
    case 1
    then have "limit = 0"
      using max_gas_nonzero [of v] by (auto simp: desired_gas_def min_def ucast_up_0 split: if_splits)
    then show ?thesis ..
  next
    case 2
    then show ?thesis using mult_le_mono2 [OF d, of "unat (fair_l2_gas_price i)"] by linarith
  qed
qed

text \<open>C30: Adjusting the fee input to a transaction: the adjusted input keeps the gas per pubdata within
  the limit the transaction signed (and within that of the version) and the base fee within the given
  maximum, an input that keeps them already is returned unchanged, and the only panics are a limit of
  zero and a price that leaves 64 bits.\<close>

theorem adjusted_fees_within_limits:
  assumes "accepts v i"
  shows "(case adjust_pubdata_price_for_tx i limit max_base_fee v of
      Ok i' \<Rightarrow>
        (\<exists>base_fee gas. derive_base_fee_and_gas_per_pubdata i' v = Ok (base_fee, gas)
           \<and> ucast gas \<le> limit \<and> gas \<le> get_max_gas_per_pubdata_byte v
           \<and> (case max_base_fee of Some m \<Rightarrow> ucast base_fee \<le> m | None \<Rightarrow> True))
      \<and> adjust_pubdata_price_for_tx i' limit max_base_fee v = Ok i'
    | Err e \<Rightarrow> False
    | Panic \<Rightarrow> limit = 0
        \<or> 2 ^ 64 \<le> unat (fair_l2_gas_price i) * unat (get_max_gas_per_pubdata_byte v))
   \<and> (\<forall>base_fee gas. derive_base_fee_and_gas_per_pubdata i v = Ok (base_fee, gas)
        \<and> ucast gas \<le> limit \<and> gas \<le> get_max_gas_per_pubdata_byte v
        \<and> (case max_base_fee of Some m \<Rightarrow> ucast base_fee \<le> m | None \<Rightarrow> True)
        \<longrightarrow> adjust_pubdata_price_for_tx i limit max_base_fee v = Ok i)"
  (is "?result \<and> ?unchanged")
proof
  show ?unchanged using adjust_unfold by (simp add: within_iff)
  obtain r where r: "derive_base_fee_and_gas_per_pubdata i v = Ok r"
    using derive_fees [OF assms] .
  have ok: "(\<exists>base_fee gas. derive_base_fee_and_gas_per_pubdata i' v = Ok (base_fee, gas)
           \<and> ucast gas \<le> limit \<and> gas \<le> get_max_gas_per_pubdata_byte v
           \<and> (case max_base_fee of Some m \<Rightarrow> ucast base_fee \<le> m | None \<Rightarrow> True))
      \<and> adjust_pubdata_price_for_tx i' limit max_base_fee v = Ok i'"
    if "derive_base_fee_and_gas_per_pubdata i' v = Ok r'" "within v limit max_base_fee r'" for i' r'
    using that by (cases r') (simp add: adjust_unfold within_iff)
  show ?result
  proof (cases "within v limit max_base_fee r")
    case True
    then show ?result using ok [OF r] by (simp add: adjust_unfold [OF r])
  next
    case False
    show ?result
    proof (cases "adjust_pubdata_price_for_tx i limit max_base_fee v")
      case (Ok i')
      with below_within [OF adjust_below [OF assms r False]] ok show ?result by auto
    next
      case (Err e)
      then show ?result using adjusted_input_not_Err False by (simp add: adjust_unfold [OF r])
    next
      case Panic
      then show ?result using adjust_Panic False by (simp add: adjust_unfold [OF r])
    qed
  qed
qed

text \<open>A batch at 250 wei per gas and 100 million per byte, for a transaction that signed 800 gas per
  byte and at most 200 wei per gas.\<close>

theorem adjusted_fees_within_limits_witness:
  "\<exists>i'. adjust_pubdata_price_for_tx (pubdata_independent 250 250 100000000) 800 (Some 200)
      Vm1_5_0IncreasedBootloaderMemory = Ok i'
    \<and> adjust_pubdata_price_for_tx i' 800 (Some 200) Vm1_5_0IncreasedBootloaderMemory = Ok i'"
proof -
  have "accepts Vm1_5_0IncreasedBootloaderMemory (pubdata_independent 250 250 100000000)"
    by (simp add: accepts_def)
  from adjusted_fees_within_limits [OF this, of 800 "Some 200"] show ?thesis
    by (cases "adjust_pubdata_price_for_tx (pubdata_independent 250 250 100000000) 800 (Some 200)
      Vm1_5_0IncreasedBootloaderMemory") (auto simp: pubdata_independent_def)
qed

text \<open>C31: The API answers with the fee input of the main node: what the API provider computes from the
  parameters the main node serves is the input the main node uses for its batches.\<close>

theorem api_fee_input_is_main:
  assumes "scale_exact scale"
  shows "api_batch_fee_input scale (main_fee_model_params c) = Ok (main_batch_fee_input c)"
  using assms unsigned_less [of "minimal_l2_gas_price c", where 'a = nat]
    unsigned_less [of "max_pubdata_per_batch c", where 'a = nat]
  by (simp add: api_batch_fee_input_def main_fee_model_params_def main_batch_fee_input_def
    params_l1_gas_price_def params_l1_pubdata_price_def convert_to_base_token_def scale_exact_def
    fee_params_v2_new_def conversion_ratio_default_def Let_def)

theorem api_fee_input_is_main_witness:
  "api_batch_fee_input (\<lambda>p n d. p * n div d) (main_fee_model_params
     \<lparr>minimal_l2_gas_price = 120000000, compute_overhead_part = 0, pubdata_overhead_part = 0,
      batch_overhead_l1_gas = 800000, max_gas_per_batch = 200000000, max_pubdata_per_batch = 100000\<rparr>)
   = Ok (pubdata_independent 120000000 120000000 100000)"
  by (subst api_fee_input_is_main) (simp_all add: scale_exact_def main_batch_fee_input_def)

end
