(* ===== verification/Transactions_Dal.thy ===== *)
theory Transactions_Dal
  imports Via_Db Tx_Types "HOL-Library.Product_Lexorder"
begin

text \<open>
  The table \<^verbatim>\<open>transactions\<close>: the queries of \<^verbatim>\<open>core/lib/dal/src/via_transactions_dal.rs\<close>, those of
  \<^verbatim>\<open>transactions_dal.rs\<close> that feed the mempool, and the reading of a row as a transaction
  (\<^verbatim>\<open>models/storage_transaction.rs\<close>).
\<close>

section \<open>Rows of priority operations\<close>

definition priority_row :: "tx_lib \<Rightarrow> l1_tx \<Rightarrow> u32 \<Rightarrow> h256 \<Rightarrow> transaction_row" where
  "priority_row X tx l1_block_number tx_id =
     (let c = l1_common_data tx; e = l1_execute tx in
      \<lparr>tr_hash = l1_hash tx,
       tr_is_priority = True,
       tr_priority_op_id = Some (l1_serial_id tx),
       tr_full_fee = Some (unat (full_fee c)),
       tr_layer_2_tip_fee = Some (unat (layer_2_tip_fee c)),
       tr_initiator_address = l1_sender c,
       tr_nonce = None,
       tr_signature = Some tx_id,
       tr_gas_limit = Some (unat (l1_gas_limit c)),
       tr_max_fee_per_gas = Some (unat (l1_max_fee_per_gas c)),
       tr_max_priority_fee_per_gas = None,
       tr_gas_per_pubdata_limit = Some (unat (l1_gas_per_pubdata_limit c)),
       tr_input = None,
       tr_tx_format = Some (transaction_type_code PriorityOpTransaction),
       tr_data = execute_serialize X e,
       tr_received_at = l1_received_timestamp_ms tx,
       tr_in_mempool = False,
       tr_miniblock_number = None,
       tr_error = None,
       tr_contract_address = Some (ex_contract_address e),
       tr_value = unat (ex_value e),
       tr_paymaster = replicate 20 0,
       tr_paymaster_input = [],
       tr_l1_tx_mint = Some (unat (to_mint c)),
       tr_l1_tx_refund_recipient = Some (refund_recipient c),
       tr_upgrade_id = None,
       tr_l1_block_number = Some l1_block_number\<rparr>)"

text \<open>\<^verbatim>\<open>ON CONFLICT (hash) DO NOTHING\<close>.\<close>

definition add_transaction :: "transaction_row \<Rightarrow> tables \<Rightarrow> tables" where
  "add_transaction r t =
     (if list_ex (\<lambda>x. tr_hash x = tr_hash r) (transactions t) then t
      else t\<lparr>transactions := transactions t @ [r]\<rparr>)"

definition insert_transaction_l1 :: "tx_lib \<Rightarrow> l1_tx \<Rightarrow> u32 \<Rightarrow> h256 \<Rightarrow> unit query" where
  "insert_transaction_l1 X tx l1_block_number tx_id =
     (if datetime_in_range X (l1_received_timestamp_ms tx div 1000)
      then guarded_update (\<lambda>_. False) (add_transaction (priority_row X tx l1_block_number tx_id))
      else io_panic)"

section \<open>Queries of the watcher\<close>

definition sql_max :: "i64 list \<Rightarrow> i64 option" where
  "sql_max xs = (case xs of [] \<Rightarrow> None
     | x # xs \<Rightarrow> Some (fold (\<lambda>y m. if sint m < sint y then y else m) xs x))"

text \<open>The row with the greatest operation id, \<^verbatim>\<open>ORDER BY priority_op_id DESC LIMIT 1\<close>.\<close>

definition last_priority_row :: "transaction_row list \<Rightarrow> transaction_row option" where
  "last_priority_row rows =
     (let ids = List.map_filter tr_priority_op_id rows in
      List.find (\<lambda>r. tr_priority_op_id r = sql_max ids \<and> tr_priority_op_id r \<noteq> None) rows)"

definition get_last_processed_l1_block :: "u32 option query" where
  "get_last_processed_l1_block =
     select_rows (\<lambda>t. Option.bind (last_priority_row (transactions t)) tr_l1_block_number)"

definition priority_ids :: "tables \<Rightarrow> i64 list" where
  "priority_ids t = List.map_filter tr_priority_op_id (filter tr_is_priority (transactions t))"

definition last_priority_id :: "u64 option query" where
  "last_priority_id = select_rows (\<lambda>t. sql_max (priority_ids t))"

definition transaction_exists_with_txid :: "h256 \<Rightarrow> bool query" where
  "transaction_exists_with_txid tx_id =
     select_rows (\<lambda>t. list_ex (\<lambda>r. tr_signature r = Some tx_id) (transactions t))"

section \<open>Reading a row\<close>

definition decimal_u256 :: "nat \<Rightarrow> (unit, u256) res" where
  "decimal_u256 n = (if n < 2 ^ 256 then Ok (of_nat n) else Panic)"

definition mandatory_decimal :: "nat option \<Rightarrow> (unit, u256) res" where
  "mandatory_decimal x = res_bind (unwrap x) decimal_u256"

definition decimal_or :: "u256 \<Rightarrow> nat option \<Rightarrow> (unit, u256) res" where
  "decimal_or d x = (case x of None \<Rightarrow> Ok d | Some n \<Rightarrow> decimal_u256 n)"

definition address_or_default :: "bytes option \<Rightarrow> (unit, evm_address) res" where
  "address_or_default x = (case x of None \<Rightarrow> Ok (replicate 20 0) | Some bs \<Rightarrow> address_from_slice bs)"

text \<open>\<^verbatim>\<open>l1_block_number.unwrap_or_default() as u64\<close>, from a signed column.\<close>

definition block_as_u64 :: "i32 option \<Rightarrow> u64" where
  "block_as_u64 x = (case x of None \<Rightarrow> 0 | Some b \<Rightarrow> scast b)"

definition l1_common_from_row :: "transaction_row \<Rightarrow> (unit, l1_tx_common_data) res" where
  "l1_common_from_row r =
     res_bind (mandatory_decimal (tr_gas_limit r)) (\<lambda>gas_limit.
     res_bind (mandatory_decimal (tr_full_fee r)) (\<lambda>fee.
     res_bind (mandatory_decimal (tr_layer_2_tip_fee r)) (\<lambda>tip_fee.
     res_bind (decimal_or 0 (tr_l1_tx_mint r)) (\<lambda>mint.
     res_bind (address_or_default (tr_l1_tx_refund_recipient r)) (\<lambda>recipient.
     res_bind (hash_from_slice (tr_hash r)) (\<lambda>hash.
     res_bind (address_from_slice (tr_initiator_address r)) (\<lambda>sender.
     res_bind (unwrap (tr_priority_op_id r)) (\<lambda>op_id.
     res_bind (decimal_or 0 (tr_max_fee_per_gas r)) (\<lambda>max_fee.
     res_bind (decimal_or 1 (tr_gas_per_pubdata_limit r)) (\<lambda>pubdata_limit.
     Ok \<lparr>l1_sender = sender, serial_id = op_id, layer_2_tip_fee = tip_fee, full_fee = fee,
         l1_max_fee_per_gas = max_fee, l1_gas_limit = gas_limit,
         l1_gas_per_pubdata_limit = pubdata_limit, op_processing = Common, queue_type = Deque,
         canonical_tx_hash = hash, to_mint = mint, refund_recipient = recipient,
         eth_block = block_as_u64 (tr_l1_block_number r)\<rparr>))))))))))"

definition l2_type_of_format :: "i32 option \<Rightarrow> (unit, transaction_type) res" where
  "l2_type_of_format f =
     (case map_option (\<lambda>a. ucast a :: u8) f of
        None \<Rightarrow> Ok LegacyTransaction
      | Some t \<Rightarrow>
          if t = EIP_712_TX_TYPE then Ok EIP712Transaction
          else if t = EIP_2930_TX_TYPE then Ok EIP2930Transaction
          else if t = EIP_1559_TX_TYPE then Ok EIP1559Transaction
          else if t = 0 then Ok LegacyTransaction
          else Panic)"

definition l2_tx_from_row :: "execute_data \<Rightarrow> transaction_row \<Rightarrow> (unit, l2_tx) res" where
  "l2_tx_from_row execute r =
     res_bind (mandatory_decimal (tr_gas_limit r)) (\<lambda>gas_limit.
     res_bind (unwrap (tr_nonce r)) (\<lambda>nonce.
     res_bind (mandatory_decimal (tr_max_fee_per_gas r)) (\<lambda>max_fee.
     res_bind (mandatory_decimal (tr_max_priority_fee_per_gas r)) (\<lambda>priority_fee.
     res_bind (mandatory_decimal (tr_gas_per_pubdata_limit r)) (\<lambda>pubdata_limit.
     res_bind (l2_type_of_format (tr_tx_format r)) (\<lambda>tx_type.
     res_bind (address_from_slice (tr_paymaster r)) (\<lambda>paymaster.
     res_bind (address_from_slice (tr_initiator_address r)) (\<lambda>initiator.
     res_bind (unwrap (tr_signature r)) (\<lambda>signature.
     res_bind (unwrap (tr_input r)) (\<lambda>input.
     res_bind (hash_from_slice (tr_hash r)) (\<lambda>hash.
     Ok \<lparr>l2_initiator = initiator, l2_nonce = ucast nonce,
         l2_fee = \<lparr>fee_gas_limit = gas_limit, fee_max_fee_per_gas = max_fee,
           fee_max_priority_fee_per_gas = priority_fee, fee_gas_per_pubdata_limit = pubdata_limit\<rparr>,
         l2_received_ms = tr_received_at r, l2_signature = signature,
         l2_transaction_type = tx_type, l2_input = Some \<lparr>in_hash = hash, in_data = input\<rparr>,
         l2_paymaster_params = \<lparr>pm_paymaster = paymaster, pm_input = tr_paymaster_input r\<rparr>,
         l2_execute = execute, l2_raw_bytes = tr_input r\<rparr>)))))))))))"

definition upgrade_from_row :: "execute_data \<Rightarrow> transaction_row \<Rightarrow> (unit, upgrade_tx) res" where
  "upgrade_from_row execute r =
     res_bind (mandatory_decimal (tr_gas_limit r)) (\<lambda>gas_limit.
     res_bind (decimal_or 0 (tr_l1_tx_mint r)) (\<lambda>mint.
     res_bind (address_or_default (tr_l1_tx_refund_recipient r)) (\<lambda>recipient.
     res_bind (hash_from_slice (tr_hash r)) (\<lambda>hash.
     res_bind (address_from_slice (tr_initiator_address r)) (\<lambda>sender.
     res_bind (unwrap (tr_upgrade_id r)) (\<lambda>upgrade_id.
     let version = (ucast upgrade_id :: u16) in
     res_bind (if version \<le> 25 then Ok version else Panic) (\<lambda>version.
     res_bind (decimal_or 0 (tr_max_fee_per_gas r)) (\<lambda>max_fee.
     res_bind (mandatory_decimal (tr_gas_per_pubdata_limit r)) (\<lambda>pubdata_limit.
     Ok \<lparr>up_sender = sender, up_upgrade_id = version, up_max_fee_per_gas = max_fee,
         up_gas_limit = gas_limit, up_gas_per_pubdata_limit = pubdata_limit,
         up_eth_block = block_as_u64 (tr_l1_block_number r), up_canonical_tx_hash = hash,
         up_to_mint = mint, up_refund_recipient = recipient, up_execute = execute,
         up_received_ms = tr_received_at r\<rparr>)))))))))"

definition transaction_from_row :: "tx_lib \<Rightarrow> transaction_row \<Rightarrow> (unit, pool_tx) res" where
  "transaction_from_row X r =
     res_bind (hash_from_slice (tr_hash r)) (\<lambda>_.
     res_bind (unwrap (execute_deserialize X (tr_data r))) (\<lambda>execute.
     if tr_tx_format r = Some (ucast PRIORITY_OPERATION_L2_TX_TYPE) then
       res_bind (l1_common_from_row r) (\<lambda>c.
       Ok (L1Tx \<lparr>l1_execute = execute, l1_common_data = c, l1_received_timestamp_ms = tr_received_at r\<rparr>))
     else if tr_tx_format r = Some (ucast PROTOCOL_UPGRADE_TX_TYPE) then
       res_bind (upgrade_from_row execute r) (\<lambda>u. Ok (ProtocolUpgradeTx u))
     else res_bind (l2_tx_from_row execute r) (\<lambda>t. Ok (L2Tx t))))"

section \<open>Queries of the mempool\<close>

definition set_in_mempool :: "(transaction_row \<Rightarrow> bool) \<Rightarrow> bool \<Rightarrow> tables \<Rightarrow> tables" where
  "set_in_mempool p b t =
     t\<lparr>transactions := update_where p (\<lambda>r. r\<lparr>tr_in_mempool := b\<rparr>) (transactions t)\<rparr>"

definition reset_mempool :: "unit query" where
  "reset_mempool = guarded_update (\<lambda>_. False) (set_in_mempool tr_in_mempool False)"

definition decimal_at_least :: "nat \<Rightarrow> nat option \<Rightarrow> bool" where
  "decimal_at_least n x = (case x of None \<Rightarrow> False | Some m \<Rightarrow> n \<le> m)"

definition ready_for_mempool :: "u64 \<Rightarrow> u32 \<Rightarrow> transaction_row \<Rightarrow> bool" where
  "ready_for_mempool fee_per_gas gas_per_pubdata r \<longleftrightarrow>
     tr_miniblock_number r = None \<and> \<not> tr_in_mempool r \<and> tr_error r = None
   \<and> (tr_is_priority r \<or> decimal_at_least (unat fee_per_gas) (tr_max_fee_per_gas r)
        \<and> decimal_at_least (unat gas_per_pubdata) (tr_gas_per_pubdata_limit r))
   \<and> (case tr_tx_format r of None \<Rightarrow> False | Some f \<Rightarrow> f \<noteq> ucast PROTOCOL_UPGRADE_TX_TYPE)"

text \<open>\<^verbatim>\<open>ORDER BY is_priority DESC, priority_op_id, received_at\<close>, a missing id last.\<close>

definition mempool_order :: "transaction_row \<Rightarrow> bool \<times> bool \<times> int \<times> nat" where
  "mempool_order r = (\<not> tr_is_priority r, tr_priority_op_id r = None,
     (case tr_priority_op_id r of None \<Rightarrow> 0 | Some i \<Rightarrow> sint i), unat (tr_received_at r))"

text \<open>The transactions are taken in that order and marked; the order in which the statement returns
  them is the database's, the parameter \<open>returning\<close>.\<close>

definition select_for_mempool ::
    "(transaction_row list \<Rightarrow> transaction_row list) \<Rightarrow> u64 \<Rightarrow> u32 \<Rightarrow> i64 \<Rightarrow> transaction_row list query" where
  "select_for_mempool returning fee_per_gas gas_per_pubdata limit =
     round_trip (io_bind (io_get db_tables) (\<lambda>t.
       io_bind (sql_limit limit (sort_key mempool_order
         (filter (ready_for_mempool fee_per_gas gas_per_pubdata) (transactions t)))) (\<lambda>rows.
       io_bind (update_tables (set_in_mempool (\<lambda>r. tr_hash r \<in> set (map tr_hash rows)) True)) (\<lambda>_.
       io_return (returning (map (\<lambda>r. r\<lparr>tr_in_mempool := True\<rparr>) rows))))))"

definition sync_mempool ::
    "tx_lib \<Rightarrow> (transaction_row list \<Rightarrow> transaction_row list) \<Rightarrow> evm_address list \<Rightarrow> evm_address list \<Rightarrow>
       u32 \<Rightarrow> u64 \<Rightarrow> u64 \<Rightarrow> pool_tx list query" where
  "sync_mempool X returning stashed purged gas_per_pubdata fee_per_gas limit =
     io_bind (guarded_update (\<lambda>_. False) (set_in_mempool
       (\<lambda>r. tr_in_mempool r \<and> tr_initiator_address r \<in> set stashed) False)) (\<lambda>_.
     io_bind (guarded_update (\<lambda>_. False) (\<lambda>t. t\<lparr>transactions :=
       filter (\<lambda>r. \<not> (tr_in_mempool r \<and> tr_initiator_address r \<in> set purged)) (transactions t)\<rparr>)) (\<lambda>_.
     io_bind (select_for_mempool returning fee_per_gas gas_per_pubdata (scast (ucast limit :: i32)))
       (\<lambda>rows.
     io_lift (res_map_err (\<lambda>_. SqlError) (res_map (transaction_from_row X) rows)))))"

text \<open>\<^verbatim>\<open>next_priority_id\<close> panics when the query fails; a row that is not in a miniblock, or a table
  without miniblocks, makes the comparison unknown.\<close>

definition executed_priority_ids :: "tables \<Rightarrow> i64 list" where
  "executed_priority_ids t =
     (case sql_max (miniblocks t) of
        None \<Rightarrow> []
      | Some m \<Rightarrow> List.map_filter tr_priority_op_id (filter (\<lambda>r. tr_is_priority r
          \<and> (case tr_miniblock_number r of None \<Rightarrow> False | Some b \<Rightarrow> sint b \<le> sint m)) (transactions t)))"

definition next_priority_id_query :: "u64 query" where
  "next_priority_id_query d =
     (case select_rows (\<lambda>t. sql_max (executed_priority_ids t)) d of
        (Ok x, d') \<Rightarrow> (Ok (case x of None \<Rightarrow> 0 | Some i \<Rightarrow> i + 1), d')
      | (_, d') \<Rightarrow> (Panic, d'))"

end
