(* ===== verification/Btc_Watch.thy ===== *)
theory Btc_Watch
  imports Transactions_Dal Indexer
begin

text \<open>
  The watcher of Bitcoin (\<^verbatim>\<open>core/node/via_btc_watch/src\<close>): it lets the indexer read the blocks that
  have enough confirmations and turns every deposit to the bridge into a priority operation.  Its
  state is the database, the indexer over the Bitcoin node, the last processed block and the next
  priority id of the message processor.
\<close>

section \<open>Priority operations of deposits\<close>

definition deposit_canonical :: "l1_tx \<Rightarrow> l2_canonical_transaction" where
  "deposit_canonical tx =
     (let c = l1_common_data tx; e = l1_execute tx in
      \<lparr>ct_tx_type = ucast PRIORITY_OPERATION_L2_TX_TYPE,
       ct_from = address_to_u256 (l1_sender c),
       ct_to = address_to_u256 (ex_contract_address e),
       ct_gas_limit = l1_gas_limit c,
       ct_gas_per_pubdata_byte_limit = l1_gas_per_pubdata_limit c,
       ct_max_fee_per_gas = l1_max_fee_per_gas c,
       ct_max_priority_fee_per_gas = 0,
       ct_paymaster = 0,
       ct_nonce = ucast (serial_id c),
       ct_value = ex_value e,
       ct_reserved = [to_mint c, address_to_u256 (refund_recipient c), 0, 0],
       ct_data = ex_calldata e,
       ct_signature = [],
       ct_factory_deps = [],
       ct_paymaster_input = [],
       ct_reserved_dynamic = []\<rparr>)"

definition unhashed_l1_tx :: "u64 \<Rightarrow> l1_to_l2_message \<Rightarrow> u64 \<Rightarrow> l1_tx" where
  "unhashed_l1_tx now msg serial =
     (let eth_address_l2 = receiver_l2_address (msg_input msg) in
      \<lparr>l1_execute = \<lparr>ex_contract_address = eth_address_l2, ex_calldata = call_data (msg_input msg),
         ex_value = 0, ex_factory_deps = []\<rparr>,
       l1_common_data = \<lparr>l1_sender = eth_address_l2, serial_id = serial, layer_2_tip_fee = 0,
         full_fee = 0, l1_max_fee_per_gas = 100000000000 div 10000000000, l1_gas_limit = 1000000,
         l1_gas_per_pubdata_limit = 800, op_processing = Common, queue_type = Deque,
         canonical_tx_hash = replicate 32 0, to_mint = ucast (l1_amount msg),
         refund_recipient = eth_address_l2, eth_block = ucast (cf_block_height (common msg))\<rparr>,
       l1_received_timestamp_ms = now\<rparr>)"

definition create_l1_tx_from_message :: "tx_lib \<Rightarrow> u64 \<Rightarrow> l1_to_l2_message \<Rightarrow> u64 \<Rightarrow> l1_tx" where
  "create_l1_tx_from_message X now msg serial =
     (let tx = unhashed_l1_tx now msg serial in
      tx\<lparr>l1_common_data := (l1_common_data tx)
        \<lparr>canonical_tx_hash := canonical_hash X (deposit_canonical tx)\<rparr>\<rparr>)"

section \<open>The message processor\<close>

datatype processor_error = InternalError | DatabaseError db_error

record 'w watch =
  w_indexer :: indexer
  w_world :: 'w
  w_last_block :: u32
  w_bridge :: address
  w_next_id :: u64

type_synonym ('w, 'a) watch_m = "(db \<times> 'w watch, processor_error, 'a) io"

definition pays :: "btc_lib \<Rightarrow> address \<Rightarrow> l1_to_l2_message \<Rightarrow> bool" where
  "pays L bridge msg \<longleftrightarrow> list_ex (\<lambda>out. script_pubkey out = address_script_pubkey L bridge) (tx_outputs msg)"

text \<open>The first loop of \<^verbatim>\<open>process_messages\<close>: the operations for the deposits not in the table yet.
  Every operation reads the clock when it is made; \<open>clock\<close> gives the reading for a priority id.\<close>

fun collect_ops ::
    "btc_lib \<Rightarrow> tx_lib \<Rightarrow> (u64 \<Rightarrow> u64) \<Rightarrow> full_inscription_message list \<Rightarrow>
       ('w, (l1_tx \<times> h256) list) watch_m" where
  "collect_ops L X clock [] = io_return []"
| "collect_ops L X clock (FullL1ToL2Message msg # msgs) =
     io_bind (io_get (w_bridge \<circ> snd)) (\<lambda>bridge.
     if pays L bridge msg then
       io_bind (io_lift (h256_of_slice L (rev (cf_tx_id (common msg))))) (\<lambda>tx_id.
       io_bind (on_db DatabaseError (transaction_exists_with_txid tx_id)) (\<lambda>known.
       if known then collect_ops L X clock msgs
       else
         io_bind (io_get (w_next_id \<circ> snd)) (\<lambda>serial.
         io_bind (io_modify (\<lambda>(d, w). (d, w\<lparr>w_next_id := w_next_id w + 1\<rparr>))) (\<lambda>_.
         io_bind (collect_ops L X clock msgs) (\<lambda>ops.
         io_return ((create_l1_tx_from_message X (clock serial) msg serial, tx_id) # ops))))))
     else collect_ops L X clock msgs)"
| "collect_ops L X clock (_ # msgs) = collect_ops L X clock msgs"

definition insert_ops :: "tx_lib \<Rightarrow> (l1_tx \<times> h256) list \<Rightarrow> ('w, unit) watch_m" where
  "insert_ops X ops =
     io_for ops (\<lambda>(tx, tx_id). on_db DatabaseError (insert_transaction_l1 X tx (l1_eth_block tx) tx_id))"

definition process_messages ::
    "btc_lib \<Rightarrow> tx_lib \<Rightarrow> (u64 \<Rightarrow> u64) \<Rightarrow> full_inscription_message list \<Rightarrow> ('w, unit) watch_m" where
  "process_messages L X clock msgs =
     io_bind (collect_ops L X clock msgs) (\<lambda>ops.
     if ops = [] then io_return () else insert_ops X ops)"

section \<open>The watcher\<close>

record watch_config =
  confirmations_for_btc_msg :: u64
  btc_blocks_lag :: u32

definition on_indexer ::
    "('w indexer_state, indexer_error, 'a) io \<Rightarrow> ('w, 'a) watch_m" where
  "on_indexer m = io_zoom (\<lambda>s. (w_indexer (snd s), w_world (snd s)))
     (\<lambda>(ix, w) s. (fst s, (snd s)\<lparr>w_indexer := ix, w_world := w\<rparr>)) (io_map_err (\<lambda>_. InternalError) m)"

definition saturating_sub_u128 :: "u128 \<Rightarrow> u128 \<Rightarrow> u128" where
  "saturating_sub_u128 a b = (if b \<le> a then a - b else 0)"

definition saturating_sub_u32 :: "u32 \<Rightarrow> u32 \<Rightarrow> u32" where
  "saturating_sub_u32 a b = (if b \<le> a then a - b else 0)"

text \<open>The block to resume from, the bridge and the next id.\<close>

definition initialize_state ::
    "'w btc_ops \<Rightarrow> u32 \<Rightarrow> ('w, u32 \<times> address \<times> u64) watch_m" where
  "initialize_state ops lag =
     io_bind (on_db DatabaseError get_last_processed_l1_block) (\<lambda>block.
     io_bind (case block of
         Some b \<Rightarrow> io_return (saturating_sub_u32 b 1)
       | None \<Rightarrow> io_bind (on_indexer (indexer_fetch_block_height ops)) (\<lambda>height.
           io_return (ucast (saturating_sub_u128 height (ucast lag))))) (\<lambda>last_block.
     io_bind (io_get (\<lambda>s. fst (get_state (w_indexer (snd s))))) (\<lambda>bridge.
     io_bind (on_db DatabaseError last_priority_id) (\<lambda>last_id.
     io_return (last_block, bridge, (case last_id of None \<Rightarrow> 0 | Some i \<Rightarrow> i + 1))))))"

text \<open>\<^verbatim>\<open>BtcWatch::new\<close> after the indexer is made; mainnet needs confirmations.\<close>

definition watch_new ::
    "'w btc_ops \<Rightarrow> network \<Rightarrow> watch_config \<Rightarrow> ('w, unit) watch_m" where
  "watch_new ops n config =
     io_bind (initialize_state ops (btc_blocks_lag config)) (\<lambda>(last_block, bridge, next_id).
     if n = Bitcoin \<and> confirmations_for_btc_msg config = 0 then io_err InternalError
     else io_modify (\<lambda>(d, w). (d, w\<lparr>w_last_block := last_block, w_bridge := bridge,
       w_next_id := next_id\<rparr>)))"

text \<open>The messages of the blocks with enough confirmations, none when there is no such block.\<close>

definition fetch_new_messages ::
    "btc_lib \<Rightarrow> 'w btc_ops \<Rightarrow> watch_config \<Rightarrow> ('w, (u32 \<times> full_inscription_message list) option) watch_m" where
  "fetch_new_messages L ops config =
     io_bind (on_indexer (indexer_fetch_block_height ops)) (\<lambda>height.
     let to_block = ucast (saturating_sub_u128 height (ucast (confirmations_for_btc_msg config))) in
     io_bind (io_get (w_last_block \<circ> snd)) (\<lambda>last_block.
     if to_block \<le> last_block then io_return None
     else
       io_bind (on_indexer (process_blocks L ops (last_block + 1) to_block)) (\<lambda>messages.
       io_return (Some (to_block, messages)))))"

definition watch_loop_iteration ::
    "btc_lib \<Rightarrow> tx_lib \<Rightarrow> 'w btc_ops \<Rightarrow> watch_config \<Rightarrow> (u64 \<Rightarrow> u64) \<Rightarrow> ('w, unit) watch_m" where
  "watch_loop_iteration L X ops config clock =
     io_bind (fetch_new_messages L ops config) (\<lambda>new.
     case new of
       None \<Rightarrow> io_return ()
     | Some (to_block, messages) \<Rightarrow>
         io_bind (process_messages L X clock messages) (\<lambda>_.
         io_modify (\<lambda>(d, w). (d, w\<lparr>w_last_block := to_block\<rparr>))))"

text \<open>One round of \<^verbatim>\<open>run\<close>: an internal error ends the service; after a database error only the last
  processed block is read again.\<close>

definition watch_round ::
    "btc_lib \<Rightarrow> tx_lib \<Rightarrow> 'w btc_ops \<Rightarrow> watch_config \<Rightarrow> (u64 \<Rightarrow> u64) \<Rightarrow> ('w, unit) watch_m" where
  "watch_round L X ops config clock s =
     (case watch_loop_iteration L X ops config clock s of
        (Err (DatabaseError e), s') \<Rightarrow>
          io_bind (initialize_state ops (btc_blocks_lag config)) (\<lambda>(last_block, _, _).
            io_modify (\<lambda>(d, w). (d, w\<lparr>w_last_block := last_block\<rparr>))) s'
      | r \<Rightarrow> r)"

end
