(* ===== verification/Watch_Facts.thy ===== *)
theory Watch_Facts
  imports Btc_Watch "HOL-Library.Sublist"
begin

text \<open>
  What the operations of the watcher do to the table and to the next priority id, on every outcome,
  and the invariant of its runs.
\<close>

section \<open>The message processor\<close>

fun deposit_of :: "full_inscription_message \<Rightarrow> l1_to_l2_message option" where
  "deposit_of (FullL1ToL2Message d) = Some d"
| "deposit_of _ = None"

definition deposit_txid :: "l1_to_l2_message \<Rightarrow> h256" where
  "deposit_txid d = rev (cf_tx_id (common d))"

definition known_txids :: "tables \<Rightarrow> h256 set" where
  "known_txids t = {x. \<exists>r \<in> set (transactions t). tr_signature r = Some x}"

text \<open>The deposits of a list of messages that pay the bridge and are not in the table, and the
  operations made for them with consecutive ids.\<close>

definition new_deposits ::
    "btc_lib \<Rightarrow> address \<Rightarrow> h256 set \<Rightarrow> full_inscription_message list \<Rightarrow> l1_to_l2_message list" where
  "new_deposits L bridge known msgs =
     filter (\<lambda>d. pays L bridge d \<and> deposit_txid d \<notin> known) (List.map_filter deposit_of msgs)"

fun number_ops ::
    "tx_lib \<Rightarrow> (u64 \<Rightarrow> u64) \<Rightarrow> u64 \<Rightarrow> l1_to_l2_message list \<Rightarrow> (l1_tx \<times> h256) list" where
  "number_ops X clock n [] = []"
| "number_ops X clock n (d # ds) =
     (create_l1_tx_from_message X (clock n) d n, deposit_txid d) # number_ops X clock (n + 1) ds"

lemma length_number_ops [simp]: "length (number_ops X clock n ds) = length ds"
  by (induction ds arbitrary: n) simp_all

lemma new_deposits_simps [simp]:
  "new_deposits L b K [] = []"
  "deposit_of m = None \<Longrightarrow> new_deposits L b K (m # ms) = new_deposits L b K ms"
  "deposit_of m = Some d \<Longrightarrow> new_deposits L b K (m # ms) =
     (if pays L b d \<and> deposit_txid d \<notin> K then d # new_deposits L b K ms else new_deposits L b K ms)"
  by (simp_all add: new_deposits_def map_filter_simps)

lemma exists_query_Ok:
  assumes "on_db f (transaction_exists_with_txid x) s = (Ok b, s')"
  shows "b \<longleftrightarrow> x \<in> known_txids (service_tables s)" "service_tables s' = service_tables s" "snd s' = snd s"
  using assms
  by (auto simp: on_db_Ok transaction_exists_with_txid_def known_txids_def list_ex_iff
    dest!: select_rows_Ok)

lemma exists_query_fails:
  assumes "on_db f (transaction_exists_with_txid x) s = (r, s')"
  shows "service_tables s' = service_tables s" "snd s' = snd s"
  using assms
  by (auto simp: on_db_def transaction_exists_with_txid_def select_rows_def round_trip_def io_zoom_def
    io_map_err_def split: prod.splits list.splits bool.splits)

text \<open>What the first loop leaves behind: the tables as they were, and an id taken for each operation.\<close>

definition collected ::
    "btc_lib \<Rightarrow> tx_lib \<Rightarrow> (u64 \<Rightarrow> u64) \<Rightarrow> full_inscription_message list \<Rightarrow> db \<times> 'w watch \<Rightarrow>
       (processor_error, (l1_tx \<times> h256) list) res \<Rightarrow> db \<times> 'w watch \<Rightarrow> bool" where
  "collected L X clock msgs s r s' \<longleftrightarrow>
     service_tables s' = service_tables s
   \<and> (\<exists>k \<le> length msgs. snd s' = (snd s)\<lparr>w_next_id := w_next_id (snd s) + of_nat k\<rparr>
        \<and> (\<forall>ops. r = Ok ops \<longrightarrow> k = length ops \<and> ops = number_ops X clock (w_next_id (snd s))
             (new_deposits L (w_bridge (snd s)) (known_txids (service_tables s)) msgs)))"

lemma collected_skip:
  assumes "collected L X clock msgs s r s'"
    and "\<And>K b. b = w_bridge (snd s) \<Longrightarrow> K = known_txids (service_tables s) \<Longrightarrow>
      new_deposits L b K (m # msgs) = new_deposits L b K msgs"
  shows "collected L X clock (m # msgs) s r s'"
  using assms unfolding collected_def by (metis le_Suc_eq length_Cons)

lemma collected_stop:
  "\<not> is_Ok r \<Longrightarrow> service_tables s' = service_tables s \<Longrightarrow> snd s' = snd s \<Longrightarrow> collected L X clock msgs s r s'"
  unfolding collected_def by (intro conjI exI [of _ 0]) auto

lemma collected_take:
  assumes "collected L X clock msgs (d1, w\<lparr>w_next_id := w_next_id w + 1\<rparr>) r s'"
    and "deposit_of m = Some dp" "pays L (w_bridge w) dp"
    and "deposit_txid dp \<notin> known_txids (db_tables d)" "db_tables d1 = db_tables d"
  shows "collected L X clock (m # msgs) (d, w)
    (case r of Ok ops \<Rightarrow> Ok ((create_l1_tx_from_message X (clock (w_next_id w)) dp (w_next_id w),
       deposit_txid dp) # ops) | Err e \<Rightarrow> Err e | Panic \<Rightarrow> Panic) s'"
proof -
  obtain k where k: "k \<le> length msgs"
    "snd s' = w\<lparr>w_next_id := w_next_id w + 1 + of_nat k\<rparr>"
    "\<And>ops. r = Ok ops \<Longrightarrow> k = length ops \<and> ops = number_ops X clock (w_next_id w + 1)
       (new_deposits L (w_bridge w) (known_txids (db_tables d)) msgs)"
    and t: "service_tables s' = db_tables d"
    using assms(1,5) by (auto simp: collected_def)
  have "snd s' = w\<lparr>w_next_id := w_next_id w + of_nat (Suc k)\<rparr>" using k(2) by (simp add: ac_simps)
  moreover have "Suc k \<le> length (m # msgs)" using k(1) by simp
  ultimately show ?thesis
    using t k(3) assms(2-4) unfolding collected_def
    by (intro conjI exI [of _ "Suc k"]) (auto split: res.splits)
qed

lemma collect_ops_other: "deposit_of m = None \<Longrightarrow> collect_ops L X clock (m # msgs) = collect_ops L X clock msgs"
  by (cases m) simp_all

lemma h256_of_txid:
  assumes "lib_hash_sizes L"
  shows "length bs = 32 \<Longrightarrow> h256_of_slice L bs = Ok bs" "length bs \<noteq> 32 \<Longrightarrow> h256_of_slice L bs = Panic"
proof -
  have "h256_from_slice L bs = (if length bs = 32 then Some bs else None)"
    using assms unfolding lib_hash_sizes_def by blast
  then show "length bs = 32 \<Longrightarrow> h256_of_slice L bs = Ok bs" "length bs \<noteq> 32 \<Longrightarrow> h256_of_slice L bs = Panic"
    by (simp_all only: h256_of_slice_def if_True if_False unwrap_simps simp_thms)
qed

lemma collect_ops_step:
  assumes "lib_hash_sizes L" "pays L (w_bridge w) dp" "length (deposit_txid dp) = 32"
    and "on_db DatabaseError (transaction_exists_with_txid (deposit_txid dp)) (d, w) = (b, d1, w1)"
  shows "collect_ops L X clock (FullL1ToL2Message dp # msgs) (d, w) = (case b of
      Ok known \<Rightarrow>
        (if known then collect_ops L X clock msgs (d1, w1)
         else io_bind (collect_ops L X clock msgs) (\<lambda>ops. io_return
           ((create_l1_tx_from_message X (clock (w_next_id w1)) dp (w_next_id w1), deposit_txid dp) # ops))
           (d1, w1\<lparr>w_next_id := w_next_id w1 + 1\<rparr>))
    | Err e \<Rightarrow> (Err e, d1, w1) | Panic \<Rightarrow> (Panic, d1, w1))"
  using assms(2-4)
  by (cases b) (simp_all add: io_bind_run deposit_txid_def h256_of_txid [OF assms(1)])

lemma collect_ops_result:
  assumes L: "lib_hash_sizes L"
  shows "collect_ops L X clock msgs s = (r, s') \<Longrightarrow> collected L X clock msgs s r s'"
proof (induction msgs arbitrary: r s s')
  case Nil
  then show ?case by (auto simp: collected_def)
next
  case (Cons m msgs)
  obtain d w where s: "s = (d, w)" by (cases s)
  show ?case
  proof (cases "deposit_of m")
    case None
    then have "collect_ops L X clock msgs s = (r, s')" using Cons.prems by (simp add: collect_ops_other)
    from Cons.IH [OF this] show ?thesis by (rule collected_skip) (simp add: None)
  next
    case (Some dp)
    then have m: "m = FullL1ToL2Message dp" by (cases m) simp_all
    let ?q = "on_db DatabaseError (transaction_exists_with_txid (deposit_txid dp)) (d, w)"
    consider (no) "\<not> pays L (w_bridge w) dp" | (panic) "pays L (w_bridge w) dp" "length (deposit_txid dp) \<noteq> 32"
      | (ask) b d1 w1 where "pays L (w_bridge w) dp" "length (deposit_txid dp) = 32" "?q = (b, d1, w1)"
      by (metis prod_cases3)
    then show ?thesis
    proof cases
      case no
      then have "collect_ops L X clock msgs s = (r, s')" using Cons.prems by (simp add: m s)
      from Cons.IH [OF this] show ?thesis by (rule collected_skip) (simp add: Some s no)
    next
      case panic
      then have "collect_ops L X clock (m # msgs) s = (Panic, s)"
        by (simp add: m s deposit_txid_def h256_of_txid [OF L])
      then have "r = Panic" "s' = s" using Cons.prems by simp_all
      then show ?thesis by (simp add: collected_stop)
    next
      case ask
      note step = collect_ops_step [OF L ask, of X clock msgs, folded m s]
      have same: "db_tables d1 = db_tables d" "w1 = w" using exists_query_fails [OF ask(3)] by simp_all
      consider (known) "b = Ok True" | (new) "b = Ok False" | (fails) "\<not> is_Ok b"
        by (cases b) auto
      then show ?thesis
      proof cases
        case known
        then have "deposit_txid dp \<in> known_txids (db_tables d)"
          using exists_query_Ok(1) [of _ _ "(d, w)"] ask(3) by fastforce
        moreover have "collected L X clock msgs (d1, w1) r s'"
          using Cons.IH Cons.prems step known by simp
        then have "collected L X clock msgs s r s'" using same s by (simp add: collected_def)
        ultimately show ?thesis by (intro collected_skip) (simp_all add: Some s)
      next
        case new
        then have fresh: "deposit_txid dp \<notin> known_txids (db_tables d)"
          using exists_query_Ok(1) [of _ _ "(d, w)"] ask(3) by fastforce
        obtain r1 where r1: "collect_ops L X clock msgs (d1, w\<lparr>w_next_id := w_next_id w + 1\<rparr>) = (r1, s')"
          and r: "r = (case r1 of Ok ops \<Rightarrow> Ok ((create_l1_tx_from_message X (clock (w_next_id w)) dp
             (w_next_id w), deposit_txid dp) # ops) | Err e \<Rightarrow> Err e | Panic \<Rightarrow> Panic)"
          using Cons.prems step new same by (auto simp: io_bind_def split: prod.splits res.splits)
        show ?thesis
          unfolding r s using collected_take [OF Cons.IH [OF r1] Some ask(1) fresh same(1)] by simp
      next
        case fails
        then have "s' = (d1, w)" "\<not> is_Ok r" using Cons.prems step same by (auto split: res.splits)
        then show ?thesis using same s by (simp add: collected_stop)
      qed
    qed
  qed
qed

lemma insert_l1_result:
  assumes "on_db f (insert_transaction_l1 X tx b x) s = (r, s')"
  shows "snd s' = snd s"
    "is_Ok r \<Longrightarrow> service_tables s' = add_transaction (priority_row X tx b x) (service_tables s)"
    "\<not> is_Ok r \<Longrightarrow> service_tables s' = service_tables s"
proof -
  obtain r1 d' where q: "insert_transaction_l1 X tx b x (fst s) = (r1, d')"
    "r = res_map_err f r1" "s' = (d', snd s)"
    using assms by (auto simp: on_db_def io_zoom_def io_map_err_def split: prod.splits)
  have "is_Ok r1 \<and> db_tables d' = add_transaction (priority_row X tx b x) (service_tables s)
      \<or> \<not> is_Ok r1 \<and> db_tables d' = service_tables s"
    using q(1) by (auto simp: insert_transaction_l1_def guarded_update_def round_trip_def
      update_tables_def split: if_splits list.splits bool.splits)
  moreover have "is_Ok r = is_Ok r1" using q(2) by (cases r1) auto
  ultimately show "snd s' = snd s"
    "is_Ok r \<Longrightarrow> service_tables s' = add_transaction (priority_row X tx b x) (service_tables s)"
    "\<not> is_Ok r \<Longrightarrow> service_tables s' = service_tables s"
    using q(3) by auto
qed

definition op_rows :: "tx_lib \<Rightarrow> (l1_tx \<times> h256) list \<Rightarrow> transaction_row list" where
  "op_rows X ops = map (\<lambda>(tx, tx_id). priority_row X tx (l1_eth_block tx) tx_id) ops"

lemma length_op_rows [simp]: "length (op_rows X ops) = length ops"
  by (simp add: op_rows_def)

lemma op_rows_simps [simp]:
  "op_rows X [] = []"
  "op_rows X ((tx, x) # ops) = priority_row X tx (l1_eth_block tx) x # op_rows X ops"
  by (simp_all add: op_rows_def)

text \<open>The second loop inserts a prefix of the operations, all of them when it succeeds.\<close>

lemma insert_ops_result:
  assumes "insert_ops X ops s = (r, s')"
  shows "snd s' = snd s \<and> (\<exists>j. service_tables s' = fold add_transaction (take j (op_rows X ops)) (service_tables s)
    \<and> (if is_Ok r then j = length ops else j < length ops))"
  using assms
proof (induction ops arbitrary: s)
  case Nil
  then show ?case by (auto simp: insert_ops_def op_rows_def)
next
  case (Cons op ops)
  obtain tx x where op: "op = (tx, x)" by (cases op)
  obtain r1 s1 where first: "on_db DatabaseError (insert_transaction_l1 X tx (l1_eth_block tx) x) s = (r1, s1)"
    using prod.exhaust by blast
  note one = insert_l1_result [OF first]
  have run: "insert_ops X (op # ops) s = (case r1 of Ok _ \<Rightarrow> insert_ops X ops s1 | Err e \<Rightarrow> (Err e, s1) | Panic \<Rightarrow> (Panic, s1))"
    using first by (simp add: insert_ops_def op io_bind_def split: res.splits)
  show ?case
  proof (cases "is_Ok r1")
    case True
    then have "insert_ops X ops s1 = (r, s')" using run Cons.prems by (auto split: res.splits)
    from Cons.IH [OF this] obtain j where j: "snd s' = snd s1"
      "service_tables s' = fold add_transaction (take j (op_rows X ops)) (service_tables s1)"
      "if is_Ok r then j = length ops else j < length ops" by blast
    have "service_tables s' = fold add_transaction (take (Suc j) (op_rows X (op # ops))) (service_tables s)"
      using j(2) one(2) True by (simp add: op_rows_def op)
    moreover have "if is_Ok r then Suc j = length (op # ops) else Suc j < length (op # ops)"
      using j(3) by (cases "is_Ok r") simp_all
    ultimately show ?thesis using j(1) one(1) by metis
  next
    case False
    then have "s' = s1" "\<not> is_Ok r" using run Cons.prems by (auto split: res.splits)
    then show ?thesis using one(1,3) False by (auto intro!: exI [of _ 0])
  qed
qed

text \<open>What \<^verbatim>\<open>process_messages\<close> leaves behind: \<open>k\<close> ids are taken and the first \<open>j\<close> operations are in
  the table; fewer than the ids taken when it fails after taking one.\<close>

definition deposit_rows ::
    "btc_lib \<Rightarrow> tx_lib \<Rightarrow> (u64 \<Rightarrow> u64) \<Rightarrow> full_inscription_message list \<Rightarrow> tables \<Rightarrow> 'w watch \<Rightarrow> transaction_row list" where
  "deposit_rows L X clock msgs t w = op_rows X (number_ops X clock (w_next_id w)
     (new_deposits L (w_bridge w) (known_txids t) msgs))"

definition processed ::
    "btc_lib \<Rightarrow> tx_lib \<Rightarrow> (u64 \<Rightarrow> u64) \<Rightarrow> full_inscription_message list \<Rightarrow> tables \<times> 'w watch \<Rightarrow>
       bool \<Rightarrow> tables \<times> 'w watch \<Rightarrow> bool" where
  "processed L X clock msgs = (\<lambda>(t, w) ok (t', w').
     \<exists>k j. k \<le> length msgs \<and> w' = w\<lparr>w_next_id := w_next_id w + of_nat k\<rparr>
       \<and> t' = fold add_transaction (take j (deposit_rows L X clock msgs t w)) t
       \<and> j \<le> k \<and> j \<le> length (deposit_rows L X clock msgs t w)
       \<and> (ok \<longrightarrow> k = length (deposit_rows L X clock msgs t w) \<and> j = k)
       \<and> (\<not> ok \<longrightarrow> k = 0 \<or> j < k))"

lemma new_deposits_length: "length (new_deposits L b K msgs) \<le> length msgs"
  by (induction msgs) (auto simp: new_deposits_def map_filter_simps split: option.splits)

lemma process_messages_result:
  assumes "lib_hash_sizes L" "process_messages L X clock msgs s = (r, s')"
  shows "processed L X clock msgs (service_tables s, snd s) (is_Ok r) (service_tables s', snd s')"
proof -
  obtain r1 s1 where first: "collect_ops L X clock msgs s = (r1, s1)" using prod.exhaust by blast
  let ?rows = "deposit_rows L X clock msgs (service_tables s) (snd s)"
  obtain k where c: "service_tables s1 = service_tables s" "k \<le> length msgs"
    "snd s1 = (snd s)\<lparr>w_next_id := w_next_id (snd s) + of_nat k\<rparr>"
    "\<And>ops. r1 = Ok ops \<Longrightarrow> k = length ops \<and> ?rows = op_rows X ops"
    using collect_ops_result [OF assms(1) first] unfolding collected_def deposit_rows_def by blast
  show ?thesis
  proof (cases r1)
    case (Ok ops)
    then have run: "(if ops = [] then (Ok (), s1) else insert_ops X ops s1) = (r, s')"
      using assms(2) first by (auto simp: process_messages_def io_bind_def split: if_splits)
    have k: "k = length ops" "?rows = op_rows X ops" using c(4) [OF Ok] by simp_all
    show ?thesis
    proof (cases "ops = []")
      case True
      then show ?thesis using run c(1-3) k by (auto simp: processed_def op_rows_def)
    next
      case False
      then have "insert_ops X ops s1 = (r, s')" using run by simp
      from insert_ops_result [OF this] obtain j where j: "snd s' = snd s1"
        "service_tables s' = fold add_transaction (take j (op_rows X ops)) (service_tables s1)"
        "if is_Ok r then j = length ops else j < length ops" by blast
      then show ?thesis
        using c(1-3) k unfolding processed_def split
        by (intro exI [of _ k] exI [of _ j]) (auto split: if_splits)
    qed
  next
    case (Err e)
    then have "r = Err e" "s' = s1" using assms(2) first by (auto simp: process_messages_def io_bind_def)
    then show ?thesis using c(1-3) unfolding processed_def split by (intro exI [of _ k] exI [of _ 0]) auto
  next
    case Panic
    then have "r = Panic" "s' = s1" using assms(2) first by (auto simp: process_messages_def io_bind_def)
    then show ?thesis using c(1-3) unfolding processed_def split by (intro exI [of _ k] exI [of _ 0]) auto
  qed
qed

section \<open>Iterations\<close>

lemma on_indexer_keeps:
  assumes "on_indexer m s = (r, s')"
  shows "fst s' = fst s" "w_last_block (snd s') = w_last_block (snd s)"
    "w_bridge (snd s') = w_bridge (snd s)" "w_next_id (snd s') = w_next_id (snd s)"
  using assms by (auto simp: on_indexer_def io_zoom_def split: prod.splits)

lemma fetch_keeps:
  assumes "fetch_new_messages L ops config s = (r, s')"
  shows "fst s' = fst s" "w_last_block (snd s') = w_last_block (snd s)"
    "w_bridge (snd s') = w_bridge (snd s)" "w_next_id (snd s') = w_next_id (snd s)"
proof -
  obtain h s1 where h: "on_indexer (indexer_fetch_block_height ops) s = (h, s1)"
    using prod.exhaust by blast
  have "fst s' = fst s \<and> w_last_block (snd s') = w_last_block (snd s)
      \<and> w_bridge (snd s') = w_bridge (snd s) \<and> w_next_id (snd s') = w_next_id (snd s)"
  proof (cases h)
    case (Ok height)
    define to_block :: u32 where
      "to_block = ucast (saturating_sub_u128 height (ucast (confirmations_for_btc_msg config)))"
    obtain x s2 where x: "on_indexer (process_blocks L ops (w_last_block (snd s1) + 1) to_block) s1 = (x, s2)"
      using prod.exhaust by blast
    have "s' = s1 \<or> s' = s2"
      using assms h Ok x unfolding to_block_def
      by (cases x) (auto simp: fetch_new_messages_def io_bind_run Let_def split: if_splits)
    then show ?thesis using on_indexer_keeps [OF h] on_indexer_keeps [OF x] by auto
  next
    case (Err e)
    then show ?thesis using assms h on_indexer_keeps [OF h] by (auto simp: fetch_new_messages_def io_bind_run)
  next
    case Panic
    then show ?thesis using assms h on_indexer_keeps [OF h] by (auto simp: fetch_new_messages_def io_bind_run)
  qed
  then show "fst s' = fst s" "w_last_block (snd s') = w_last_block (snd s)"
    "w_bridge (snd s') = w_bridge (snd s)" "w_next_id (snd s') = w_next_id (snd s)" by simp_all
qed

text \<open>The number of messages an iteration starts from.\<close>

definition message_count :: "btc_lib \<Rightarrow> 'w btc_ops \<Rightarrow> watch_config \<Rightarrow> db \<times> 'w watch \<Rightarrow> nat" where
  "message_count L ops config s =
     (case fetch_new_messages L ops config s of
        (Ok (Some (_, msgs)), _) \<Rightarrow> length msgs
      | _ \<Rightarrow> 0)"

lemma iteration_cases:
  assumes "watch_loop_iteration L X ops config clock s = (r, s')"
  obtains (idle) "fst s' = fst s" "w_last_block (snd s') = w_last_block (snd s)"
      "w_bridge (snd s') = w_bridge (snd s)" "w_next_id (snd s') = w_next_id (snd s)"
  | (work) to_block msgs s1 r1 s2 where
      "fetch_new_messages L ops config s = (Ok (Some (to_block, msgs)), s1)"
      "process_messages L X clock msgs s1 = (r1, s2)"
      "is_Ok r1 \<Longrightarrow> r = Ok () \<and> s' = (fst s2, (snd s2)\<lparr>w_last_block := to_block\<rparr>)"
      "\<not> is_Ok r1 \<Longrightarrow> r = r1 \<and> s' = s2"
proof -
  obtain f s1 where f: "fetch_new_messages L ops config s = (f, s1)" using prod.exhaust by blast
  show thesis
  proof (cases "\<exists>to_block msgs. f = Ok (Some (to_block, msgs))")
    case True
    then obtain to_block msgs where new: "f = Ok (Some (to_block, msgs))" by blast
    obtain r1 s2 where p: "process_messages L X clock msgs s1 = (r1, s2)" using prod.exhaust by blast
    have run: "(r, s') = io_bind (process_messages L X clock msgs) (\<lambda>_.
        io_modify (\<lambda>(d, w). (d, w\<lparr>w_last_block := to_block\<rparr>))) s1"
      using assms f new by (simp add: watch_loop_iteration_def io_bind_run)
    show thesis
    proof (rule work)
      show "fetch_new_messages L ops config s = (Ok (Some (to_block, msgs)), s1)" using f new by simp
      show "process_messages L X clock msgs s1 = (r1, s2)" by (rule p)
    qed (use run p in \<open>cases r1; cases s2; simp add: io_bind_run\<close>)+
  next
    case False
    then have "s' = s1"
      using assms f by (cases f) (auto simp: watch_loop_iteration_def io_bind_run split: option.splits)
    then show thesis using idle fetch_keeps [OF f] by simp
  qed
qed

section \<open>Priority ids\<close>

text \<open>The ids in the table are distinct and below the next id, which a signed column can hold.\<close>

definition ids_below :: "tables \<Rightarrow> u64 \<Rightarrow> bool" where
  "ids_below t n \<longleftrightarrow> distinct (priority_ids t) \<and> unat n < 2 ^ 63
     \<and> (\<forall>i \<in> set (priority_ids t). unat i < unat n)"

lemma unat_add_small:
  fixes n :: u64
  assumes "unat n + k < 2 ^ 63"
  shows "unat (n + of_nat k) = unat n + k"
proof -
  have "unat (of_nat k :: u64) = k" using assms by (simp add: unat_of_nat)
  then show ?thesis using assms by (simp add: unat_word_ariths)
qed

lemma priority_ids_add:
  assumes "tr_is_priority r" "tr_priority_op_id r = Some i"
  shows "priority_ids (add_transaction r t) = priority_ids t
    \<or> priority_ids (add_transaction r t) = priority_ids t @ [i]"
  using assms by (simp add: add_transaction_def priority_ids_def List.map_filter_def)

lemma priority_row_id [simp]:
  "tr_is_priority (priority_row X tx b x)" "tr_priority_op_id (priority_row X tx b x) = Some (l1_serial_id tx)"
  by (simp_all add: priority_row_def Let_def)

lemma create_serial_id [simp]: "l1_serial_id (create_l1_tx_from_message X now d n) = n"
  by (simp add: create_l1_tx_from_message_def unhashed_l1_tx_def l1_serial_id_def Let_def)

text \<open>Inserting the first \<open>j\<close> of the numbered operations.\<close>

lemma insert_numbered:
  assumes "ids_below t n" "unat n + length ds < 2 ^ 63" "j \<le> length ds"
  shows "ids_below (fold add_transaction (take j (op_rows X (number_ops X clock n ds))) t) (n + of_nat j)
    \<and> (\<forall>i \<in> set (priority_ids (fold add_transaction (take j (op_rows X (number_ops X clock n ds))) t)).
         i \<in> set (priority_ids t) \<or> unat n \<le> unat i)"
  using assms
proof (induction ds arbitrary: t n j)
  case Nil
  then show ?case by simp
next
  case (Cons d ds)
  show ?case
  proof (cases j)
    case 0
    then show ?thesis using Cons.prems(1) by simp
  next
    case (Suc i)
    let ?t = "add_transaction (priority_row X (create_l1_tx_from_message X (clock n) d n)
      (l1_eth_block (create_l1_tx_from_message X (clock n) d n)) (deposit_txid d)) t"
    have one: "unat (n + 1) = unat n + 1" using unat_add_small [of n 1] Cons.prems(2) by simp
    have ids: "priority_ids ?t = priority_ids t \<or> priority_ids ?t = priority_ids t @ [n]"
      by (rule priority_ids_add) simp_all
    have "ids_below ?t (n + 1)"
      using ids Cons.prems(1,2) one by (auto simp: ids_below_def less_Suc_eq)
    from Cons.IH [OF this, of i] have
      "ids_below (fold add_transaction (take i (op_rows X (number_ops X clock (n + 1) ds))) ?t) (n + 1 + of_nat i)"
      "\<forall>x \<in> set (priority_ids (fold add_transaction (take i (op_rows X (number_ops X clock (n + 1) ds))) ?t)).
         x \<in> set (priority_ids ?t) \<or> unat (n + 1) \<le> unat x"
      using Cons.prems(2,3) Suc one by simp_all
    moreover have "n + 1 + of_nat i = n + of_nat j" using Suc by (simp add: ac_simps)
    ultimately show ?thesis using ids one Suc by fastforce
  qed
qed

lemma ids_below_mono: "ids_below t n \<Longrightarrow> unat n \<le> unat m \<Longrightarrow> unat m < 2 ^ 63 \<Longrightarrow> ids_below t m"
  by (auto simp: ids_below_def)

text \<open>One run of the processor keeps the ids below the next one, adds none below the old next id, and
  when it fails after taking an id it has skipped one.\<close>

lemma processed_ids:
  assumes "processed L X clock msgs (t, w) ok (t', w')" "ids_below t (w_next_id w)"
    and "unat (w_next_id w) + length msgs < 2 ^ 63"
  shows "ids_below t' (w_next_id w')" "unat (w_next_id w) \<le> unat (w_next_id w')"
    "\<And>i. i \<in> set (priority_ids t') \<Longrightarrow> i \<in> set (priority_ids t) \<or> unat (w_next_id w) \<le> unat i"
    "\<not> ok \<Longrightarrow> w_next_id w' \<noteq> w_next_id w \<Longrightarrow> \<exists>g. unat (w_next_id w) \<le> unat g
       \<and> unat g < unat (w_next_id w') \<and> g \<notin> set (priority_ids t')"
proof -
  let ?n = "w_next_id w" and ?ds = "new_deposits L (w_bridge w) (known_txids t) msgs"
  obtain k j where *: "k \<le> length msgs" "w_next_id w' = ?n + of_nat k" "j \<le> k" "j \<le> length ?ds"
    "t' = fold add_transaction (take j (op_rows X (number_ops X clock ?n ?ds))) t"
    "\<not> ok \<longrightarrow> k = 0 \<or> j < k"
    using assms(1) unfolding processed_def deposit_rows_def split length_op_rows length_number_ops
    by (elim exE conjE) simp
  have fits: "unat ?n + length ?ds < 2 ^ 63" using assms(3) new_deposits_length [of L _ _ msgs] by (meson add_le_cancel_left le_less_trans)
  have k: "unat (?n + of_nat k) = unat ?n + k" and j: "unat (?n + of_nat j) = unat ?n + j"
    using unat_add_small [of ?n] assms(3) *(1,3) by simp_all
  note ins = insert_numbered [OF assms(2) fits *(4), of X clock, folded *(5)]
  show "ids_below t' (w_next_id w')"
    using ids_below_mono [OF conjunct1 [OF ins], of "w_next_id w'"] *(1-3) k j assms(3) by simp
  show "unat ?n \<le> unat (w_next_id w')" using *(2) k by simp
  show "\<And>i. i \<in> set (priority_ids t') \<Longrightarrow> i \<in> set (priority_ids t) \<or> unat ?n \<le> unat i"
    using ins by blast
  show "\<exists>g. unat ?n \<le> unat g \<and> unat g < unat (w_next_id w') \<and> g \<notin> set (priority_ids t')"
    if "\<not> ok" "w_next_id w' \<noteq> ?n"
  proof (intro exI conjI)
    have "j < k" using that *(2,6) by auto
    then show "unat (?n + of_nat j) < unat (w_next_id w')" using *(2) j k by simp
    show "unat ?n \<le> unat (?n + of_nat j)" using j by simp
    show "?n + of_nat j \<notin> set (priority_ids t')" using ins by (auto simp: ids_below_def)
  qed
qed

end
