(* ===== verification/Watch_Runs.thy ===== *)
theory Watch_Runs
  imports Watch_Facts
begin

text \<open>
  Runs of the watcher: rounds, restarts, and whatever else the node does to the database in between,
  which may drop priority operations and never adds any.
\<close>

section \<open>Reading the state back\<close>

lemma on_db_select_keeps:
  assumes "on_db f (select_rows g) s = (r, s')"
  shows "service_tables s' = service_tables s" "snd s' = snd s" "\<And>a. r = Ok a \<Longrightarrow> a = g (service_tables s)"
  using assms
  by (auto simp: on_db_def select_rows_def round_trip_def io_zoom_def io_map_err_def
    split: prod.splits list.splits bool.splits)

definition watch_view :: "db \<times> 'w watch \<Rightarrow> tables \<times> address \<times> u64" where
  "watch_view s = (service_tables s, w_bridge (snd s), w_next_id (snd s))"

lemma io_pres_select_view: "io_pres (\<lambda>s. watch_view s = c) (on_db f (select_rows g))"
proof (rule io_presI)
  fix s :: "db \<times> 'a watch"
  assume "watch_view s = c"
  then show "watch_view (snd (on_db f (select_rows g) s)) = c"
    using on_db_select_keeps [of f g s] by (cases "on_db f (select_rows g) s") (simp add: watch_view_def)
qed

lemma io_pres_indexer_view: "io_pres (\<lambda>s. watch_view s = c) (on_indexer m)"
proof (rule io_presI)
  fix s :: "db \<times> 'a watch"
  assume "watch_view s = c"
  then show "watch_view (snd (on_indexer m s)) = c"
    using on_indexer_keeps [of m s] by (cases "on_indexer m s") (simp add: watch_view_def)
qed

lemma initialize_view: "io_pres (\<lambda>s. watch_view s = c) (initialize_state ops lag)"
  unfolding initialize_state_def get_last_processed_l1_block_def last_priority_id_def
  by (intro io_pres_intro io_pres_select_view io_pres_indexer_view)

lemma initialize_keeps:
  assumes "initialize_state ops lag s = (r, s')"
  shows "watch_view s' = watch_view s"
  using io_presD [OF initialize_view refl assms] by simp

text \<open>The next id is one past the greatest in the table.\<close>

lemma initialize_next_id:
  assumes "initialize_state ops lag s = (Ok (b, a, n), s')"
  shows "n = (case sql_max (priority_ids (service_tables s)) of None \<Rightarrow> 0 | Some i \<Rightarrow> i + 1)"
proof -
  obtain last_id s1 where q: "on_db DatabaseError last_priority_id s1 = (Ok last_id, s')"
    "n = (case last_id of None \<Rightarrow> 0 | Some i \<Rightarrow> i + 1)"
    using assms unfolding initialize_state_def by (auto simp: io_bind_Ok_iff)
  have "service_tables s' = service_tables s"
    using initialize_keeps [OF assms] by (simp add: watch_view_def)
  then show ?thesis
    using q on_db_select_keeps [OF q(1) [unfolded last_priority_id_def]] by simp
qed

lemma watch_new_Ok:
  assumes "watch_new ops net config s = (Ok (), s')"
  shows "service_tables s' = service_tables s"
    "w_next_id (snd s') = (case sql_max (priority_ids (service_tables s)) of None \<Rightarrow> 0 | Some i \<Rightarrow> i + 1)"
proof -
  obtain b a n s1 where i: "initialize_state ops (btc_blocks_lag config) s = (Ok (b, a, n), s1)"
    and s': "s' = (fst s1, (snd s1)\<lparr>w_last_block := b, w_bridge := a, w_next_id := n\<rparr>)"
    using assms unfolding watch_new_def by (auto simp: io_bind_Ok_iff split: if_splits prod.splits)
  show "service_tables s' = service_tables s"
    using initialize_keeps [OF i] s' by (simp add: watch_view_def)
  show "w_next_id (snd s') = (case sql_max (priority_ids (service_tables s)) of None \<Rightarrow> 0 | Some i \<Rightarrow> i + 1)"
    using initialize_next_id [OF i] s' by simp
qed

section \<open>The greatest id\<close>

lemma fold_max_sint:
  "sint x \<le> sint (fold (\<lambda>y m. if sint m < sint y then y else m) xs x)
   \<and> (\<forall>y \<in> set xs. sint y \<le> sint (fold (\<lambda>y m. if sint m < sint y then y else m) xs x))
   \<and> fold (\<lambda>y m. if sint m < sint y then y else m) xs x \<in> set (x # xs)"
proof (induction xs arbitrary: x)
  case Nil
  then show ?case by simp
next
  case (Cons a xs)
  show ?case using Cons.IH [of a] Cons.IH [of x] by (cases "sint x < sint a") auto
qed

lemma sql_max_Some:
  assumes "sql_max xs = Some m"
  shows "m \<in> set xs" "\<And>y. y \<in> set xs \<Longrightarrow> sint y \<le> sint m"
  using assms fold_max_sint [of "hd xs" "tl xs"] by (auto simp: sql_max_def split: list.splits)

definition ids_ok :: "tables \<Rightarrow> bool" where
  "ids_ok t \<longleftrightarrow> distinct (priority_ids t) \<and> (\<forall>i \<in> set (priority_ids t). unat i + 1 < 2 ^ 63)"

lemma ids_below_ok: "ids_below t n \<Longrightarrow> ids_ok t"
  by (auto simp: ids_below_def ids_ok_def)

lemma ids_ok_next:
  assumes "ids_ok t"
  shows "ids_below t (case sql_max (priority_ids t) of None \<Rightarrow> 0 | Some i \<Rightarrow> i + 1)"
proof (cases "sql_max (priority_ids t)")
  case None
  then have "priority_ids t = []" by (simp add: sql_max_def split: list.splits)
  then show ?thesis using None by (simp add: ids_below_def)
next
  case (Some m)
  have m: "unat m + 1 < 2 ^ 63" using assms sql_max_Some(1) [OF Some] by (simp add: ids_ok_def)
  then have next': "unat (m + 1) = unat m + 1" using unat_add_small [of m 1] by simp
  have "unat i \<le> unat m" if "i \<in> set (priority_ids t)" for i
  proof -
    have "unat i < 2 ^ 63" using assms that by (auto simp: ids_ok_def)
    moreover have "unat m < 2 ^ 63" using m by simp
    ultimately have "int (unat i) \<le> int (unat m)"
      using sql_max_Some(2) [OF Some that] by (simp only: sint_small)
    then show ?thesis by (simp only: of_nat_le_iff)
  qed
  then show ?thesis using assms Some m next' by (auto simp: ids_below_def ids_ok_def le_imp_less_Suc)
qed

section \<open>Rounds\<close>

text \<open>The ids a round may take fit the column.\<close>

definition ids_fit :: "btc_lib \<Rightarrow> 'w btc_ops \<Rightarrow> watch_config \<Rightarrow> db \<times> 'w watch \<Rightarrow> bool" where
  "ids_fit L ops config s \<longleftrightarrow> unat (w_next_id (snd s)) + message_count L ops config s < 2 ^ 63"

text \<open>What a step does to the ids: they stay below the next one, which only grows, and none appears
  below the old next one.\<close>

definition ids_grow :: "db \<times> 'w watch \<Rightarrow> db \<times> 'w watch \<Rightarrow> bool" where
  "ids_grow s s' \<longleftrightarrow> ids_below (service_tables s') (w_next_id (snd s'))
     \<and> unat (w_next_id (snd s)) \<le> unat (w_next_id (snd s'))
     \<and> (\<forall>i \<in> set (priority_ids (service_tables s')).
          i \<in> set (priority_ids (service_tables s)) \<or> unat (w_next_id (snd s)) \<le> unat i)"

lemma iteration_ids:
  assumes L: "lib_hash_sizes L" and inv: "ids_below (service_tables s) (w_next_id (snd s))"
    and fit: "ids_fit L ops config s" and run: "watch_loop_iteration L X ops config clock s = (r, s')"
  shows "ids_grow s s'"
    "\<not> is_Ok r \<Longrightarrow> w_next_id (snd s') \<noteq> w_next_id (snd s) \<Longrightarrow>
       \<exists>g. unat (w_next_id (snd s)) \<le> unat g \<and> unat g < unat (w_next_id (snd s'))
         \<and> g \<notin> set (priority_ids (service_tables s'))"
proof -
  have "ids_grow s s' \<and> (\<not> is_Ok r \<longrightarrow> w_next_id (snd s') \<noteq> w_next_id (snd s) \<longrightarrow>
     (\<exists>g. unat (w_next_id (snd s)) \<le> unat g \<and> unat g < unat (w_next_id (snd s'))
         \<and> g \<notin> set (priority_ids (service_tables s'))))"
    using run
  proof (cases rule: iteration_cases)
    case idle
    then show ?thesis using inv by (simp add: ids_grow_def)
  next
    case (work to_block msgs s1 r1 s2)
    note k = fetch_keeps [OF work(1)]
    have "processed L X clock msgs (service_tables s1, snd s1) (is_Ok r1) (service_tables s2, snd s2)"
      by (rule process_messages_result [OF L work(2)])
    note ids = processed_ids [OF this]
    have inv1: "ids_below (service_tables s1) (w_next_id (snd s1))" using inv k by simp
    have fit1: "unat (w_next_id (snd s1)) + length msgs < 2 ^ 63"
      using fit k work(1) by (simp add: ids_fit_def message_count_def)
    have s': "service_tables s' = service_tables s2" "w_next_id (snd s') = w_next_id (snd s2)" "is_Ok r = is_Ok r1"
      using work(3,4) by (cases "is_Ok r1"; auto)+
    show ?thesis
      using ids [OF inv1 fit1] k s' unfolding ids_grow_def by auto
  qed
  then show "ids_grow s s'" "\<not> is_Ok r \<Longrightarrow> w_next_id (snd s') \<noteq> w_next_id (snd s) \<Longrightarrow>
       \<exists>g. unat (w_next_id (snd s)) \<le> unat g \<and> unat g < unat (w_next_id (snd s'))
         \<and> g \<notin> set (priority_ids (service_tables s'))" by blast+
qed

text \<open>After a database error the round goes on with the same ids.\<close>

lemma round_view:
  assumes "watch_round L X ops config clock s = (r, s')"
  obtains r1 s1 where "watch_loop_iteration L X ops config clock s = (r1, s1)"
    "service_tables s' = service_tables s1" "w_next_id (snd s') = w_next_id (snd s1)"
proof -
  obtain r1 s1 where it: "watch_loop_iteration L X ops config clock s = (r1, s1)" using prod.exhaust by blast
  show thesis
  proof (cases "\<exists>e. r1 = Err (DatabaseError e)")
    case True
    obtain x s2 where init: "initialize_state ops (btc_blocks_lag config) s1 = (x, s2)" using prod.exhaust by blast
    have "service_tables s' = service_tables s2 \<and> w_next_id (snd s') = w_next_id (snd s2)"
      using assms it init True
      by (cases x; cases s2) (auto simp: watch_round_def io_bind_run split: prod.splits)
    then show thesis using that [OF it] initialize_keeps [OF init] by (simp add: watch_view_def)
  next
    case False
    then have "s' = s1" using assms it
      by (auto simp: watch_round_def split: res.splits processor_error.splits)
    then show thesis using that [OF it] by simp
  qed
qed

lemma round_ids:
  assumes "lib_hash_sizes L" "ids_below (service_tables s) (w_next_id (snd s))" "ids_fit L ops config s"
    and "watch_round L X ops config clock s = (r, s')"
  shows "ids_grow s s'"
proof -
  from assms(4) obtain r1 s1 where it: "watch_loop_iteration L X ops config clock s = (r1, s1)"
    and same: "service_tables s' = service_tables s1" "w_next_id (snd s') = w_next_id (snd s1)"
    by (rule round_view)
  show ?thesis using iteration_ids(1) [OF assms(1-3) it] same by (simp add: ids_grow_def)
qed

text \<open>Runs without a restart, from one state to another.\<close>

inductive watch_rounds ::
    "btc_lib \<Rightarrow> tx_lib \<Rightarrow> 'w btc_ops \<Rightarrow> watch_config \<Rightarrow> db \<times> 'w watch \<Rightarrow> db \<times> 'w watch \<Rightarrow> bool"
  for L X ops config s where
  now: "watch_rounds L X ops config s s"
| round: "watch_rounds L X ops config s s1 \<Longrightarrow> ids_fit L ops config s1 \<Longrightarrow>
    watch_round L X ops config clock s1 = (Ok (), s2) \<Longrightarrow> watch_rounds L X ops config s s2"
| others: "watch_rounds L X ops config s (d, w) \<Longrightarrow>
    subseq (priority_ids (db_tables d')) (priority_ids (db_tables d)) \<Longrightarrow>
    watch_rounds L X ops config s (d', w\<lparr>w_world := x\<rparr>)"

text \<open>Runs with restarts, after a round that ended the service or after a stop, from a table with
  distinct ids.\<close>

inductive watch_run ::
    "btc_lib \<Rightarrow> tx_lib \<Rightarrow> 'w btc_ops \<Rightarrow> network \<Rightarrow> watch_config \<Rightarrow> db \<times> 'w watch \<Rightarrow> bool"
  for L X ops net config where
  start: "ids_ok (db_tables d) \<Longrightarrow> watch_new ops net config (d, w) = (Ok (), s) \<Longrightarrow>
    watch_run L X ops net config s"
| rounds: "watch_run L X ops net config s \<Longrightarrow> watch_rounds L X ops config s s' \<Longrightarrow>
    watch_run L X ops net config s'"
| restart: "watch_run L X ops net config s \<Longrightarrow> ids_fit L ops config s \<Longrightarrow>
    watch_round L X ops config clock s = (r, s1) \<Longrightarrow>
    watch_new ops net config (fst s1, w) = (Ok (), s2) \<Longrightarrow> watch_run L X ops net config s2"
| stop: "watch_run L X ops net config s \<Longrightarrow> watch_new ops net config (fst s, w) = (Ok (), s2) \<Longrightarrow>
    watch_run L X ops net config s2"

lemma subseq_keeps:
  assumes "subseq xs ys"
  shows "set xs \<subseteq> set ys \<and> (distinct ys \<longrightarrow> distinct xs)"
  using assms by (induction rule: list_emb.induct) auto

lemma ids_below_subseq:
  assumes "ids_below t n" "subseq (priority_ids t') (priority_ids t)"
  shows "ids_below t' n" "set (priority_ids t') \<subseteq> set (priority_ids t)"
  using assms(1) subseq_keeps [OF assms(2)] by (auto simp: ids_below_def)

lemma rounds_ids:
  assumes "watch_rounds L X ops config s s'" "lib_hash_sizes L"
    and "ids_below (service_tables s) (w_next_id (snd s))"
  shows "ids_grow s s'"
  using assms(1)
proof induction
  case now
  then show ?case using assms(3) by (simp add: ids_grow_def)
next
  case (round s1 clock s2)
  have "ids_grow s1 s2"
    using round_ids [OF assms(2) _ round.hyps(2,3)] round.IH by (simp add: ids_grow_def)
  then show ?case using round.IH unfolding ids_grow_def by (meson le_trans)
next
  case (others d w d' x)
  then show ?case
    using ids_below_subseq [OF _ others.hyps(2)] by (auto simp: ids_grow_def)
qed

lemma new_ids:
  assumes "ids_ok (service_tables s)" "watch_new ops net config s = (Ok (), s')"
  shows "ids_below (service_tables s') (w_next_id (snd s'))"
  using ids_ok_next [OF assms(1)] watch_new_Ok [OF assms(2)] by simp

lemma run_ids:
  assumes "watch_run L X ops net config s" "lib_hash_sizes L"
  shows "ids_below (service_tables s) (w_next_id (snd s))"
  using assms(1)
proof induction
  case (start d w s)
  then show ?case using new_ids [of "(d, w)"] by simp
next
  case (rounds s s')
  then show ?case using rounds_ids [OF rounds.hyps(2) assms(2)] by (simp add: ids_grow_def)
next
  case (restart s clock r s1 w s2)
  have "ids_below (service_tables s1) (w_next_id (snd s1))"
    using round_ids [OF assms(2) restart.IH restart.hyps(2,3)] by (simp add: ids_grow_def)
  then have "ids_ok (service_tables (fst s1, w))" by (auto dest: ids_below_ok)
  then show ?case by (rule new_ids) (rule restart.hyps(4))
next
  case (stop s w s2)
  then have "ids_ok (service_tables (fst s, w))" by (auto dest: ids_below_ok)
  then show ?case by (rule new_ids) (rule stop.hyps(2))
qed

text \<open>An id that was skipped stays out of the table as long as the watcher is not restarted.\<close>

lemma gap_stays:
  assumes "watch_rounds L X ops config s s'" "lib_hash_sizes L"
    and "ids_below (service_tables s) (w_next_id (snd s))"
    and "unat g < unat (w_next_id (snd s))" "g \<notin> set (priority_ids (service_tables s))"
  shows "g \<notin> set (priority_ids (service_tables s'))"
  using rounds_ids [OF assms(1-3)] assms(4,5) by (auto simp: ids_grow_def)

end
