(* ===== verification/Watch_Deposits.thy ===== *)
theory Watch_Deposits
  imports Watch_Runs Mempool
begin

text \<open>
  Deposits on their way from a block to the mempool: the messages of a transaction with several
  inscriptions, the rows of their priority operations and how a row reads back, and a mempool whose
  next priority operation is missing.
\<close>

section \<open>Rows of deposits\<close>

lemma fold_add_transaction:
  assumes "distinct (map tr_hash (transactions t @ rows))"
  shows "fold add_transaction rows t = t\<lparr>transactions := transactions t @ rows\<rparr>"
  using assms
proof (induction rows arbitrary: t)
  case (Cons r rows)
  have "add_transaction r t = t\<lparr>transactions := transactions t @ [r]\<rparr>"
    using Cons.prems by (auto simp: add_transaction_def list_ex_iff image_iff)
  then show ?case using Cons.IH [of "t\<lparr>transactions := transactions t @ [r]\<rparr>"] Cons.prems by simp
qed simp

text \<open>The fields of the rows in the order of the deposits.\<close>

lemma created_fields [simp]:
  "l1_serial_id (create_l1_tx_from_message X now d n) = n"
  "to_mint (l1_common_data (create_l1_tx_from_message X now d n)) = ucast (l1_amount d)"
  "ex_contract_address (l1_execute (create_l1_tx_from_message X now d n)) = receiver_l2_address (msg_input d)"
  by (simp_all add: create_l1_tx_from_message_def unhashed_l1_tx_def l1_serial_id_def Let_def)

lemma unat_ucast_u256 [simp]: "unat (ucast x :: u256) = unat (x :: u64)"
  using unsigned_less [of x, where 'a = nat]
  by (simp add: unsigned_ucast_eq unsigned_take_bit_eq take_bit_nat_eq_self)

lemma numbered_rows:
  "map tr_priority_op_id (op_rows X (number_ops X clock n ds)) = map (\<lambda>i. Some (n + of_nat i)) [0..<length ds]"
  "map tr_l1_tx_mint (op_rows X (number_ops X clock n ds)) = map (Some \<circ> unat \<circ> l1_amount) ds"
  "map tr_signature (op_rows X (number_ops X clock n ds)) = map (Some \<circ> deposit_txid) ds"
  "map tr_contract_address (op_rows X (number_ops X clock n ds)) = map (Some \<circ> receiver_l2_address \<circ> msg_input) ds"
proof -
  show "map tr_priority_op_id (op_rows X (number_ops X clock n ds)) = map (\<lambda>i. Some (n + of_nat i)) [0..<length ds]"
    by (induction ds arbitrary: n)
      (simp_all add: priority_row_def Let_def upt_conv_Cons map_Suc_upt [symmetric] ac_simps comp_def
        del: upt_Suc)
  show "map tr_l1_tx_mint (op_rows X (number_ops X clock n ds)) = map (Some \<circ> unat \<circ> l1_amount) ds"
    "map tr_signature (op_rows X (number_ops X clock n ds)) = map (Some \<circ> deposit_txid) ds"
    "map tr_contract_address (op_rows X (number_ops X clock n ds)) = map (Some \<circ> receiver_l2_address \<circ> msg_input) ds"
    by (induction ds arbitrary: n) (simp_all add: priority_row_def Let_def)
qed

lemma new_deposits_set:
  "d \<in> set (new_deposits L b K msgs) \<longleftrightarrow>
     FullL1ToL2Message d \<in> set msgs \<and> pays L b d \<and> deposit_txid d \<notin> K"
proof (induction msgs)
  case (Cons m msgs)
  then show ?case by (cases m) auto
qed simp

lemma processed_Ok:
  assumes "processed L X clock msgs (t, w) ok (t', w')" ok
  shows "t' = fold add_transaction (deposit_rows L X clock msgs t w) t"
    "w' = w\<lparr>w_next_id := w_next_id w + of_nat (length (deposit_rows L X clock msgs t w))\<rparr>"
  using assms by (auto simp: processed_def)

section \<open>Reading a deposit back\<close>

lemma decimal_u256_unat [simp]: "decimal_u256 (unat x) = Ok x"
  using unsigned_less [of x, where 'a = nat] by (simp add: decimal_u256_def)

lemma sint_of_int_u32: "0 \<le> x \<Longrightarrow> x < 2 ^ 31 \<Longrightarrow> sint (word_of_int x :: u32) = x"
  by (simp add: signed_of_int signed_take_bit_int_eq_self)

lemma block_roundtrip:
  assumes "unat (h :: u32) < 2 ^ 31"
  shows "block_as_u64 (Some (ucast (ucast h :: u64))) = ucast h"
proof -
  have "int (unat h) < int (2 ^ 31)" using assms by (simp only: of_nat_less_iff)
  then have "uint h < 2 ^ 31" by simp
  then have "sint h = uint h" using sint_of_int_u32 [of "uint h"] by simp
  moreover have "ucast (ucast h :: u64) = h" by transfer (simp add: take_bit_take_bit)
  ultimately show ?thesis by (simp only: block_as_u64_def option.case scast_eq ucast_eq)
qed

lemma priority_row_roundtrip:
  assumes "length (l1_sender (l1_common_data tx)) = 20" "length (refund_recipient (l1_common_data tx)) = 20"
    and "length (canonical_tx_hash (l1_common_data tx)) = 32"
    and "op_processing (l1_common_data tx) = Common" "queue_type (l1_common_data tx) = Deque"
    and "block_as_u64 (Some h) = eth_block (l1_common_data tx)"
    and "execute_deserialize X (execute_serialize X (l1_execute tx)) = Some (l1_execute tx)"
  shows "transaction_from_row X (priority_row X tx h txid) = Ok (L1Tx tx)"
proof -
  have "l1_common_from_row (priority_row X tx h txid) = Ok (l1_common_data tx)"
    using assms(1-6)
    by (cases "l1_common_data tx")
      (simp add: l1_common_from_row_def priority_row_def Let_def mandatory_decimal_def decimal_or_def
        address_or_default_def address_from_slice_def hash_from_slice_def l1_hash_def l1_serial_id_def)
  then show ?thesis
    using assms(3,7)
    by (simp add: transaction_from_row_def priority_row_def Let_def hash_from_slice_def l1_hash_def)
qed

section \<open>Priority ids\<close>

lemma next_transaction_stuck:
  assumes "map_of (l1_transactions m) (next_priority_id m) = None"
    and "next_transaction f m = Ok (tx, m')"
  shows "\<nexists>t. tx = Some (L1Tx t)" "next_priority_id m' = next_priority_id m"
  using assms
  by (auto simp: next_transaction_def next_l2_transaction_def res_bind_Ok_iff Let_def
    split: option.splits if_splits)

section \<open>Several inscriptions in one transaction\<close>

text \<open>A transaction whose first input spends a P2WPKH output and whose others reveal deposits.\<close>

type_synonym deposit_inscription = "bytes \<times> l1_to_l2_message_input \<times> taproot_signature \<times> control_block"

definition reveals_deposit :: "btc_lib \<Rightarrow> network \<Rightarrow> tx_in \<Rightarrow> deposit_inscription \<Rightarrow> bool" where
  "reveals_deposit L n inp = (\<lambda>(pk, d, sig, cb). length pk = 32
     \<and> reveals L inp pk (L1ToL2Message d) sig cb \<and> wf_message L n (L1ToL2Message d))"

definition inscribed_deposit ::
    "btc_lib \<Rightarrow> address option \<Rightarrow> transaction \<Rightarrow> u32 \<Rightarrow> address \<Rightarrow> deposit_inscription \<Rightarrow> l1_to_l2_message" where
  "inscribed_deposit L bridge tx h sender = (\<lambda>(pk, d, sig, cb).
     \<lparr>common = inscription_common L tx h sender sig cb, msg_input = d,
      l1_amount = bridge_amount L bridge (tx_output tx), tx_outputs = tx_output tx\<rparr>)"

lemma parse_deposit_inputs:
  assumes "lib_script_codec L" "lib_control_block L" "lib_address_text L" "lib_hash_sizes L"
    and "list_all2 (reveals_deposit L (mp_network p)) taps ins"
  shows "io_filter_map (\<lambda>i. parse_input L i tx h sender) taps p =
    (Ok (map (FullL1ToL2Message \<circ> inscribed_deposit L (mp_bridge_address p) tx h sender) ins), p)"
  using assms(5)
proof (induction rule: list_all2_induct)
  case (Cons tap taps i ins)
  obtain pk d sig cb where i: "i = (pk, d, sig, cb)" by (cases i)
  have rev: "length pk = 32" "reveals L tap pk (L1ToL2Message d) sig cb" "wf_message L (mp_network p) (L1ToL2Message d)"
    using Cons.hyps(1) by (simp_all add: reveals_deposit_def i)
  have "parse_input L tap tx h sender p =
      (Ok (FullL1ToL2Message (inscribed_deposit L (mp_bridge_address p) tx h sender i)), p)"
    using parse_built_message [OF assms(3,4) rev(3)]
    by (simp add: parse_revealing_input [OF assms(1-3) rev(3,1,2)] inscribed_deposit_def i)
  then show ?case using Cons.IH by (simp add: io_bind_run io_try_def)
qed simp

lemma revealing_senders:
  assumes "list_all2 (reveals_deposit L n) taps ins"
  shows "foldl (\<lambda>acc i. case parse_p2wpkh L n (witness i) of Some a \<Rightarrow> Some a | None \<Rightarrow> acc) a taps = a"
  using assms
proof (induction rule: list_all2_induct)
  case (Cons tap taps i ins)
  then have "length (witness tap) = 3" by (auto simp: reveals_deposit_def reveals_def)
  then show ?case using Cons.IH by (simp add: parse_p2wpkh_def)
qed simp

lemma parse_deposit_transaction:
  assumes "lib_script_codec L" "lib_control_block L" "lib_address_text L" "lib_hash_sizes L"
    and "tx_input tx = fee_in # taps" "parse_p2wpkh L (mp_network p) (witness fee_in) = Some sender"
    and "list_all2 (reveals_deposit L (mp_network p)) taps ins"
  shows "parse_transaction L tx h p =
    (Ok (map (FullL1ToL2Message \<circ> inscribed_deposit L (mp_bridge_address p) tx h sender) ins), p)"
proof -
  have len: "length (witness fee_in) = 2"
    using assms(6) by (auto simp: parse_p2wpkh_def split: if_splits)
  have "sender_address L (mp_network p) (tx_input tx) = Some sender"
    using revealing_senders [OF assms(7)] by (simp add: sender_address_def assms(5,6))
  then show ?thesis
    using parse_deposit_inputs [OF assms(1-4,7)] len
    by (simp add: parse_transaction_def io_bind_run assms(5) io_try_def parse_input_def min_instructions_defs)
qed

section \<open>Purged accounts\<close>

text \<open>What a synchronisation of the mempool leaves in the table: no row of a purged account that was in
  the mempool, unless the account is also stashed.\<close>

lemma sync_mempool_rows:
  assumes "sync_mempool X ret stashed purged gas_per_pubdata fee_per_gas limit d = (Ok txs, d')"
    and "r \<in> set (transactions (db_tables d'))"
  shows "\<exists>r0 \<in> set (transactions (db_tables d)). tr_hash r0 = tr_hash r
    \<and> \<not> (tr_in_mempool r0 \<and> tr_initiator_address r0 \<in> set purged - set stashed)"
proof -
  let ?stash = "\<lambda>r. tr_in_mempool r \<and> tr_initiator_address r \<in> set stashed"
  let ?purge = "\<lambda>r. tr_in_mempool r \<and> tr_initiator_address r \<in> set purged"
  obtain d1 d2 rows where runs: "guarded_update (\<lambda>_. False) (set_in_mempool ?stash False) d = (Ok (), d1)"
    "guarded_update (\<lambda>_. False) (\<lambda>t. t\<lparr>transactions := filter (\<lambda>r. \<not> ?purge r) (transactions t)\<rparr>) d1 = (Ok (), d2)"
    "select_for_mempool ret fee_per_gas gas_per_pubdata (scast (ucast limit :: i32)) d2 = (Ok rows, d')"
    using assms(1) unfolding sync_mempool_def by (auto simp: io_bind_Ok_iff)
  note t1 = guarded_update_Ok [OF runs(1), THEN conjunct2] and t2 = guarded_update_Ok [OF runs(2), THEN conjunct2]
  obtain p where t3: "db_tables d' = set_in_mempool p True (db_tables d2)"
    using runs(3) by (auto simp: select_for_mempool_def round_trip_def io_bind_Ok_iff update_tables_def
      sql_limit_def split: list.splits bool.splits if_splits)
  obtain r2 where r2: "r2 \<in> set (transactions (db_tables d2))" "tr_hash r2 = tr_hash r"
    using assms(2) t3 by (auto simp: set_in_mempool_def update_where_def split: if_splits)
  then have r2': "r2 \<in> set (transactions (db_tables d1))" "\<not> ?purge r2"
    using t2 by auto
  then obtain r0 where "r0 \<in> set (transactions (db_tables d))" "r2 = (if ?stash r0 then r0\<lparr>tr_in_mempool := False\<rparr> else r0)"
    using t1 by (auto simp: set_in_mempool_def update_where_def)
  then show ?thesis using r2 r2'(2) by (auto split: if_splits intro!: bexI [of _ r0])
qed

end
