(* ===== verification/Ref_Watch.thy ===== *)
theory Ref_Watch
  imports Watch_Deposits Ref_Node Ref_Hex
begin

text \<open>
  A concrete instance of the library parameters of transactions, and a concrete watcher: one block
  with a transaction that pays the bridge and reveals deposits.
\<close>

section \<open>A library\<close>

text \<open>Addresses and numbers are hexadecimal text.\<close>

definition ref_hex_json :: "bytes \<Rightarrow> json" where
  "ref_hex_json b = JString ([0x30, 0x78] @ hex_encode b)"

fun ref_hex_read :: "json \<Rightarrow> bytes option" where
  "ref_hex_read (JString (a # x # s)) = (if [a, x] = [0x30, 0x78] then hex_decode s else None)"
| "ref_hex_read _ = None"

lemma ref_hex_read [simp]: "ref_hex_read (ref_hex_json b) = Some b"
  by (simp add: ref_hex_json_def)

text \<open>The digest keeps the nonce of a canonical transaction.\<close>

fun ref_ethabi :: "token list \<Rightarrow> bytes" where
  "ref_ethabi [TupleToken ts] = (case ts ! 8 of UintToken n \<Rightarrow> be_bytes 32 (unat n) | _ \<Rightarrow> [])"
| "ref_ethabi _ = []"

definition ref_tx_lib :: tx_lib where
  "ref_tx_lib =
     \<lparr>ethabi_encode = ref_ethabi, keccak256 = (\<lambda>b. take 32 (b @ replicate 32 0)),
      hex_encode_text = hex_encode, hex_decode_text = hex_decode,
      address_to_json = ref_hex_json, address_from_json = ref_hex_read,
      u256_to_json = (\<lambda>v. ref_hex_json (be_bytes 32 (unat v))),
      u256_from_json = (\<lambda>j. map_option (\<lambda>b. of_nat (be_nat b)) (ref_hex_read j)),
      datetime_in_range = (\<lambda>t. t < 8000000000000)\<rparr>"

lemma ref_tx_lib_ok: "tx_lib_ok ref_tx_lib"
proof -
  have "of_nat (be_nat (be_bytes 32 (unat v))) = v" for v :: u256
    using unsigned_less [of v, where 'a = nat] by (simp add: be_nat_be_bytes)
  moreover have "length (take 32 (b @ replicate 32 (0 :: u8))) = 32" for b by simp
  ultimately show ?thesis by (simp add: tx_lib_ok_def ref_tx_lib_def)
qed

text \<open>So operations with different ids have different hashes.\<close>

lemma ref_deposit_hash:
  "l1_hash (create_l1_tx_from_message ref_tx_lib now d n) = be_bytes 32 (unat n)"
proof -
  have "unat (ucast n :: u256) = unat n" by simp
  then show ?thesis
    by (simp add: l1_hash_def create_l1_tx_from_message_def Let_def canonical_hash_def canonical_encode_def
      deposit_canonical_def unhashed_l1_tx_def ref_tx_lib_def)
qed

lemma ref_hash_inj: "be_bytes 32 (unat n) = be_bytes 32 (unat m) \<Longrightarrow> n = m" for n m :: u64
proof -
  assume "be_bytes 32 (unat n) = be_bytes 32 (unat m)"
  then have "be_nat (be_bytes 32 (unat n)) = be_nat (be_bytes 32 (unat m))" by simp
  moreover have "unat n < 256 ^ 32" "unat m < 256 ^ 32"
    using unsigned_less [of n, where 'a = nat] unsigned_less [of m, where 'a = nat] by simp_all
  ultimately show "n = m" by (simp add: be_nat_be_bytes word_unat_eq_iff)
qed

section \<open>A watcher\<close>

definition demo_bridge :: address where
  "demo_bridge = ref_p2wpkh (PublicKey 6) Regtest"

definition demo_receiver :: "u8 \<Rightarrow> l1_to_l2_message_input" where
  "demo_receiver k = \<lparr>receiver_l2_address = replicate 20 k, l2_contract_address = replicate 20 0, call_data = []\<rparr>"

definition demo_inscription :: "u8 \<Rightarrow> deposit_inscription" where
  "demo_inscription k = (be_bytes 32 5, demo_receiver k, TaprootSignature 1, ControlBlock 5)"

definition demo_deposit_tx :: "u8 list \<Rightarrow> transaction" where
  "demo_deposit_tx ks =
     \<lparr>tx_version = 2, lock_time = 0,
      tx_input = demo_fee_in # map (\<lambda>k. demo_tap_in (L1ToL2Message (demo_receiver k))) ks,
      tx_output = [\<lparr>txo_value = 1000, script_pubkey = ref_address_script demo_bridge\<rparr>]\<rparr>"

definition demo_parser :: message_parser where
  "demo_parser = \<lparr>mp_network = Regtest, mp_bridge_address = Some demo_bridge\<rparr>"

definition demo_watch_client :: "u8 list \<Rightarrow> nat btc_ops" where
  "demo_watch_client ks = demo_client
     \<lparr>ops_fetch_block := (\<lambda>h. io_return \<lparr>prev_blockhash = replicate 32 0, txdata = [demo_deposit_tx ks]\<rparr>)\<rparr>"

definition demo_watch :: "nat watch" where
  "demo_watch =
     \<lparr>w_indexer = \<lparr>ix_parser = demo_parser, ix_bridge_address = demo_bridge,
        sequencer_address = ref_p2wpkh (PublicKey 7) Regtest, ix_verifier_addresses = [],
        starting_block_number = 1\<rparr>,
      w_world = 0, w_last_block = 6, w_bridge = demo_bridge, w_next_id = 0\<rparr>"

definition demo_watch_config :: watch_config where
  "demo_watch_config = \<lparr>confirmations_for_btc_msg = 0, btc_blocks_lag = 1\<rparr>"

definition demo_watch_db :: "transaction_row list \<Rightarrow> bool list \<Rightarrow> db" where
  "demo_watch_db rows faults =
     \<lparr>db_tables = \<lparr>l1_batches = [], commitments = [], protocol_versions = [], proof_generation_details = [],
        inscriptions_request = [], request_history = [], batch_inscription = [], data_availability = [],
        transactions = rows, miniblocks = []\<rparr>,
      next_request_id = 1, next_history_id = 1, db_now = 0,
      db_faults = faults\<rparr>"

lemma demo_watch_db_simps [simp]:
  "transactions (db_tables (demo_watch_db rows fs)) = rows"
  "known_txids (db_tables (demo_watch_db [] fs)) = {}"
  by (simp_all add: demo_watch_db_def known_txids_def)

definition demo_message_of :: "u8 list \<Rightarrow> u8 \<Rightarrow> l1_to_l2_message" where
  "demo_message_of ks k = inscribed_deposit ref_lib (Some demo_bridge) (demo_deposit_tx ks) 7
     (ref_p2wpkh (PublicKey 5) Regtest) (demo_inscription k)"

lemma demo_reveals:
  "list_all2 (reveals_deposit ref_lib (mp_network demo_parser))
     (map (\<lambda>k. demo_tap_in (L1ToL2Message (demo_receiver k))) ks) (map demo_inscription ks)"
  using demo_tap_reveals
  by (simp add: list_all2_map1 list_all2_map2 list_all2_same reveals_deposit_def demo_inscription_def
    demo_receiver_def fits_def)

lemma demo_parses:
  "parse_transaction ref_lib (demo_deposit_tx ks) 7 demo_parser
     = (Ok (map (FullL1ToL2Message \<circ> demo_message_of ks) ks), demo_parser)"
proof -
  have "tx_input (demo_deposit_tx ks) = demo_fee_in # map (\<lambda>k. demo_tap_in (L1ToL2Message (demo_receiver k))) ks"
    by (simp add: demo_deposit_tx_def)
  from parse_deposit_transaction [OF ref_lib_laws(1,5,4,3) this demo_fee_sender demo_reveals, of 7]
  show ?thesis by (simp add: demo_parser_def demo_message_of_def comp_def)
qed

lemma demo_amount: "bridge_amount ref_lib (Some demo_bridge) (tx_output (demo_deposit_tx ks)) = 1000"
  by (simp add: demo_deposit_tx_def bridge_amount_def pays_bridge_def demo_bridge_def ref_p2wpkh_script
    ref_is_p2wpkh_script_def)

lemma demo_amount' [simp]:
  "bridge_amount ref_lib (Some demo_bridge)
     [\<lparr>txo_value = 1000, script_pubkey = ref_address_script demo_bridge\<rparr>] = 1000"
  using demo_amount [of "[]"] by (simp add: demo_deposit_tx_def)

lemma demo_message_fields [simp]:
  "l1_amount (demo_message_of ks k) = 1000"
  "deposit_txid (demo_message_of ks k) = rev (ref_txid (demo_deposit_tx ks))"
  "pays ref_lib demo_bridge (demo_message_of ks k)"
  by (simp_all add: demo_message_of_def inscribed_deposit_def demo_inscription_def demo_amount
    deposit_txid_def inscription_common_def pays_def demo_deposit_tx_def)

lemma demo_fetches:
  "fetch_new_messages ref_lib (demo_watch_client ks) demo_watch_config (d, demo_watch)
     = (Ok (Some (7, map (FullL1ToL2Message \<circ> demo_message_of ks) ks)), d, demo_watch)"
proof -
  have "block_range 7 7 = [7]" by (simp add: block_range_def)
  then show ?thesis
    using demo_parses [of ks]
    by (simp add: fetch_new_messages_def io_bind_run on_indexer_def io_zoom_def io_map_err_def
      indexer_fetch_block_height_def demo_watch_client_def demo_client_def demo_watch_def
      demo_watch_config_def Let_def saturating_sub_u128_def process_blocks_def process_block_def
      parse_block_def)
qed

lemma demo_starts:
  "watch_new (demo_watch_client ks) Regtest demo_watch_config (demo_watch_db [] (False # False # fs), demo_watch)
     = (Ok (), demo_watch_db [] fs, demo_watch)"
  by (simp add: watch_new_def initialize_state_def io_bind_run on_db_def get_last_processed_l1_block_def
    select_rows_def round_trip_def last_priority_row_def last_priority_id_def sql_max_def priority_ids_def
    on_indexer_def io_zoom_def io_map_err_def indexer_fetch_block_height_def demo_watch_client_def
    demo_client_def demo_watch_config_def demo_watch_db_def demo_watch_def saturating_sub_u128_def
    get_state_def Let_def map_filter_simps)

text \<open>Two deposits, an iteration without faults and one whose first insertion fails.\<close>

definition demo_clock :: "u64 \<Rightarrow> u64" where
  "demo_clock n = 1700000000000"

definition demo_rows :: "u8 list \<Rightarrow> transaction_row list" where
  "demo_rows ks = op_rows ref_tx_lib (number_ops ref_tx_lib demo_clock 0 (map (demo_message_of ks) ks))"

lemma demo_new_deposits:
  "new_deposits ref_lib demo_bridge {} (map (FullL1ToL2Message \<circ> demo_message_of ks) xs) = map (demo_message_of ks) xs"
  by (induction xs) simp_all

lemma ref_txid_32: "length (rev (ref_txid tx)) = 32"
  by (simp add: ref_txid_def)

lemma ref_h256 [simp]: "h256_of_slice ref_lib (rev (ref_txid tx)) = Ok (rev (ref_txid tx))"
  using h256_of_txid(1) [OF ref_lib_laws(3) ref_txid_32] .

lemma demo_exists:
  "on_db f (transaction_exists_with_txid x) (demo_watch_db rows (False # fs), w)
     = (Ok (list_ex (\<lambda>r. tr_signature r = Some x) rows), demo_watch_db rows fs, w)"
  by (simp add: on_db_def transaction_exists_with_txid_def select_rows_def round_trip_def io_zoom_def
    io_map_err_def demo_watch_db_def)

lemma demo_insert:
  assumes "l1_received_timestamp_ms tx = 1700000000000"
  shows "on_db f (insert_transaction_l1 ref_tx_lib tx b x) (demo_watch_db rows (False # fs), w)
     = (Ok (), demo_watch_db (transactions (add_transaction (priority_row ref_tx_lib tx b x)
         (db_tables (demo_watch_db rows fs)))) fs, w)"
    "on_db f (insert_transaction_l1 ref_tx_lib tx b x) (demo_watch_db rows (True # fs), w)
     = (Err (f ConnectionError), demo_watch_db rows fs, w)"
  using assms
  by (simp_all add: on_db_def insert_transaction_l1_def guarded_update_def update_tables_def round_trip_def
    io_zoom_def io_map_err_def demo_watch_db_def ref_tx_lib_def add_transaction_def)

lemma demo_created_time [simp]:
  "l1_received_timestamp_ms (create_l1_tx_from_message X (demo_clock n) d n) = 1700000000000"
  by (simp add: create_l1_tx_from_message_def unhashed_l1_tx_def Let_def demo_clock_def)

lemma demo_message_raw [simp]:
  "w_bridge demo_watch = demo_bridge" "w_next_id demo_watch = 0"
  "cf_tx_id (common (demo_message_of ks k)) = ref_txid (demo_deposit_tx ks)"
  by (simp_all add: demo_watch_def demo_message_of_def inscribed_deposit_def demo_inscription_def
    inscription_common_def)

lemma demo_collect:
  "collect_ops ref_lib ref_tx_lib demo_clock (map (FullL1ToL2Message \<circ> demo_message_of ks) xs)
     (demo_watch_db [] (replicate (length xs) False @ fs), demo_watch\<lparr>w_next_id := n\<rparr>)
   = (Ok (number_ops ref_tx_lib demo_clock n (map (demo_message_of ks) xs)), demo_watch_db [] fs,
      demo_watch\<lparr>w_next_id := n + of_nat (length xs)\<rparr>)"
proof (induction xs arbitrary: n)
  case (Cons x xs)
  let ?d = "demo_watch_db [] (replicate (length (x # xs)) False @ fs)"
  have ask: "on_db DatabaseError (transaction_exists_with_txid (deposit_txid (demo_message_of ks x)))
      (?d, demo_watch\<lparr>w_next_id := n\<rparr>)
    = (Ok False, demo_watch_db [] (replicate (length xs) False @ fs), demo_watch\<lparr>w_next_id := n\<rparr>)"
    using demo_exists [of DatabaseError _ "[]"] by simp
  have "pays ref_lib (w_bridge (demo_watch\<lparr>w_next_id := n\<rparr>)) (demo_message_of ks x)"
    "length (deposit_txid (demo_message_of ks x)) = 32" using ref_txid_32 by simp_all
  from collect_ops_step [OF ref_lib_laws(3) this ask, of ref_tx_lib demo_clock] show ?case
    using Cons.IH [of "n + 1"] by (simp add: io_bind_run ac_simps)
qed simp

lemma demo_inserts:
  assumes "\<And>tx x. (tx, x) \<in> set ops \<Longrightarrow> l1_received_timestamp_ms tx = 1700000000000"
  shows "\<exists>s'. insert_ops ref_tx_lib ops (demo_watch_db rows (replicate (length ops) False), w) = (Ok (), s')"
  using assms
proof (induction ops arbitrary: rows)
  case (Cons op ops)
  obtain tx x where op: "op = (tx, x)" by (cases op)
  have time: "l1_received_timestamp_ms tx = 1700000000000" by (rule Cons.prems [of tx x]) (simp add: op)
  let ?rows = "transactions (add_transaction (priority_row ref_tx_lib tx (l1_eth_block tx) x)
    (db_tables (demo_watch_db rows (replicate (length ops) False))))"
  have "insert_ops ref_tx_lib (op # ops) (demo_watch_db rows (replicate (length (op # ops)) False), w)
      = insert_ops ref_tx_lib ops (demo_watch_db ?rows (replicate (length ops) False), w)"
    using demo_insert(1) [OF time, of DatabaseError "l1_eth_block tx" x rows "replicate (length ops) False" w]
    by (simp add: insert_ops_def op io_bind_def)
  moreover have "\<exists>s'. insert_ops ref_tx_lib ops (demo_watch_db ?rows (replicate (length ops) False), w) = (Ok (), s')"
    using Cons.prems by (intro Cons.IH) (meson list.set_intros(2))
  ultimately show ?case by simp
qed (simp add: insert_ops_def)

lemma demo_times: "(tx, x) \<in> set (number_ops ref_tx_lib demo_clock n ds) \<Longrightarrow> l1_received_timestamp_ms tx = 1700000000000"
  by (induction ds arbitrary: n) auto

lemma demo_process:
  "\<exists>s'. process_messages ref_lib ref_tx_lib demo_clock (map (FullL1ToL2Message \<circ> demo_message_of ks) xs)
     (demo_watch_db [] (replicate (2 * length xs) False), demo_watch) = (Ok (), s')"
proof -
  have w: "demo_watch\<lparr>w_next_id := 0\<rparr> = demo_watch" by (simp add: demo_watch_def)
  let ?ops = "number_ops ref_tx_lib demo_clock 0 (map (demo_message_of ks) xs)"
  obtain s' where "insert_ops ref_tx_lib ?ops (demo_watch_db [] (replicate (length xs) False),
      demo_watch\<lparr>w_next_id := of_nat (length xs)\<rparr>) = (Ok (), s')"
    using demo_inserts [of ?ops, OF demo_times] by force
  then show ?thesis
    using demo_collect [of ks xs "replicate (length xs) False" 0]
    by (simp add: process_messages_def io_bind_run w mult_2 replicate_add)
qed

lemma demo_iteration:
  "\<exists>s'. watch_loop_iteration ref_lib ref_tx_lib (demo_watch_client ks) demo_watch_config demo_clock
     (demo_watch_db [] (replicate (2 * length ks) False), demo_watch) = (Ok (), s')"
  using demo_process [of ks ks] demo_fetches [of ks]
  by (force simp: watch_loop_iteration_def io_bind_run)

lemma demo_iteration_fails:
  "watch_loop_iteration ref_lib ref_tx_lib (demo_watch_client [1]) demo_watch_config demo_clock
     (demo_watch_db [] (False # True # fs), demo_watch)
   = (Err (DatabaseError ConnectionError), demo_watch_db [] fs, demo_watch\<lparr>w_next_id := 1\<rparr>)"
proof -
  have w: "demo_watch\<lparr>w_next_id := 0\<rparr> = demo_watch" by (simp add: demo_watch_def)
  show ?thesis
    using demo_collect [of "[1]" "[1]" "True # fs" 0] demo_fetches [of "[1]"]
    by (simp add: watch_loop_iteration_def io_bind_run process_messages_def w demo_insert insert_ops_def)
qed

lemma demo_hashes: "distinct (map tr_hash (op_rows ref_tx_lib (number_ops ref_tx_lib demo_clock 0 [d, e])))"
  using ref_hash_inj [of 0 1] by (auto simp: priority_row_def Let_def ref_deposit_hash)

lemma demo_fits: "ids_fit ref_lib (demo_watch_client [1]) demo_watch_config (d, demo_watch)"
  by (simp add: ids_fit_def message_count_def demo_fetches)

lemma demo_run:
  "watch_run ref_lib ref_tx_lib (demo_watch_client ks) Regtest demo_watch_config (demo_watch_db [] fs, demo_watch)"
proof (rule watch_run.start)
  show "watch_new (demo_watch_client ks) Regtest demo_watch_config (demo_watch_db [] (False # False # fs), demo_watch)
      = (Ok (), demo_watch_db [] fs, demo_watch)" by (rule demo_starts)
  show "ids_ok (db_tables (demo_watch_db [] (False # False # fs)))"
    by (simp add: ids_ok_def demo_watch_db_def priority_ids_def map_filter_simps)
qed

lemma demo_round:
  "\<exists>s1. watch_round ref_lib ref_tx_lib (demo_watch_client [1]) demo_watch_config demo_clock
     (demo_watch_db [] [False, True], demo_watch) = (Ok (), s1) \<and> w_next_id (snd s1) = 1"
  using demo_iteration_fails [of "[]"]
  by (simp add: watch_round_def initialize_state_def io_bind_run on_db_def get_last_processed_l1_block_def
    select_rows_def round_trip_def last_priority_row_def last_priority_id_def sql_max_def priority_ids_def
    on_indexer_def io_zoom_def io_map_err_def indexer_fetch_block_height_def demo_watch_client_def
    demo_client_def demo_watch_config_def demo_watch_db_def get_state_def Let_def map_filter_simps)

text \<open>A run in which two deposits have been recorded.\<close>

lemma demo_recorded:
  "\<exists>s. watch_run ref_lib ref_tx_lib (demo_watch_client [1, 2]) Regtest demo_watch_config s
     \<and> priority_ids (service_tables s) = [0, 1] \<and> w_next_id (snd s) = 2"
proof -
  let ?s = "(demo_watch_db [] (replicate 4 False), demo_watch)"
  let ?msgs = "map (FullL1ToL2Message \<circ> demo_message_of [1, 2]) [1, 2]"
  obtain s' where run: "process_messages ref_lib ref_tx_lib demo_clock ?msgs ?s = (Ok (), s')"
    using demo_process [of "[1, 2]" "[1, 2]"] by auto
  define s2 where "s2 = (fst s', (snd s')\<lparr>w_last_block := 7\<rparr>)"
  have "watch_loop_iteration ref_lib ref_tx_lib (demo_watch_client [1, 2]) demo_watch_config demo_clock ?s = (Ok (), s2)"
    using run demo_fetches [of "[1, 2]"]
    by (cases s') (simp add: watch_loop_iteration_def io_bind_run s2_def)
  then have round: "watch_round ref_lib ref_tx_lib (demo_watch_client [1, 2]) demo_watch_config demo_clock ?s = (Ok (), s2)"
    by (simp add: watch_round_def)
  have fit: "ids_fit ref_lib (demo_watch_client [1, 2]) demo_watch_config ?s"
    by (simp add: ids_fit_def message_count_def demo_fetches)
  have "watch_run ref_lib ref_tx_lib (demo_watch_client [1, 2]) Regtest demo_watch_config s2"
    using watch_run.rounds [OF demo_run watch_rounds.round [OF watch_rounds.now fit round]] .
  moreover have rows: "deposit_rows ref_lib ref_tx_lib demo_clock ?msgs (service_tables ?s) (snd ?s)
      = op_rows ref_tx_lib (number_ops ref_tx_lib demo_clock 0 [demo_message_of [1, 2] 1, demo_message_of [1, 2] 2])"
    using demo_new_deposits [of "[1, 2]" "[1, 2]"] by (simp add: deposit_rows_def)
  note res = processed_Ok [OF process_messages_result [OF ref_lib_laws(3) run] res.disc(1), unfolded rows]
  have "distinct (map tr_hash (transactions (service_tables ?s) @ op_rows ref_tx_lib (number_ops ref_tx_lib
      demo_clock 0 [demo_message_of [1, 2] 1, demo_message_of [1, 2] 2])))"
    using demo_hashes [of "demo_message_of [1, 2] 1" "demo_message_of [1, 2] 2"] by simp
  note table = res(1) [unfolded fold_add_transaction [OF this]]
  have "priority_ids (service_tables s2) = [0, 1]"
    using table by (simp add: s2_def priority_ids_def priority_row_def Let_def map_filter_simps)
  moreover have "w_next_id (snd s2) = 2" using res(2) by (simp add: s2_def)
  ultimately show ?thesis by blast
qed

end
