(* ===== verification/Watch_Properties.thy ===== *)
theory Watch_Properties
  imports Ref_Watch
begin

text \<open>
  Properties of deposits: from the inscriptions in the blocks that the watcher reads to the rows of
  the table of transactions and the mempool.
\<close>

section \<open>Recording deposits\<close>

text \<open>C13: no deposit is lost.  After an iteration that ends normally the
  table has grown by exactly one row for each deposit of the new blocks that pays the bridge and
  whose transaction was not in the table, in the order of the blocks, with consecutive priority ids
  and the deposited amount to mint; the transaction of every deposit that pays the bridge is in the
  table, and the watcher goes on after the last of the blocks.\<close>

theorem watch_iteration_records_deposits:
  assumes "lib_hash_sizes L"
    and "fetch_new_messages L ops config s = (Ok (Some (to_block, msgs)), s1)"
    and "watch_loop_iteration L X ops config clock s = (Ok (), s')"
    and "ds = new_deposits L (w_bridge (snd s)) (known_txids (service_tables s)) msgs"
    and "rows = op_rows X (number_ops X clock (w_next_id (snd s)) ds)"
    and "distinct (map tr_hash (transactions (service_tables s) @ rows))"
  shows "transactions (service_tables s') = transactions (service_tables s) @ rows
    \<and> map tr_priority_op_id rows = map (\<lambda>i. Some (w_next_id (snd s) + of_nat i)) [0..<length ds]
    \<and> map tr_l1_tx_mint rows = map (Some \<circ> unat \<circ> l1_amount) ds
    \<and> w_next_id (snd s') = w_next_id (snd s) + of_nat (length ds)
    \<and> w_last_block (snd s') = to_block
    \<and> (\<forall>d. FullL1ToL2Message d \<in> set msgs \<longrightarrow> pays L (w_bridge (snd s)) d \<longrightarrow>
         deposit_txid d \<in> known_txids (service_tables s'))"
proof -
  obtain r1 s2 where p: "process_messages L X clock msgs s1 = (r1, s2)" using prod.exhaust by blast
  have ok: "is_Ok r1" and s': "s' = (fst s2, (snd s2)\<lparr>w_last_block := to_block\<rparr>)"
    using assms(3) p by (auto simp: watch_loop_iteration_def io_bind_def assms(2) split: res.splits prod.splits)
  note k = fetch_keeps [OF assms(2)]
  have rows: "deposit_rows L X clock msgs (service_tables s1) (snd s1) = rows"
    using k by (simp add: deposit_rows_def assms(4,5))
  note res = processed_Ok [OF process_messages_result [OF assms(1) p] ok, unfolded rows]
  have t': "transactions (service_tables s') = transactions (service_tables s) @ rows"
    using res(1) k(1) assms(6) by (simp add: s' fold_add_transaction)
  have "\<forall>d. FullL1ToL2Message d \<in> set msgs \<longrightarrow> pays L (w_bridge (snd s)) d \<longrightarrow>
         deposit_txid d \<in> known_txids (service_tables s')"
  proof (intro allI impI)
    fix d
    assume d: "FullL1ToL2Message d \<in> set msgs" "pays L (w_bridge (snd s)) d"
    show "deposit_txid d \<in> known_txids (service_tables s')"
    proof (cases "deposit_txid d \<in> known_txids (service_tables s)")
      case True
      then show ?thesis using t' by (auto simp: known_txids_def)
    next
      case False
      then have "d \<in> set ds" using d by (simp add: assms(4) new_deposits_set)
      then have "Some (deposit_txid d) \<in> set (map tr_signature rows)"
        by (simp add: assms(5) numbered_rows(3))
      then show ?thesis using t' by (auto simp: known_txids_def)
    qed
  qed
  moreover have "map tr_priority_op_id rows = map (\<lambda>i. Some (w_next_id (snd s) + of_nat i)) [0..<length ds]"
    "map tr_l1_tx_mint rows = map (Some \<circ> unat \<circ> l1_amount) ds" "length rows = length ds"
    unfolding assms(5) by (rule numbered_rows, rule numbered_rows, simp)
  moreover have "w_next_id (snd s') = w_next_id (snd s) + of_nat (length rows)" "w_last_block (snd s') = to_block"
    using res(2) k(4) by (simp_all add: s')
  ultimately show ?thesis using t' by (intro conjI) simp_all
qed

theorem watch_iteration_records_deposits_witness:
  "\<exists>s'. watch_loop_iteration ref_lib ref_tx_lib (demo_watch_client [1, 2]) demo_watch_config demo_clock
       (demo_watch_db [] (replicate 4 False), demo_watch) = (Ok (), s')
   \<and> map tr_priority_op_id (transactions (service_tables s')) = [Some 0, Some 1]
   \<and> map tr_l1_tx_mint (transactions (service_tables s')) = [Some 1000, Some 1000]
   \<and> w_next_id (snd s') = 2"
proof -
  let ?s = "(demo_watch_db [] (replicate 4 False), demo_watch)"
  obtain s' where run: "watch_loop_iteration ref_lib ref_tx_lib (demo_watch_client [1, 2]) demo_watch_config
      demo_clock ?s = (Ok (), s')" using demo_iteration [of "[1, 2]"] by auto
  let ?ds = "[demo_message_of [1, 2] 1, demo_message_of [1, 2] 2]"
  have ds: "?ds = new_deposits ref_lib (w_bridge (snd ?s)) (known_txids (service_tables ?s))
      (map (FullL1ToL2Message \<circ> demo_message_of [1, 2]) [1, 2])"
    using demo_new_deposits [of "[1, 2]" "[1, 2]"] by simp
  have hashes: "distinct (map tr_hash (transactions (service_tables ?s) @
      op_rows ref_tx_lib (number_ops ref_tx_lib demo_clock (w_next_id (snd ?s)) ?ds)))"
    using demo_hashes [of "demo_message_of [1, 2] 1" "demo_message_of [1, 2] 2"] by simp
  show ?thesis
    using watch_iteration_records_deposits [OF ref_lib_laws(3) demo_fetches run ds refl hashes] run
    by (intro exI [of _ s']) simp
qed

text \<open>C15: the row of a deposit reads back as the very priority operation that was made for it, the
  execution through its JSON form included, when the height of its block fits the signed column.\<close>

theorem deposit_row_roundtrip:
  assumes "tx_lib_ok X" "length (receiver_l2_address (msg_input d)) = 20"
    and "unat (cf_block_height (common d)) < 2 ^ 31"
    and "tx = create_l1_tx_from_message X now d n"
  shows "transaction_from_row X (priority_row X tx (l1_eth_block tx) txid) = Ok (L1Tx tx)"
  unfolding assms(4)
proof (rule priority_row_roundtrip)
qed (use assms(1,2) execute_roundtrip [OF assms(1)] block_roundtrip [OF assms(3)] in \<open>simp_all add:
    create_l1_tx_from_message_def unhashed_l1_tx_def Let_def canonical_hash_def tx_lib_ok_def l1_eth_block_def\<close>)

theorem deposit_row_roundtrip_witness:
  "let tx = create_l1_tx_from_message ref_tx_lib 5 (demo_message_of [1] 1) 9 in
   transaction_from_row ref_tx_lib (priority_row ref_tx_lib tx (l1_eth_block tx) (replicate 32 3)) = Ok (L1Tx tx)
   \<and> to_mint (l1_common_data tx) = 1000"
proof -
  have "length (receiver_l2_address (msg_input (demo_message_of [1] 1))) = 20"
    "unat (cf_block_height (common (demo_message_of [1] 1))) < 2 ^ 31"
    by (simp_all add: demo_message_of_def inscribed_deposit_def demo_inscription_def demo_receiver_def
      inscription_common_def)
  from deposit_row_roundtrip [OF ref_tx_lib_ok this refl, of 5 9 "replicate 32 3"]
  show ?thesis by (simp add: Let_def)
qed

section \<open>Priority ids\<close>

text \<open>C14: in every run of the watcher, with failures, restarts and whatever else the node does to the
  table, no priority id is given twice, and all are below the next one.\<close>

theorem priority_ids_in_runs:
  assumes "lib_hash_sizes L" "watch_run L X ops net config s"
  shows "distinct (priority_ids (service_tables s))
    \<and> (\<forall>i \<in> set (priority_ids (service_tables s)). unat i < unat (w_next_id (snd s)))"
  using run_ids [OF assms(2,1)] by (simp add: ids_below_def)

theorem priority_ids_in_runs_witness:
  "\<exists>s. watch_run ref_lib ref_tx_lib (demo_watch_client [1, 2]) Regtest demo_watch_config s
     \<and> priority_ids (service_tables s) = [0, 1]
     \<and> (\<forall>i \<in> set (priority_ids (service_tables s)). unat i < unat (w_next_id (snd s)))"
  using demo_recorded priority_ids_in_runs [OF ref_lib_laws(3)] by blast

text \<open>C25: a database error after a priority id was taken skips an id for good.  The round goes on with
  the next ids, so until the watcher is restarted no row gets the skipped id; a mempool fed from the
  table that waits for this id never returns a priority operation again.\<close>

theorem failed_insert_blocks_deposits:
  assumes "lib_hash_sizes L" "watch_run L X ops net config s" "ids_fit L ops config s"
    and "watch_loop_iteration L X ops config clock s = (Err (DatabaseError e), s0)"
    and "w_next_id (snd s0) \<noteq> w_next_id (snd s)"
    and "watch_round L X ops config clock s = (Ok (), s1)"
  shows "\<exists>g. unat (w_next_id (snd s)) \<le> unat g \<and> unat g < unat (w_next_id (snd s1))
    \<and> (\<forall>s2. watch_rounds L X ops config s1 s2 \<longrightarrow>
         g \<notin> set (priority_ids (service_tables s2))
       \<and> (\<forall>f m tx m'. fst ` set (l1_transactions m) \<subseteq> set (priority_ids (service_tables s2)) \<longrightarrow>
            next_priority_id m = g \<longrightarrow> next_transaction f m = Ok (tx, m') \<longrightarrow>
            (\<nexists>t. tx = Some (L1Tx t)) \<and> next_priority_id m' = g))"
proof -
  note inv = run_ids [OF assms(2,1)]
  obtain g where g: "unat (w_next_id (snd s)) \<le> unat g" "unat g < unat (w_next_id (snd s0))"
    "g \<notin> set (priority_ids (service_tables s0))"
    using iteration_ids(2) [OF assms(1) inv assms(3,4)] assms(5) by auto
  have same: "service_tables s1 = service_tables s0" "w_next_id (snd s1) = w_next_id (snd s0)"
    using round_view [OF assms(6)] assms(4) by (metis prod.inject)+
  have inv1: "ids_below (service_tables s1) (w_next_id (snd s1))"
    using iteration_ids(1) [OF assms(1) inv assms(3,4)] same by (simp add: ids_grow_def)
  have out: "g \<notin> set (priority_ids (service_tables s2))" if "watch_rounds L X ops config s1 s2" for s2
    using gap_stays [OF that assms(1) inv1] g(2,3) same by simp
  have stuck: "\<forall>f m tx m'. fst ` set (l1_transactions m) \<subseteq> set (priority_ids (service_tables s2)) \<longrightarrow>
      next_priority_id m = g \<longrightarrow> next_transaction f m = Ok (tx, m') \<longrightarrow>
      (\<nexists>t. tx = Some (L1Tx t)) \<and> next_priority_id m' = g"
    if "watch_rounds L X ops config s1 s2" for s2
  proof (intro allI impI)
    fix f m tx m'
    assume m: "fst ` set (l1_transactions m) \<subseteq> set (priority_ids (service_tables s2))"
      "next_priority_id m = g" "next_transaction f m = Ok (tx, m')"
    have "map_of (l1_transactions m) (next_priority_id m) = None"
      using out [OF that] m(1,2) by (auto simp: map_of_eq_None_iff)
    from next_transaction_stuck [OF this m(3)] show "(\<nexists>t. tx = Some (L1Tx t)) \<and> next_priority_id m' = g"
      using m(2) by simp
  qed
  show ?thesis
  proof (intro exI conjI)
    show "unat (w_next_id (snd s)) \<le> unat g" "unat g < unat (w_next_id (snd s1))" using g(1,2) same(2) by simp_all
  qed (rule allI, rule impI, rule conjI, erule out, erule stuck)
qed

theorem failed_insert_blocks_deposits_witness:
  "\<exists>s1. watch_round ref_lib ref_tx_lib (demo_watch_client [1]) demo_watch_config demo_clock
       (demo_watch_db [] [False, True], demo_watch) = (Ok (), s1)
   \<and> (\<forall>s2. watch_rounds ref_lib ref_tx_lib (demo_watch_client [1]) demo_watch_config s1 s2 \<longrightarrow>
        0 \<notin> set (priority_ids (service_tables s2)))"
proof -
  let ?s = "(demo_watch_db [] [False, True], demo_watch)"
  obtain s1 where round: "watch_round ref_lib ref_tx_lib (demo_watch_client [1]) demo_watch_config demo_clock ?s
      = (Ok (), s1)" "w_next_id (snd s1) = 1" using demo_round by blast
  have taken: "w_next_id (snd (demo_watch_db [] [], demo_watch\<lparr>w_next_id := 1\<rparr>)) \<noteq> w_next_id (snd ?s)" by simp
  obtain g where g: "unat g < unat (w_next_id (snd s1))"
    "\<forall>s2. watch_rounds ref_lib ref_tx_lib (demo_watch_client [1]) demo_watch_config s1 s2 \<longrightarrow>
       g \<notin> set (priority_ids (service_tables s2))"
    using failed_insert_blocks_deposits [OF ref_lib_laws(3) demo_run demo_fits demo_iteration_fails taken round(1)]
    by blast
  then have "g = 0" using round(2) by (simp add: unat_eq_zero)
  then show ?thesis using round(1) g(2) by blast
qed

section \<open>Several inscriptions in one transaction\<close>

text \<open>C26: one payment, several deposits.  A transaction that reveals several deposit inscriptions and
  pays the bridge once gets a priority operation for each of them, and each mints the whole amount
  of the payment for its own receiver.\<close>

theorem inscriptions_of_one_transaction_each_mint:
  assumes "lib_script_codec L" "lib_control_block L" "lib_address_text L" "lib_hash_sizes L"
    and "tx_input tx = fee_in # taps" "parse_p2wpkh L (mp_network p) (witness fee_in) = Some sender"
    and "list_all2 (reveals_deposit L (mp_network p)) taps ins"
    and "mp_bridge_address p = Some (w_bridge (snd s))"
    and "amount = bridge_amount L (Some (w_bridge (snd s))) (tx_output tx)" "0 < amount"
    and "rev (compute_ntxid L tx) \<notin> known_txids (service_tables s)"
    and "parse_transaction L tx h p = (Ok msgs, p')"
    and "process_messages L X clock msgs s = (Ok (), s')"
    and "distinct (map tr_hash (transactions (service_tables s) @
           deposit_rows L X clock msgs (service_tables s) (snd s)))"
  shows "\<exists>rows. transactions (service_tables s') = transactions (service_tables s) @ rows
    \<and> map tr_l1_tx_mint rows = replicate (length taps) (Some (unat amount))
    \<and> map tr_contract_address rows = map (\<lambda>(pk, d, sig, cb). Some (receiver_l2_address d)) ins"
proof -
  let ?ds = "map (inscribed_deposit L (mp_bridge_address p) tx h sender) ins"
  have msgs: "msgs = map FullL1ToL2Message ?ds"
    using parse_deposit_transaction [OF assms(1-7), of h] assms(12) by auto
  have pays: "pays L (w_bridge (snd s)) d" if "tx_outputs d = tx_output tx" for d
    using that assms(9,10)
    by (auto simp: pays_def list_ex_iff bridge_amount_def pays_bridge_def find_Some_iff split: option.splits
      intro: nth_mem)
  have ds: "new_deposits L (w_bridge (snd s)) (known_txids (service_tables s)) msgs = ?ds"
    unfolding msgs new_deposits_def
    using pays assms(11)
    by (auto simp: map_filter_def comp_def filter_id_conv inscribed_deposit_def deposit_txid_def inscription_common_def)
  let ?rows = "deposit_rows L X clock msgs (service_tables s) (snd s)"
  have "transactions (service_tables s') = transactions (service_tables s) @ ?rows"
    using processed_Ok(1) [OF process_messages_result [OF assms(4,13)] res.disc(1)]
      fold_add_transaction [OF assms(14)] by simp
  moreover have "map tr_l1_tx_mint ?rows = replicate (length taps) (Some (unat amount))"
    using list_all2_lengthD [OF assms(7)]
    by (simp add: deposit_rows_def ds numbered_rows assms(8,9) comp_def inscribed_deposit_def split_def map_replicate_const)
  moreover have "map tr_contract_address ?rows = map (\<lambda>(pk, d, sig, cb). Some (receiver_l2_address d)) ins"
    by (simp add: deposit_rows_def ds numbered_rows comp_def inscribed_deposit_def split_def)
  ultimately show ?thesis by blast
qed

theorem inscriptions_of_one_transaction_each_mint_witness:
  "\<exists>msgs s'. parse_transaction ref_lib (demo_deposit_tx [1, 2]) 7 demo_parser = (Ok msgs, demo_parser)
   \<and> process_messages ref_lib ref_tx_lib demo_clock msgs
       (demo_watch_db [] (replicate 4 False), demo_watch) = (Ok (), s')
   \<and> tx_output (demo_deposit_tx [1, 2]) = [\<lparr>txo_value = 1000, script_pubkey = ref_address_script demo_bridge\<rparr>]
   \<and> map tr_l1_tx_mint (transactions (service_tables s')) = [Some 1000, Some 1000]
   \<and> map tr_contract_address (transactions (service_tables s')) = [Some (replicate 20 1), Some (replicate 20 2)]"
proof -
  let ?s = "(demo_watch_db [] (replicate 4 False), demo_watch)"
  let ?msgs = "map (FullL1ToL2Message \<circ> demo_message_of [1, 2]) [1, 2]"
  obtain s' where run: "process_messages ref_lib ref_tx_lib demo_clock ?msgs ?s = (Ok (), s')"
    using demo_process [of "[1, 2]" "[1, 2]"] by auto
  have inputs: "tx_input (demo_deposit_tx [1, 2])
      = demo_fee_in # map (\<lambda>k. demo_tap_in (L1ToL2Message (demo_receiver k))) [1, 2]"
    by (simp add: demo_deposit_tx_def)
  have bridge: "mp_bridge_address demo_parser = Some (w_bridge (snd ?s))" by (simp add: demo_parser_def)
  have amount: "1000 = bridge_amount ref_lib (Some (w_bridge (snd ?s))) (tx_output (demo_deposit_tx [1, 2]))"
    by (simp add: demo_amount)
  have fresh: "rev (compute_ntxid ref_lib (demo_deposit_tx [1, 2])) \<notin> known_txids (service_tables ?s)"
    by simp
  have hashes: "distinct (map tr_hash (transactions (service_tables ?s) @
      deposit_rows ref_lib ref_tx_lib demo_clock ?msgs (service_tables ?s) (snd ?s)))"
    using demo_hashes [of "demo_message_of [1, 2] 1" "demo_message_of [1, 2] 2"]
      demo_new_deposits [of "[1, 2]" "[1, 2]"]
    by (simp add: deposit_rows_def)
  have pos: "0 < (1000 :: amount)" by simp
  show ?thesis
    using inscriptions_of_one_transaction_each_mint [OF ref_lib_laws(1,5,4,3) inputs demo_fee_sender demo_reveals
      bridge amount pos fresh demo_parses run hashes] run demo_parses [of "[1, 2]"]
    by (intro exI [of _ ?msgs] exI [of _ s'])
      (auto simp: demo_deposit_tx_def demo_inscription_def demo_receiver_def)
qed

text \<open>C27: deposits of a purged account.  When the mempool drops an account, the next synchronisation
  deletes every row of this account that is in the mempool, the rows of deposits included, although
  their operations are still in the mempool's memory: the deposit is gone from the table.\<close>

theorem purged_account_loses_deposit:
  assumes "sync_mempool X ret stashed purged gas_per_pubdata fee_per_gas limit d = (Ok txs, d')"
    and "distinct (map tr_hash (transactions (db_tables d)))"
    and "row = (priority_row X tx h txid)\<lparr>tr_in_mempool := True\<rparr>" "row \<in> set (transactions (db_tables d))"
    and "l1_sender (l1_common_data tx) \<in> set purged - set stashed"
  shows "l1_hash tx \<notin> tr_hash ` set (transactions (db_tables d'))"
proof
  assume "l1_hash tx \<in> tr_hash ` set (transactions (db_tables d'))"
  then obtain r0 where r0: "r0 \<in> set (transactions (db_tables d))" "tr_hash r0 = l1_hash tx"
    "\<not> (tr_in_mempool r0 \<and> tr_initiator_address r0 \<in> set purged - set stashed)"
    using sync_mempool_rows [OF assms(1)] by fastforce
  have row: "tr_hash row = l1_hash tx" "tr_in_mempool row" "tr_initiator_address row = l1_sender (l1_common_data tx)"
    unfolding assms(3) by (simp_all add: priority_row_def Let_def)
  with r0 assms(2,4) have "r0 = row" by (metis distinct_map inj_onD)
  with r0(3) row assms(5) show False by simp
qed

theorem purged_account_loses_deposit_witness:
  "let tx = create_l1_tx_from_message ref_tx_lib 5 (demo_message_of [1] 1) 9;
       row = (priority_row ref_tx_lib tx (l1_eth_block tx) (replicate 32 3))\<lparr>tr_in_mempool := True\<rparr> in
   \<exists>d'. sync_mempool ref_tx_lib id [] [l1_sender (l1_common_data tx)] 0 0 10
       (demo_watch_db [row] [False, False, False]) = (Ok [], d')
     \<and> l1_hash tx \<notin> tr_hash ` set (transactions (db_tables d'))"
proof -
  define tx where "tx = create_l1_tx_from_message ref_tx_lib 5 (demo_message_of [1] 1) 9"
  define row where "row = (priority_row ref_tx_lib tx (l1_eth_block tx) (replicate 32 3))\<lparr>tr_in_mempool := True\<rparr>"
  have account: "tr_in_mempool row" "tr_initiator_address row = l1_sender (l1_common_data tx)"
    by (simp_all add: row_def priority_row_def Let_def)
  let ?d = "demo_watch_db [row] [False, False, False]"
  obtain d' where run: "sync_mempool ref_tx_lib id [] [l1_sender (l1_common_data tx)] 0 0 10 ?d = (Ok [], d')"
    by (simp add: sync_mempool_def io_bind_def guarded_update_def round_trip_def demo_watch_db_def
      set_in_mempool_def update_where_def account select_for_mempool_def update_tables_def sql_limit_def)
  have "distinct (map tr_hash (transactions (db_tables ?d)))" "row \<in> set (transactions (db_tables ?d))"
    "l1_sender (l1_common_data tx) \<in> set [l1_sender (l1_common_data tx)] - set []" by simp_all
  from purged_account_loses_deposit [OF run this(1) row_def this(2,3)] run show ?thesis
    unfolding Let_def tx_def row_def by blast
qed

end
