(* ===== verification/Da_Dal.thy ===== *)
theory Da_Dal
  imports Via_Db
begin

text \<open>
  The queries of the data availability table (\<^verbatim>\<open>core/lib/dal/src/via_data_availability_dal.rs\<close>).
  Its key is the batch number together with the flag of proofs, and every row belongs to a batch.
\<close>

section \<open>Blobs\<close>

record da_blob =
  blob_l1_batch_number :: u32
  blob_blob_id :: bytes
  blob_inclusion_data :: "bytes option"
  blob_sent_at :: nat

definition da_blob_from :: "da_row \<Rightarrow> da_blob" where
  "da_blob_from r = \<lparr>blob_l1_batch_number = da_l1_batch_number r, blob_blob_id = da_blob_id r,
     blob_inclusion_data = da_inclusion_data r, blob_sent_at = da_sent_at r\<rparr>"

record l1_batch_da =
  bda_pubdata :: bytes
  bda_l1_batch_number :: u32

record proof_da =
  pda_proof_blob_url :: bytes
  pda_l1_batch_number :: u32

definition da_key :: "u32 \<Rightarrow> bool \<Rightarrow> da_row \<Rightarrow> bool" where
  "da_key number is_proof r \<longleftrightarrow> da_l1_batch_number r = number \<and> da_is_proof r = is_proof"

definition first_row :: "'a list \<Rightarrow> 'a option" where
  "first_row rows = (case rows of [] \<Rightarrow> None | r # _ \<Rightarrow> Some r)"

text \<open>\<^verbatim>\<open>fetch_one\<close> fails when there is no row.\<close>

definition fetch_one :: "(tables \<Rightarrow> 'a list) \<Rightarrow> 'a query" where
  "fetch_one f = io_bind (select_rows (first_row \<circ> f)) (\<lambda>r.
     case r of Some a \<Rightarrow> io_return a | None \<Rightarrow> io_err RowNotFound)"

section \<open>Writing\<close>

text \<open>\<^verbatim>\<open>INSERT ... ON CONFLICT DO NOTHING\<close>: whether a row was added.\<close>

definition insert_da :: "u32 \<Rightarrow> bool \<Rightarrow> bytes \<Rightarrow> nat \<Rightarrow> bool query" where
  "insert_da number is_proof blob_id sent_at =
     round_trip (\<lambda>d.
       if list_ex (da_key number is_proof) (data_availability (db_tables d)) then (Ok False, d)
       else if \<not> list_ex (\<lambda>b. lb_number b = number) (l1_batches (db_tables d)) then (Err ConstraintError, d)
       else (Ok True, d\<lparr>db_tables := (db_tables d)\<lparr>data_availability :=
         data_availability (db_tables d) @ [\<lparr>da_l1_batch_number = number, da_is_proof = is_proof,
           da_blob_id = blob_id, da_inclusion_data = None, da_sent_at = sent_at\<rparr>]\<rparr>\<rparr>))"

definition insert_l1_batch_da :: "u32 \<Rightarrow> bytes \<Rightarrow> nat \<Rightarrow> unit query" where
  "insert_l1_batch_da number blob_id sent_at =
     io_bind (insert_da number False blob_id sent_at) (\<lambda>inserted.
     if inserted then io_return ()
     else
       io_bind (fetch_one (\<lambda>t. map da_blob_id (filter (da_key number False) (data_availability t)))) (\<lambda>matched.
       if matched \<noteq> blob_id then io_err ConstraintError else io_return ()))"

definition insert_proof_da :: "u32 \<Rightarrow> bytes \<Rightarrow> nat \<Rightarrow> unit query" where
  "insert_proof_da number blob_id sent_at =
     io_bind (insert_da number True blob_id sent_at) (\<lambda>_. io_return ())"

definition awaits_inclusion :: "u32 \<Rightarrow> bool \<Rightarrow> da_row \<Rightarrow> bool" where
  "awaits_inclusion number is_proof r \<longleftrightarrow> da_key number is_proof r \<and> da_inclusion_data r = None"

definition set_inclusion :: "u32 \<Rightarrow> bool \<Rightarrow> bytes \<Rightarrow> tables \<Rightarrow> tables" where
  "set_inclusion number is_proof data t =
     t\<lparr>data_availability := update_where (awaits_inclusion number is_proof)
        (\<lambda>r. r\<lparr>da_inclusion_data := Some data\<rparr>) (data_availability t)\<rparr>"

definition update_inclusion :: "u32 \<Rightarrow> bool \<Rightarrow> bytes \<Rightarrow> bool query" where
  "update_inclusion number is_proof data =
     round_trip (\<lambda>d. (Ok (list_ex (awaits_inclusion number is_proof) (data_availability (db_tables d))),
       d\<lparr>db_tables := set_inclusion number is_proof data (db_tables d)\<rparr>))"

definition save_inclusion_data :: "bool \<Rightarrow> u32 \<Rightarrow> bytes \<Rightarrow> unit query" where
  "save_inclusion_data is_proof number data =
     io_bind (update_inclusion number is_proof data) (\<lambda>updated.
     if updated then io_return ()
     else
       io_bind (fetch_one (\<lambda>t. map da_inclusion_data (filter (da_key number is_proof) (data_availability t))))
         (\<lambda>matched.
       if (case matched of None \<Rightarrow> [] | Some m \<Rightarrow> m) \<noteq> data then io_err ConstraintError else io_return ()))"

definition save_l1_batch_inclusion_data :: "u32 \<Rightarrow> bytes \<Rightarrow> unit query" where
  "save_l1_batch_inclusion_data = save_inclusion_data False"

definition save_proof_inclusion_data :: "u32 \<Rightarrow> bytes \<Rightarrow> unit query" where
  "save_proof_inclusion_data = save_inclusion_data True"

section \<open>Reading\<close>

definition first_awaiting :: "bool \<Rightarrow> tables \<Rightarrow> da_blob option" where
  "first_awaiting is_proof t = map_option da_blob_from (first_row (sort_key da_l1_batch_number
     (filter (\<lambda>r. da_inclusion_data r = None \<and> da_is_proof r = is_proof) (data_availability t))))"

definition get_first_da_blob_awaiting_inclusion :: "da_blob option query" where
  "get_first_da_blob_awaiting_inclusion = select_rows (first_awaiting False)"

definition get_first_proof_blob_awaiting_inclusion :: "da_blob option query" where
  "get_first_proof_blob_awaiting_inclusion = select_rows (first_awaiting True)"

text \<open>A left join gives a row of nulls where nothing matches.\<close>

definition left_join :: "('b \<Rightarrow> bool) \<Rightarrow> 'b list \<Rightarrow> 'b option list" where
  "left_join p rows = (case filter p rows of [] \<Rightarrow> [None] | matched \<Rightarrow> map Some matched)"

text \<open>The condition on \<^verbatim>\<open>is_proof\<close> stands in the second join: with no row of the first, it is unknown
  and nothing matches.\<close>

definition join_batch ::
    "tables \<Rightarrow> l1_batch_row \<Rightarrow> (l1_batch_row \<times> da_row option \<times> batch_inscription_row option) list" where
  "join_batch t b =
     concat (map (\<lambda>a. map (\<lambda>i. (b, a, i))
         (left_join (\<lambda>i. bi_l1_batch_number i = lb_number b
             \<and> (case a of None \<Rightarrow> False | Some r \<Rightarrow> \<not> da_is_proof r)) (batch_inscription t)))
       (left_join (\<lambda>a. da_l1_batch_number a = lb_number b) (data_availability t)))"

definition ready_join ::
    "l1_batch_row \<times> da_row option \<times> batch_inscription_row option \<Rightarrow> bool" where
  "ready_join = (\<lambda>(b, a, i). map_option bi_commit_id i = None \<and> lb_number b \<noteq> 0
     \<and> map_option da_blob_id a = None \<and> lb_pubdata_input b \<noteq> None)"

definition ready_for_dispatch_rows :: "tables \<Rightarrow> l1_batch_row list" where
  "ready_for_dispatch_rows t =
     sort_key lb_number (map fst (filter ready_join (concat (map (join_batch t) (l1_batches t)))))"

definition get_ready_for_da_dispatch_l1_batches :: "i64 \<Rightarrow> l1_batch_da list query" where
  "get_ready_for_da_dispatch_l1_batches limit =
     io_bind (select_rows ready_for_dispatch_rows) (\<lambda>rows.
     io_bind (sql_limit limit rows) (\<lambda>limited.
     io_lift (res_map (\<lambda>b. res_bind (unwrap (lb_pubdata_input b)) (\<lambda>pubdata.
       Ok \<lparr>bda_pubdata = pubdata, bda_l1_batch_number = lb_number b\<rparr>)) limited)))"

definition ready_for_proof_dispatch_rows :: "tables \<Rightarrow> proof_generation_row list" where
  "ready_for_proof_dispatch_rows t =
     sort_key pg_l1_batch_number (filter (\<lambda>p. pg_status p = ''generated'' \<and> pg_proof_blob_url p \<noteq> None
       \<and> list_ex (da_key (pg_l1_batch_number p) False) (data_availability t)
       \<and> \<not> list_ex (da_key (pg_l1_batch_number p) True) (data_availability t)) (proof_generation_details t))"

definition get_ready_for_da_dispatch_proofs :: "i64 \<Rightarrow> proof_da list query" where
  "get_ready_for_da_dispatch_proofs limit =
     io_bind (select_rows ready_for_proof_dispatch_rows) (\<lambda>rows.
     io_bind (sql_limit limit rows) (\<lambda>limited.
     io_lift (res_map (\<lambda>p. res_bind (unwrap (pg_proof_blob_url p)) (\<lambda>url.
       Ok \<lparr>pda_proof_blob_url = url, pda_l1_batch_number = pg_l1_batch_number p\<rparr>)) limited)))"

text \<open>Without an order the rows come as the database scans them, the parameter \<open>scan\<close>.\<close>

definition get_ready_for_dummy_proof_dispatch_l1_batches ::
    "(u32 list \<Rightarrow> u32 list) \<Rightarrow> i64 \<Rightarrow> u32 list query" where
  "get_ready_for_dummy_proof_dispatch_l1_batches scan limit =
     io_bind (select_rows (\<lambda>t. scan (concat (map (\<lambda>a.
         map (\<lambda>b. da_l1_batch_number a)
           (filter (\<lambda>b. lb_number b = da_l1_batch_number a \<and> lb_commitment b \<noteq> None) (l1_batches t)))
       (filter (\<lambda>a. \<not> da_is_proof a
           \<and> \<not> list_ex (da_key (da_l1_batch_number a) True) (data_availability t)) (data_availability t)))))) (\<lambda>rows.
     sql_limit limit rows)"

section \<open>What is ready\<close>

text \<open>The query returns the batches with pubdata and no row in the table; whether a batch is already
  inscribed plays no part.\<close>

definition unpublished :: "tables \<Rightarrow> l1_batch_row \<Rightarrow> bool" where
  "unpublished t b \<longleftrightarrow> lb_number b \<noteq> 0 \<and> lb_pubdata_input b \<noteq> None
     \<and> \<not> list_ex (\<lambda>a. da_l1_batch_number a = lb_number b) (data_availability t)"

lemma left_join_cases:
  "left_join p xs = (if list_ex p xs then map Some (filter p xs) else [None])"
  by (auto simp: left_join_def list_ex_iff filter_empty_conv split: list.splits dest: filter_eq_ConsD)

lemma ready_join_batch: "map fst (filter ready_join (join_batch t b)) = (if unpublished t b then [b] else [])"
proof (cases "list_ex (\<lambda>a. da_l1_batch_number a = lb_number b) (data_availability t)")
  case True
  then have "filter ready_join (join_batch t b) = []"
    by (auto simp: filter_empty_conv join_batch_def ready_join_def left_join_cases)
  then show ?thesis using True by (simp add: unpublished_def)
next
  case False
  then show ?thesis by (simp add: join_batch_def ready_join_def unpublished_def left_join_cases list_ex_iff)
qed

lemma ready_for_dispatch_unpublished:
  "ready_for_dispatch_rows t = sort_key lb_number (filter (unpublished t) (l1_batches t))"
proof -
  have "map fst (filter ready_join (concat (map (join_batch t) bs))) = filter (unpublished t) bs" for bs
    by (induction bs) (simp_all add: ready_join_batch)
  then show ?thesis by (simp add: ready_for_dispatch_rows_def)
qed

end
