(* ===== verification/Da_Client.thy ===== *)
theory Da_Client
  imports Via_Prelude
begin

text \<open>
  Clients of a data availability layer (\<^verbatim>\<open>core/lib/da_client/src\<close>) and the one for Celestia
  (\<^verbatim>\<open>core/lib/via_da_clients/src/celestia\<close>), over the calls of the Celestia crates.
\<close>

section \<open>The interface of clients\<close>

record da_error =
  is_retriable :: bool

record dispatch_response =
  dr_blob_id :: bytes

record inclusion_data =
  inc_data :: bytes

record 'w da_client =
  dispatch_blob :: "u32 \<Rightarrow> bytes \<Rightarrow> ('w, da_error, dispatch_response) io"
  get_inclusion_data :: "bytes \<Rightarrow> ('w, da_error, inclusion_data option) io"
  blob_size_limit :: "nat option"

text \<open>What a client promises: a blob it published reads back as long as the layer keeps it.\<close>

locale da_layer =
  fixes client :: "'w da_client" and kept :: "bytes \<Rightarrow> bytes \<Rightarrow> 'w \<Rightarrow> bool"
  assumes published_kept: "dispatch_blob client k data w = (Ok resp, w1) \<Longrightarrow> kept (dr_blob_id resp) data w1"
    and kept_fetched: "kept blob_id data w \<Longrightarrow> get_inclusion_data client blob_id w = (Ok x, w1) \<Longrightarrow>
      x = Some \<lparr>inc_data = data\<rparr>"

section \<open>Celestia\<close>

text \<open>What the client uses of the Celestia crates and of \<^verbatim>\<open>hex\<close>: a blob is its namespace and its
  data, a commitment its 32 bytes.\<close>

record celestia_blob =
  cb_namespace :: bytes
  cb_data :: bytes

record 'w celestia_ops =
  client_new :: "bytes \<Rightarrow> bytes \<Rightarrow> ('w, unit, unit) io"
  p2p_info :: "('w, unit, unit) io"
  namespace_new_v0 :: "bytes \<Rightarrow> bytes option"
  blob_new :: "bytes \<Rightarrow> bytes \<Rightarrow> celestia_blob option"
  commitment_from_blob :: "bytes \<Rightarrow> u8 \<Rightarrow> bytes \<Rightarrow> bytes option"
  blob_submit :: "celestia_blob list \<Rightarrow> ('w, unit, u64) io"
  blob_get :: "u64 \<Rightarrow> bytes \<Rightarrow> bytes \<Rightarrow> ('w, unit, celestia_blob) io"
  share_version_zero :: u8
  hex_to_string :: "bytes \<Rightarrow> bytes"
  hex_from_string :: "bytes \<Rightarrow> bytes option"

record celestia_config =
  api_node_url :: bytes
  auth_token :: bytes
  cfg_blob_size_limit :: nat

definition da_fatal :: da_error where "da_fatal = \<lparr>is_retriable = False\<rparr>"

definition da_retriable :: da_error where "da_retriable = \<lparr>is_retriable = True\<rparr>"

definition via_namespace :: bytes where
  "via_namespace = [0x56, 0x49, 0x41, 0, 0, 0, 0, 0]"

text \<open>\<^verbatim>\<open>CelestiaClient::new\<close>: the namespace and the limit of the client.\<close>

definition celestia_client_new ::
    "'w celestia_ops \<Rightarrow> celestia_config \<Rightarrow> ('w, unit, bytes \<times> nat) io" where
  "celestia_client_new C conf =
     io_bind (client_new C (api_node_url conf) (auth_token conf)) (\<lambda>_.
     io_bind (p2p_info C) (\<lambda>_.
     io_bind (io_lift (res_of_option () (namespace_new_v0 C via_namespace))) (\<lambda>namespace.
     io_return (namespace, cfg_blob_size_limit conf))))"

definition celestia_dispatch_blob ::
    "'w celestia_ops \<Rightarrow> bytes \<Rightarrow> u32 \<Rightarrow> bytes \<Rightarrow> ('w, da_error, dispatch_response) io" where
  "celestia_dispatch_blob C namespace batch_number data =
     io_bind (io_lift (res_of_option da_fatal (blob_new C namespace data))) (\<lambda>blob.
     io_bind (io_lift (res_of_option da_fatal (commitment_from_blob C namespace (share_version_zero C) data)))
       (\<lambda>commitment.
     io_bind (io_map_err (\<lambda>_. da_retriable) (blob_submit C [blob])) (\<lambda>block_height.
     io_return \<lparr>dr_blob_id = hex_to_string C (u64_to_be_bytes block_height @ commitment)\<rparr>)))"

definition celestia_get_inclusion_data ::
    "'w celestia_ops \<Rightarrow> bytes \<Rightarrow> bytes \<Rightarrow> ('w, da_error, inclusion_data option) io" where
  "celestia_get_inclusion_data C namespace blob_id =
     io_bind (io_lift (res_of_option da_fatal (hex_from_string C blob_id))) (\<lambda>blob_id_bytes.
     if length blob_id_bytes < 40 then io_panic
     else
       let block_height = of_nat (be_nat (take 8 blob_id_bytes));
           commitment = take 32 (drop 8 blob_id_bytes)
       in
       io_bind (io_map_err (\<lambda>_. da_retriable) (blob_get C block_height namespace commitment)) (\<lambda>blob.
       io_return (Some \<lparr>inc_data = cb_data blob\<rparr>)))"

definition celestia_client :: "'w celestia_ops \<Rightarrow> bytes \<Rightarrow> nat \<Rightarrow> 'w da_client" where
  "celestia_client C namespace limit =
     \<lparr>dispatch_blob = celestia_dispatch_blob C namespace,
      get_inclusion_data = celestia_get_inclusion_data C namespace,
      blob_size_limit = Some limit\<rparr>"

section \<open>Reading a blob back\<close>

text \<open>Documented behaviour of the crates: a blob holds the data it is made of, a commitment has 32
  bytes, hexadecimal text reads back, and the node returns a blob that it has included at a height
  under its commitment.  \<open>stored\<close> are the blobs that the node has included.\<close>

definition celestia_ok ::
    "'w celestia_ops \<Rightarrow> ('w \<Rightarrow> (u64 \<times> bytes \<times> bytes \<times> celestia_blob) set) \<Rightarrow> bool" where
  "celestia_ok C stored \<longleftrightarrow>
     (\<forall>n d b. blob_new C n d = Some b \<longrightarrow> b = \<lparr>cb_namespace = n, cb_data = d\<rparr>)
   \<and> (\<forall>n v d c. commitment_from_blob C n v d = Some c \<longrightarrow> length c = 32)
   \<and> (\<forall>b. hex_from_string C (hex_to_string C b) = Some b)
   \<and> (\<forall>b w h w' c. blob_submit C [b] w = (Ok h, w') \<longrightarrow>
        commitment_from_blob C (cb_namespace b) (share_version_zero C) (cb_data b) = Some c \<longrightarrow>
        (h, cb_namespace b, c, b) \<in> stored w')
   \<and> (\<forall>h n c b w r w'. (h, n, c, b) \<in> stored w \<longrightarrow> blob_get C h n c w = (r, w') \<longrightarrow>
        is_Ok r \<longrightarrow> r = Ok b)"

definition celestia_kept ::
    "'w celestia_ops \<Rightarrow> ('w \<Rightarrow> (u64 \<times> bytes \<times> bytes \<times> celestia_blob) set) \<Rightarrow> bytes \<Rightarrow> bytes \<Rightarrow> bytes \<Rightarrow> 'w \<Rightarrow> bool" where
  "celestia_kept C stored n blob_id data w \<longleftrightarrow>
     (\<exists>h c. blob_id = hex_to_string C (u64_to_be_bytes h @ c) \<and> length c = 32
        \<and> (h, n, c, \<lparr>cb_namespace = n, cb_data = data\<rparr>) \<in> stored w)"

lemma celestia_publishes:
  assumes ok: "celestia_ok C stored" and dispatch: "celestia_dispatch_blob C n k data w = (Ok resp, w1)"
  shows "celestia_kept C stored n (dr_blob_id resp) data w1"
proof -
  obtain c h where c: "commitment_from_blob C n (share_version_zero C) data = Some c"
    and submit: "blob_submit C [\<lparr>cb_namespace = n, cb_data = data\<rparr>] w = (Ok h, w1)"
    and id: "dr_blob_id resp = hex_to_string C (u64_to_be_bytes h @ c)"
    using dispatch ok
    by (auto simp: celestia_dispatch_blob_def io_bind_Ok_iff io_map_err_Ok_iff celestia_ok_def)
  have "length c = 32" using c ok by (auto simp: celestia_ok_def)
  moreover have "(h, n, c, \<lparr>cb_namespace = n, cb_data = data\<rparr>) \<in> stored w1"
    using ok submit c unfolding celestia_ok_def by fastforce
  ultimately show ?thesis using id by (auto simp: celestia_kept_def)
qed

lemma celestia_fetches:
  assumes ok: "celestia_ok C stored" and kept: "celestia_kept C stored n blob_id data w"
    and get: "celestia_get_inclusion_data C n blob_id w = (Ok x, w1)"
  shows "x = Some \<lparr>inc_data = data\<rparr>"
proof -
  obtain h c where id: "blob_id = hex_to_string C (u64_to_be_bytes h @ c)" and len: "length c = 32"
    and mem: "(h, n, c, \<lparr>cb_namespace = n, cb_data = data\<rparr>) \<in> stored w"
    using kept by (auto simp: celestia_kept_def)
  have h: "of_nat (be_nat (u64_to_be_bytes h)) = h"
    using unsigned_less [of h, where 'a = nat] by (simp add: u64_to_be_bytes_def be_nat_be_bytes)
  have l8: "length (u64_to_be_bytes h) = 8" by (simp add: u64_to_be_bytes_def)
  obtain b where b: "blob_get C h n c w = (Ok b, w1)" "x = Some \<lparr>inc_data = cb_data b\<rparr>"
    using get ok len h l8
    by (auto simp: celestia_get_inclusion_data_def id celestia_ok_def io_bind_Ok_iff io_map_err_Ok_iff Let_def)
  have "b = \<lparr>cb_namespace = n, cb_data = data\<rparr>"
    using ok mem b(1) unfolding celestia_ok_def by (metis res.disc(1) res.inject(1))
  then show ?thesis using b(2) by simp
qed

lemma celestia_da_layer:
  assumes "celestia_ok C stored"
  shows "da_layer (celestia_client C n limit) (celestia_kept C stored n)"
  by unfold_locales (auto simp: celestia_client_def intro: celestia_publishes [OF assms] dest: celestia_fetches [OF assms])

end
