(* ===== verification/Da_Dispatcher.thy ===== *)
theory Da_Dispatcher
  imports Da_Dal Da_Client
begin

text \<open>
  The data availability dispatcher (\<^verbatim>\<open>core/node/via_da_dispatcher/src/da_dispatcher.rs\<close>): it sends
  the pubdata of batches to the data availability layer and saves the inclusion data.  A call that is
  retried may never return, so a computation here yields no outcome when it diverges.
\<close>

section \<open>Configuration\<close>

record da_dispatcher_config =
  cfg_max_rows_to_dispatch :: "u32 option"
  cfg_max_retries :: "u16 option"
  cfg_use_dummy_inclusion_data :: "bool option"

definition max_rows_to_dispatch :: "da_dispatcher_config \<Rightarrow> u32" where
  "max_rows_to_dispatch config = (case cfg_max_rows_to_dispatch config of None \<Rightarrow> 100 | Some n \<Rightarrow> n)"

definition max_retries :: "da_dispatcher_config \<Rightarrow> u16" where
  "max_retries config = (case cfg_max_retries config of None \<Rightarrow> 5 | Some n \<Rightarrow> n)"

definition use_dummy_inclusion_data :: "da_dispatcher_config \<Rightarrow> bool" where
  "use_dummy_inclusion_data config =
     (case cfg_use_dummy_inclusion_data config of None \<Rightarrow> False | Some b \<Rightarrow> b)"

section \<open>Computations that may diverge\<close>

type_synonym ('s, 'e, 'a) loop_io = "'s \<Rightarrow> (('e, 'a) res \<times> 's) option"

definition lp_io :: "('s, 'e, 'a) io \<Rightarrow> ('s, 'e, 'a) loop_io" where
  "lp_io m s = Some (m s)"

definition lp_bind :: "('s, 'e, 'a) loop_io \<Rightarrow> ('a \<Rightarrow> ('s, 'e, 'b) loop_io) \<Rightarrow> ('s, 'e, 'b) loop_io" where
  "lp_bind m f s = (case m s of
      None \<Rightarrow> None
    | Some (Ok a, s') \<Rightarrow> f a s'
    | Some (Err e, s') \<Rightarrow> Some (Err e, s')
    | Some (Panic, s') \<Rightarrow> Some (Panic, s'))"

fun lp_for :: "'b list \<Rightarrow> ('b \<Rightarrow> ('s, 'e, unit) loop_io) \<Rightarrow> ('s, 'e, unit) loop_io" where
  "lp_for [] f = lp_io (io_return ())"
| "lp_for (x # xs) f = lp_bind (f x) (\<lambda>_. lp_for xs f)"

section \<open>Retries\<close>

text \<open>The loop of \<^verbatim>\<open>retry\<close>: the counter has 16 bits and wraps, the pause doubles up to 128 seconds.
  \<open>sleep\<close> is what happens during a pause, whose random part is not fixed.\<close>

partial_function (option) retry_loop ::
    "u16 \<Rightarrow> (u64 \<Rightarrow> 's \<Rightarrow> 's) \<Rightarrow> ('s, da_error, 'a) io \<Rightarrow> u16 \<Rightarrow> u64 \<Rightarrow> ('s, da_error, 'a) loop_io" where
  "retry_loop limit sleep f retries backoff_secs s =
     (case f s of
        (Ok a, s') \<Rightarrow> Some (Ok a, s')
      | (Panic, s') \<Rightarrow> Some (Panic, s')
      | (Err e, s') \<Rightarrow>
          if \<not> is_retriable e \<or> limit < retries then Some (Err e, s')
          else retry_loop limit sleep f (retries + 1) (min (backoff_secs * 2) 128) (sleep backoff_secs s'))"

definition retry ::
    "u16 \<Rightarrow> (u64 \<Rightarrow> 's \<Rightarrow> 's) \<Rightarrow> ('s, da_error, 'a) io \<Rightarrow> ('s, da_error, 'a) loop_io" where
  "retry limit sleep f = retry_loop limit sleep f 1 1"

section \<open>Dispatch\<close>

datatype dispatcher_error = DispatchDbError db_error | DispatchDaError da_error

type_synonym 'w dispatcher = "db \<times> 'w"

definition on_da :: "('w, da_error, 'a) io \<Rightarrow> ('w dispatcher, dispatcher_error, 'a) io" where
  "on_da m = io_zoom snd (\<lambda>w s. (fst s, w)) (io_map_err DispatchDaError m)"

definition lp_on_da :: "('w, da_error, 'a) loop_io \<Rightarrow> ('w dispatcher, dispatcher_error, 'a) loop_io" where
  "lp_on_da m s = map_option (\<lambda>(r, w). (res_map_err DispatchDaError r, fst s, w)) (m (snd s))"

text \<open>One batch: \<open>sent_at\<close> is the reading of the clock.\<close>

definition dispatch_batch ::
    "da_dispatcher_config \<Rightarrow> (u64 \<Rightarrow> 'w \<Rightarrow> 'w) \<Rightarrow> 'w da_client \<Rightarrow> (u32 \<Rightarrow> nat) \<Rightarrow> l1_batch_da \<Rightarrow>
       ('w dispatcher, dispatcher_error, unit) loop_io" where
  "dispatch_batch config sleep client sent_at batch =
     lp_bind (lp_on_da (retry (max_retries config) sleep
       (dispatch_blob client (bda_l1_batch_number batch) (bda_pubdata batch)))) (\<lambda>response.
     lp_io (on_db DispatchDbError (insert_l1_batch_da (bda_l1_batch_number batch) (dr_blob_id response)
       (sent_at (bda_l1_batch_number batch)))))"

definition dispatch ::
    "da_dispatcher_config \<Rightarrow> (u64 \<Rightarrow> 'w \<Rightarrow> 'w) \<Rightarrow> 'w da_client \<Rightarrow> (u32 \<Rightarrow> nat) \<Rightarrow>
       ('w dispatcher, dispatcher_error, unit) loop_io" where
  "dispatch config sleep client sent_at =
     lp_bind (lp_io (on_db DispatchDbError
       (get_ready_for_da_dispatch_l1_batches (ucast (max_rows_to_dispatch config))))) (\<lambda>batches.
     lp_for batches (dispatch_batch config sleep client sent_at))"

section \<open>Inclusion\<close>

text \<open>The client is asked for the inclusion data when the configuration asks for dummy data.\<close>

definition inclusion_of ::
    "da_dispatcher_config \<Rightarrow> 'w da_client \<Rightarrow> bytes \<Rightarrow> ('w dispatcher, dispatcher_error, inclusion_data option) io" where
  "inclusion_of config client blob_id =
     (if use_dummy_inclusion_data config
      then on_da (get_inclusion_data client blob_id)
      else io_return (Some \<lparr>inc_data = []\<rparr>))"

definition poll_for_inclusion_l1_batch ::
    "da_dispatcher_config \<Rightarrow> 'w da_client \<Rightarrow> ('w dispatcher, dispatcher_error, unit) io" where
  "poll_for_inclusion_l1_batch config client =
     io_bind (on_db DispatchDbError get_first_da_blob_awaiting_inclusion) (\<lambda>blob_info.
     case blob_info of
       None \<Rightarrow> io_return ()
     | Some info \<Rightarrow>
         io_bind (inclusion_of config client (blob_blob_id info)) (\<lambda>data.
         case data of
           None \<Rightarrow> io_return ()
         | Some data \<Rightarrow> on_db DispatchDbError
             (save_l1_batch_inclusion_data (blob_l1_batch_number info) (inc_data data))))"

definition poll_for_inclusion_proof ::
    "da_dispatcher_config \<Rightarrow> 'w da_client \<Rightarrow> ('w dispatcher, dispatcher_error, unit) io" where
  "poll_for_inclusion_proof config client =
     io_bind (on_db DispatchDbError get_first_proof_blob_awaiting_inclusion) (\<lambda>proof_info.
     case proof_info of
       None \<Rightarrow> io_return ()
     | Some info \<Rightarrow>
         io_bind (inclusion_of config client (blob_blob_id info)) (\<lambda>data.
         case data of
           None \<Rightarrow> io_return ()
         | Some data \<Rightarrow> on_db DispatchDbError
             (save_proof_inclusion_data (blob_l1_batch_number info) (inc_data data))))"

definition poll_for_inclusion ::
    "da_dispatcher_config \<Rightarrow> 'w da_client \<Rightarrow> ('w dispatcher, dispatcher_error, unit) io" where
  "poll_for_inclusion config client =
     io_bind (poll_for_inclusion_l1_batch config client) (\<lambda>_. poll_for_inclusion_proof config client)"

end
