(* ===== verification/Da_Facts.thy ===== *)
theory Da_Facts
  imports Da_Dispatcher
begin

text \<open>
  Facts about the dispatcher: when the retries end, what a call that was retried returns, and what
  the dispatch of batches writes.
\<close>

section \<open>Retries\<close>

lemma u16_step:
  assumes "unat (limit :: u16) < 65535" "unat r \<le> Suc (unat limit)" "\<not> limit < r"
  shows "unat (r + 1) = Suc (unat r)" "unat r \<le> unat limit"
proof -
  show "unat r \<le> unat limit" using assms(3) by (simp add: word_less_nat_alt)
  then have "unat r + 1 < 2 ^ 16" using assms(1) by simp
  then show "unat (r + 1) = Suc (unat r)" by (simp add: unat_word_ariths)
qed

lemma retry_loop_returns:
  assumes "unat limit < 65535"
  shows "unat r \<le> Suc (unat limit) \<Longrightarrow> \<exists>x. retry_loop limit sleep f r b s = Some x"
proof (induction "Suc (unat limit) - unat r" arbitrary: r b s rule: less_induct)
  case less
  show ?case
  proof (cases "f s")
    case (Pair x s')
    show ?thesis
    proof (cases "\<exists>e. x = Err e \<and> is_retriable e \<and> \<not> limit < r")
      case True
      then obtain e where e: "x = Err e" "is_retriable e" "\<not> limit < r" by blast
      note step = u16_step [OF assms less.prems e(3)]
      have "\<exists>y. retry_loop limit sleep f (r + 1) (min (b * 2) 128) (sleep b s') = Some y"
        by (rule less.hyps) (use step in simp_all)
      then show ?thesis using Pair e by (subst retry_loop.simps) simp
    next
      case False
      then show ?thesis
        using Pair by (subst retry_loop.simps) (auto split: res.splits)
    qed
  qed
qed

lemma retry_returns: "unat limit < 65535 \<Longrightarrow> \<exists>x. retry limit sleep f s = Some x"
  unfolding retry_def by (rule retry_loop_returns) simp_all

text \<open>A value that is returned was returned by an attempt.\<close>

lemma retry_loop_result:
  assumes "retry_loop limit sleep f r b s = Some x"
  shows "\<exists>u. f u = x"
proof (rule retry_loop.raw_induct [where P = "\<lambda>limit sleep f r b s x. \<exists>u. f u = x", OF _ assms])
  fix rec limit sleep f r b s x
  assume "\<And>limit sleep f r b s x. rec limit sleep f r b s = Some x \<Longrightarrow> \<exists>u. f u = x"
    and "(case f s of (Ok a, s') \<Rightarrow> Some (Ok a, s')
      | (Err e, s') \<Rightarrow> if \<not> is_retriable e \<or> limit < r then Some (Err e, s')
          else rec limit sleep f (r + 1) (min (b * 2) 128) (sleep b s')
      | (Panic, s') \<Rightarrow> Some (Panic, s')) = Some x"
  then show "\<exists>u. f u = x" by (cases "f s") (auto split: res.splits if_splits)
qed

text \<open>With the greatest limit the counter never exceeds it: a call that always fails in this way is
  retried for ever.\<close>

lemma retry_diverges:
  assumes "\<And>u. \<exists>e u'. f u = (Err e, u') \<and> is_retriable e"
  shows "retry 65535 sleep f s = None"
proof (cases "retry 65535 sleep f s")
  case (Some y)
  let ?P = "\<lambda>(limit :: u16) (sleep :: u64 \<Rightarrow> 'a \<Rightarrow> 'a) f (r :: u16) (b :: u64) (s :: 'a) x.
    limit = 65535 \<longrightarrow> (\<forall>u. \<exists>e u'. f u = (Err e, u') \<and> is_retriable e) \<longrightarrow> False"
  have "?P 65535 sleep f 1 1 s y"
  proof (rule retry_loop.raw_induct [where P = ?P, OF _ Some [unfolded retry_def]], intro impI)
    fix rec sleep f s x and limit r :: u16 and b :: u64
    assume rec: "\<And>limit sleep f r b s x. rec limit sleep f r b s = Some x \<Longrightarrow> ?P limit sleep f r b s x"
      and run: "(case f s of (Ok a, s') \<Rightarrow> Some (Ok a, s')
        | (Err e, s') \<Rightarrow> if \<not> is_retriable e \<or> limit < r then Some (Err e, s')
            else rec limit sleep f (r + 1) (min (b * 2) 128) (sleep b s')
        | (Panic, s') \<Rightarrow> Some (Panic, s')) = Some x"
      and limit: "limit = 65535" and fails: "\<forall>u. \<exists>e u'. f u = (Err e, u') \<and> is_retriable e"
    obtain e s' where f: "f s = (Err e, s')" "is_retriable e" using fails by blast
    have "unat r \<le> 65535" using unsigned_less [of r, where 'a = nat] by simp
    then have "\<not> limit < r" using limit by (simp add: word_less_nat_alt)
    then have "rec limit sleep f (r + 1) (min (b * 2) 128) (sleep b s') = Some x" using run f by simp
    from rec [OF this] show False using limit fails by blast
  qed
  then show ?thesis using assms by blast
qed

section \<open>Dispatch\<close>

definition da_row_of :: "(u32 \<Rightarrow> nat) \<Rightarrow> u32 \<Rightarrow> bytes \<Rightarrow> da_row" where
  "da_row_of sent_at n blob_id = \<lparr>da_l1_batch_number = n, da_is_proof = False, da_blob_id = blob_id,
     da_inclusion_data = None, da_sent_at = sent_at n\<rparr>"

definition add_da_rows :: "da_row list \<Rightarrow> tables \<Rightarrow> tables" where
  "add_da_rows rows t = t\<lparr>data_availability := data_availability t @ rows\<rparr>"

lemma add_da_rows_simps [simp]:
  "add_da_rows [] t = t"
  "add_da_rows rows' (add_da_rows rows t) = add_da_rows (rows @ rows') t"
  "data_availability (add_da_rows rows t) = data_availability t @ rows"
  "l1_batches (add_da_rows rows t) = l1_batches t"
  by (simp_all add: add_da_rows_def)

text \<open>The response came from an attempt to send the data of the batch.\<close>

definition published :: "'w da_client \<Rightarrow> l1_batch_da \<Rightarrow> bytes \<Rightarrow> bool" where
  "published client b blob_id \<longleftrightarrow>
     (\<exists>w w'. dispatch_blob client (bda_l1_batch_number b) (bda_pubdata b) w = (Ok \<lparr>dr_blob_id = blob_id\<rparr>, w'))"

lemma insert_da_batch_result:
  assumes "on_db g (insert_l1_batch_da n blob_id at) s = (r, s')"
    and "\<not> list_ex (da_key n False) (data_availability (service_tables s))"
    and "list_ex (\<lambda>b. lb_number b = n) (l1_batches (service_tables s))"
  shows "service_tables s' = (if is_Ok r then add_da_rows [\<lparr>da_l1_batch_number = n, da_is_proof = False,
      da_blob_id = blob_id, da_inclusion_data = None, da_sent_at = at\<rparr>] (service_tables s) else service_tables s)"
  using assms
  by (cases s) (auto simp: on_db_def io_zoom_def io_map_err_def insert_l1_batch_da_def insert_da_def round_trip_def
    io_bind_def add_da_rows_def split: prod.splits list.splits bool.splits if_splits)

lemma dispatch_batch_result:
  assumes limit: "unat (max_retries config) < 65535"
    and new: "\<not> list_ex (da_key (bda_l1_batch_number b) False) (data_availability (service_tables s))"
    and batch: "list_ex (\<lambda>x. lb_number x = bda_l1_batch_number b) (l1_batches (service_tables s))"
  obtains r s' where "dispatch_batch config sleep client sent_at b s = Some (r, s')"
    "r = Ok () \<longrightarrow> (\<exists>blob_id. published client b blob_id \<and> service_tables s' =
       add_da_rows [da_row_of sent_at (bda_l1_batch_number b) blob_id] (service_tables s))"
    "r \<noteq> Ok () \<longrightarrow> service_tables s' = service_tables s"
proof -
  let ?f = "dispatch_blob client (bda_l1_batch_number b) (bda_pubdata b)"
  obtain x w where x: "retry (max_retries config) sleep ?f (snd s) = Some (x, w)"
    using retry_returns [OF limit, of sleep ?f "snd s"] by auto
  obtain u where u: "?f u = (x, w)" using retry_loop_result [OF x [unfolded retry_def]] by blast
  show thesis
  proof (cases x)
    case (Ok response)
    obtain r s' where ins: "on_db DispatchDbError (insert_l1_batch_da (bda_l1_batch_number b) (dr_blob_id response)
        (sent_at (bda_l1_batch_number b))) (fst s, w) = (r, s')" using prod.exhaust by blast
    have "published client b (dr_blob_id response)" using u Ok by (cases response) (auto simp: published_def)
    moreover have "dispatch_batch config sleep client sent_at b s = Some (r, s')"
      using x Ok ins by (simp add: dispatch_batch_def lp_bind_def lp_on_da_def lp_io_def)
    moreover have "service_tables s' = (if is_Ok r then add_da_rows [da_row_of sent_at (bda_l1_batch_number b)
        (dr_blob_id response)] (service_tables s) else service_tables s)"
      using insert_da_batch_result [OF ins] new batch by (simp add: da_row_of_def)
    ultimately show thesis using that by (cases r) auto
  qed (use x that in \<open>simp_all add: dispatch_batch_def lp_bind_def lp_on_da_def\<close>)
qed

definition recorded :: "(u32 \<Rightarrow> nat) \<Rightarrow> l1_batch_da list \<Rightarrow> bytes list \<Rightarrow> da_row list" where
  "recorded sent_at bs ids = map2 (\<lambda>b blob_id. da_row_of sent_at (bda_l1_batch_number b) blob_id) bs ids"

definition dispatchable :: "tables \<Rightarrow> l1_batch_da list \<Rightarrow> bool" where
  "dispatchable t bs \<longleftrightarrow> distinct (map bda_l1_batch_number bs)
     \<and> (\<forall>b \<in> set bs. \<not> list_ex (da_key (bda_l1_batch_number b) False) (data_availability t)
          \<and> list_ex (\<lambda>x. lb_number x = bda_l1_batch_number b) (l1_batches t))"

lemma dispatchable_step:
  assumes "dispatchable t (b # bs)"
  shows "dispatchable (add_da_rows [da_row_of sent_at (bda_l1_batch_number b) blob_id] t) bs"
  using assms by (auto simp: dispatchable_def da_key_def da_row_of_def)

text \<open>The loop over the batches returns; the first ones are recorded, all of them when it succeeds.\<close>

lemma dispatch_loop_result:
  assumes limit: "unat (max_retries config) < 65535"
  shows "dispatchable (service_tables s) bs \<Longrightarrow>
    \<exists>r s' k ids. lp_for bs (dispatch_batch config sleep client sent_at) s = Some (r, s')
      \<and> k \<le> length bs \<and> (r = Ok () \<longrightarrow> k = length bs) \<and> list_all2 (published client) (take k bs) ids
      \<and> service_tables s' = add_da_rows (recorded sent_at (take k bs) ids) (service_tables s)"
proof (induction bs arbitrary: s)
  case Nil
  then show ?case by (auto simp: lp_io_def recorded_def)
next
  case (Cons b bs)
  have "\<not> list_ex (da_key (bda_l1_batch_number b) False) (data_availability (service_tables s))"
    "list_ex (\<lambda>x. lb_number x = bda_l1_batch_number b) (l1_batches (service_tables s))"
    using Cons.prems by (simp_all add: dispatchable_def)
  then obtain r s1 where one: "dispatch_batch config sleep client sent_at b s = Some (r, s1)"
    "r = Ok () \<longrightarrow> (\<exists>blob_id. published client b blob_id \<and> service_tables s1 =
       add_da_rows [da_row_of sent_at (bda_l1_batch_number b) blob_id] (service_tables s))"
    "r \<noteq> Ok () \<longrightarrow> service_tables s1 = service_tables s"
    by (rule dispatch_batch_result [OF limit])
  show ?case
  proof (cases "r = Ok ()")
    case True
    then obtain blob_id where b: "published client b blob_id" "service_tables s1 =
        add_da_rows [da_row_of sent_at (bda_l1_batch_number b) blob_id] (service_tables s)" using one(2) by blast
    obtain r' s' k ids where rest: "lp_for bs (dispatch_batch config sleep client sent_at) s1 = Some (r', s')"
      "k \<le> length bs" "r' = Ok () \<longrightarrow> k = length bs" "list_all2 (published client) (take k bs) ids"
      "service_tables s' = add_da_rows (recorded sent_at (take k bs) ids) (service_tables s1)"
      using Cons.IH [of s1] dispatchable_step [OF Cons.prems] b(2) by metis
    show ?thesis
      using one(1) True b rest
      by (intro exI [of _ r'] exI [of _ s'] exI [of _ "Suc k"] exI [of _ "blob_id # ids"])
        (simp add: lp_bind_def recorded_def)
  next
    case False
    then show ?thesis
      using one
      by (intro exI [of _ r] exI [of _ s1] exI [of _ 0] exI [of _ "[]"])
        (auto simp: lp_bind_def recorded_def split: res.splits)
  qed
qed

text \<open>The batches that a dispatch starts from.\<close>

definition dispatch_batches :: "da_dispatcher_config \<Rightarrow> tables \<Rightarrow> l1_batch_row list" where
  "dispatch_batches config t = take (unat (max_rows_to_dispatch config))
     (sort_key lb_number (filter (unpublished t) (l1_batches t)))"

definition batch_da_of :: "l1_batch_row \<Rightarrow> l1_batch_da" where
  "batch_da_of b = \<lparr>bda_pubdata = the (lb_pubdata_input b), bda_l1_batch_number = lb_number b\<rparr>"

lemma sint_ucast_u32: "sint (ucast (n :: u32) :: i64) = int (unat n)"
proof -
  have "unat n < 2 ^ 32" using unsigned_less [of n, where 'a = nat] by simp
  moreover from this have "unat (ucast n :: i64) = unat n"
    by (simp add: unsigned_ucast_eq unsigned_take_bit_eq take_bit_nat_eq_self)
  ultimately show ?thesis by (simp add: sint_small)
qed

lemma dispatch_batches_unpublished: "b \<in> set (dispatch_batches config t) \<Longrightarrow> unpublished t b \<and> b \<in> set (l1_batches t)"
  by (auto simp: dispatch_batches_def dest: in_set_takeD)

lemma get_ready_result:
  assumes "on_db g (get_ready_for_da_dispatch_l1_batches (ucast (max_rows_to_dispatch config))) s = (r, s')"
  shows "service_tables s' = service_tables s" "snd s' = snd s"
    "r = Ok (map batch_da_of (dispatch_batches config (service_tables s))) \<or> (\<exists>e. r = Err e)"
proof -
  let ?bs = "dispatch_batches config (service_tables s)"
  have "res_map (\<lambda>b. res_bind (unwrap (lb_pubdata_input b)) (\<lambda>pubdata.
      Ok \<lparr>bda_pubdata = pubdata, bda_l1_batch_number = lb_number b\<rparr>)) ?bs = Ok (map batch_da_of ?bs)"
    by (rule res_map_Ok_all) (auto simp: batch_da_of_def unpublished_def dest!: dispatch_batches_unpublished)
  then show "service_tables s' = service_tables s" "snd s' = snd s"
    "r = Ok (map batch_da_of ?bs) \<or> (\<exists>e. r = Err e)"
    using assms
    by (cases s; auto simp: on_db_def io_zoom_def io_map_err_def get_ready_for_da_dispatch_l1_batches_def io_bind_def
      select_rows_def round_trip_def sql_limit_def sint_ucast_u32 ready_for_dispatch_unpublished dispatch_batches_def
      split: prod.splits list.splits bool.splits if_splits)+
qed

lemma dispatch_batches_dispatchable:
  assumes "distinct (map lb_number (l1_batches t))"
  shows "dispatchable t (map batch_da_of (dispatch_batches config t))"
proof -
  have "distinct (map lb_number (sort_key lb_number (filter (unpublished t) (l1_batches t))))"
    using assms by (simp add: distinct_map inj_on_def)
  then have "distinct (map lb_number (dispatch_batches config t))"
    unfolding dispatch_batches_def take_map [symmetric] by (rule distinct_take)
  moreover have "\<not> list_ex (da_key (lb_number b) False) (data_availability t)
      \<and> list_ex (\<lambda>x. lb_number x = lb_number b) (l1_batches t)" if "b \<in> set (dispatch_batches config t)" for b
    using dispatch_batches_unpublished [OF that] by (auto simp: unpublished_def da_key_def list_ex_iff)
  ultimately show ?thesis by (simp add: dispatchable_def batch_da_of_def comp_def)
qed

section \<open>Inclusion\<close>

lemma first_awaiting_row:
  assumes "first_awaiting p t = Some info"
  shows "\<exists>r \<in> set (data_availability t). awaits_inclusion (blob_l1_batch_number info) p r
    \<and> da_blob_id r = blob_blob_id info"
proof -
  let ?rows = "sort_key da_l1_batch_number
     (filter (\<lambda>r. da_inclusion_data r = None \<and> da_is_proof r = p) (data_availability t))"
  obtain r rs where rows: "?rows = r # rs" and info: "info = da_blob_from r"
    using assms by (auto simp: first_awaiting_def first_row_def split: list.splits)
  have "r \<in> set ?rows" using rows by simp
  then show ?thesis
    by (intro bexI [of _ r]) (auto simp: info da_blob_from_def awaits_inclusion_def da_key_def)
qed

lemma save_inclusion_result:
  assumes "on_db g (save_inclusion_data p n data) s = (Ok (), s')"
    and "list_ex (awaits_inclusion n p) (data_availability (service_tables s))"
  shows "service_tables s' = set_inclusion n p data (service_tables s)"
  using assms
  by (cases s) (auto simp: on_db_def io_zoom_def io_map_err_def save_inclusion_data_def update_inclusion_def
    round_trip_def io_bind_def split: prod.splits list.splits bool.splits if_splits)

lemma set_inclusion_row:
  assumes "r \<in> set (data_availability t)" "awaits_inclusion n p r"
  shows "r\<lparr>da_inclusion_data := Some data\<rparr> \<in> set (data_availability (set_inclusion n p data t))"
  using assms by (force simp: set_inclusion_def update_where_def)

text \<open>What a poll saves for the first blob without inclusion data.\<close>

lemma poll_result:
  assumes run: "poll_for_inclusion_l1_batch config client s = (Ok (), s')"
    and first: "first_awaiting False (service_tables s) = Some info"
  obtains x s1 s2 where "inclusion_of config client (blob_blob_id info) s1 = (Ok x, s2)" "snd s1 = snd s"
    "x = None \<or> (\<exists>data. x = Some data \<and> (\<exists>r \<in> set (data_availability (service_tables s')).
       da_key (blob_l1_batch_number info) False r \<and> da_blob_id r = blob_blob_id info
       \<and> da_inclusion_data r = Some (inc_data data)))"
proof -
  obtain y s1 where q: "on_db DispatchDbError get_first_da_blob_awaiting_inclusion s = (Ok y, s1)"
    using run by (auto simp: poll_for_inclusion_l1_batch_def io_bind_Ok_iff)
  then have s1: "service_tables s1 = service_tables s" "snd s1 = snd s" "y = Some info"
    using first
    by (auto simp: get_first_da_blob_awaiting_inclusion_def on_db_def select_rows_def round_trip_def io_zoom_def
      io_map_err_def split: prod.splits list.splits bool.splits)
  obtain x s2 where x: "inclusion_of config client (blob_blob_id info) s1 = (Ok x, s2)"
    and rest: "x = None \<or> (\<exists>data. x = Some data \<and>
       on_db DispatchDbError (save_l1_batch_inclusion_data (blob_l1_batch_number info) (inc_data data)) s2 = (Ok (), s'))"
    using run q s1(3) by (fastforce simp: poll_for_inclusion_l1_batch_def io_bind_Ok_iff split: option.splits)
  have s2: "fst s2 = fst s1"
    using x by (auto simp: inclusion_of_def on_da_def io_zoom_def split: if_splits prod.splits)
  obtain r where r: "r \<in> set (data_availability (service_tables s2))"
    "awaits_inclusion (blob_l1_batch_number info) False r" "da_blob_id r = blob_blob_id info"
    using first_awaiting_row [OF first] s1(1) s2 by auto
  have saved: "\<exists>r \<in> set (data_availability (service_tables s')).
      da_key (blob_l1_batch_number info) False r \<and> da_blob_id r = blob_blob_id info
      \<and> da_inclusion_data r = Some (inc_data data)"
    if "on_db DispatchDbError (save_l1_batch_inclusion_data (blob_l1_batch_number info) (inc_data data)) s2 = (Ok (), s')"
    for data
  proof -
    have "list_ex (awaits_inclusion (blob_l1_batch_number info) False) (data_availability (service_tables s2))"
      using r(1,2) by (auto simp: list_ex_iff)
    from save_inclusion_result [OF that [unfolded save_l1_batch_inclusion_data_def] this]
      set_inclusion_row [OF r(1,2), of "inc_data data"] show ?thesis
      using r(2,3) by (intro bexI) (auto simp: awaits_inclusion_def da_key_def)
  qed
  show thesis using that [OF x s1(2)] rest saved by blast
qed

text \<open>With a client that keeps its promise, the published data is saved when dummy data is asked for,
  and no data otherwise.\<close>

context da_layer
begin

lemma poll_saves:
  assumes "poll_for_inclusion_l1_batch config client s = (Ok (), s')"
    and "first_awaiting False (service_tables s) = Some info"
    and "kept (blob_blob_id info) data (snd s)"
  shows "\<exists>r \<in> set (data_availability (service_tables s')).
      da_key (blob_l1_batch_number info) False r \<and> da_blob_id r = blob_blob_id info
      \<and> da_inclusion_data r = Some (if use_dummy_inclusion_data config then data else [])"
proof -
  obtain x s1 s2 where x: "inclusion_of config client (blob_blob_id info) s1 = (Ok x, s2)" "snd s1 = snd s"
    and saved: "x = None \<or> (\<exists>data. x = Some data \<and> (\<exists>r \<in> set (data_availability (service_tables s')).
       da_key (blob_l1_batch_number info) False r \<and> da_blob_id r = blob_blob_id info
       \<and> da_inclusion_data r = Some (inc_data data)))"
    by (rule poll_result [OF assms(1,2)])
  have "x = Some \<lparr>inc_data = (if use_dummy_inclusion_data config then data else [])\<rparr>"
  proof (cases "use_dummy_inclusion_data config")
    case True
    then obtain w1 where "get_inclusion_data client (blob_blob_id info) (snd s) = (Ok x, w1)"
      using x by (auto simp: inclusion_of_def on_da_def io_zoom_def io_map_err_def split: prod.splits)
    from kept_fetched [OF assms(3) this] True show ?thesis by simp
  next
    case False
    then show ?thesis using x(1) by (simp add: inclusion_of_def)
  qed
  then show ?thesis using saved by simp
qed

end

end
