(* ===== verification/Da_Properties.thy ===== *)
theory Da_Properties
  imports Da_Facts Ref_Sender
begin

text \<open>
  Properties of the data availability dispatcher and of its Celestia client.
\<close>

section \<open>A Celestia node\<close>

text \<open>The node includes every blob at the next height; a commitment is a digest of 32 bytes.\<close>

definition ref_commitment :: "celestia_blob \<Rightarrow> bytes" where
  "ref_commitment b = be_bytes 32 (be_nat (cb_data b))"

definition ref_celestia :: "celestia_blob list celestia_ops" where
  "ref_celestia =
     \<lparr>client_new = (\<lambda>url token. io_return ()), p2p_info = io_return (), namespace_new_v0 = Some,
      blob_new = (\<lambda>n d. Some \<lparr>cb_namespace = n, cb_data = d\<rparr>),
      commitment_from_blob = (\<lambda>n v d. Some (ref_commitment \<lparr>cb_namespace = n, cb_data = d\<rparr>)),
      blob_submit = (\<lambda>bs w. if length w < 1000 then (Ok (of_nat (length w)), w @ take 1 bs) else (Err (), w)),
      blob_get = (\<lambda>h n c w. if unat h < length w \<and> cb_namespace (w ! unat h) = n \<and> ref_commitment (w ! unat h) = c
        then (Ok (w ! unat h), w) else (Err (), w)),
      share_version_zero = 0, hex_to_string = hex_encode, hex_from_string = hex_decode\<rparr>"

definition ref_stored :: "celestia_blob list \<Rightarrow> (u64 \<times> bytes \<times> bytes \<times> celestia_blob) set" where
  "ref_stored w = {(h, n, c, b). unat h < length w \<and> b = w ! unat h \<and> n = cb_namespace b \<and> c = ref_commitment b}"

lemma ref_celestia_ok: "celestia_ok ref_celestia ref_stored"
proof -
  have "unat (of_nat k :: u64) = k" if "k < 1000" for k
    using that by (simp add: unat_of_nat)
  then show ?thesis
    by (auto simp: celestia_ok_def ref_celestia_def ref_stored_def ref_commitment_def split: if_splits)
qed

interpretation celestia: da_layer "celestia_client ref_celestia n limit" "celestia_kept ref_celestia ref_stored n"
  by (rule celestia_da_layer [OF ref_celestia_ok])

definition demo_da_db :: "da_row list \<Rightarrow> db" where
  "demo_da_db rows =
     \<lparr>db_tables = (demo_tables [] [] [])\<lparr>l1_batches := [\<lparr>lb_number = 1, lb_timestamp = 0, lb_hash = None,
        lb_protocol_version = None, lb_commitment = None, lb_pubdata_input = Some [1, 2]\<rparr>],
        data_availability := rows\<rparr>,
      next_request_id = 1, next_history_id = 1, db_now = 0, db_faults = []\<rparr>"

definition demo_da_config :: "bool \<Rightarrow> da_dispatcher_config" where
  "demo_da_config dummy = \<lparr>cfg_max_rows_to_dispatch = None, cfg_max_retries = None,
     cfg_use_dummy_inclusion_data = Some dummy\<rparr>"

text \<open>A client that is never available.\<close>

definition demo_failing_client :: "nat da_client" where
  "demo_failing_client = \<lparr>dispatch_blob = (\<lambda>n d w. (Err da_retriable, Suc w)),
     get_inclusion_data = (\<lambda>b w. (Err da_retriable, w)), blob_size_limit = None\<rparr>"

section \<open>Dispatch\<close>

text \<open>C16: a dispatch returns.  With fewer retries than the counter can hold, a dispatch always
  returns, however often the client fails.  It records the pubdata of a prefix of the batches that
  have pubdata and no row in the table, in the order of their numbers and at most as many as
  configured, each under an id that the client returned for the pubdata of the batch; all of them when
  it succeeds.\<close>

theorem dispatch_returns_and_records:
  assumes "unat (max_retries config) < 65535" "distinct (map lb_number (l1_batches (service_tables s)))"
    and "bs = map batch_da_of (take (unat (max_rows_to_dispatch config))
      (sort_key lb_number (filter (unpublished (service_tables s)) (l1_batches (service_tables s)))))"
  shows "\<exists>r s' k ids. dispatch config sleep client sent_at s = Some (r, s')
    \<and> k \<le> length bs \<and> (r = Ok () \<longrightarrow> k = length bs)
    \<and> list_all2 (published client) (take k bs) ids
    \<and> service_tables s' = add_da_rows (recorded sent_at (take k bs) ids) (service_tables s)"
proof -
  have bs: "bs = map batch_da_of (dispatch_batches config (service_tables s))"
    by (simp add: assms(3) dispatch_batches_def)
  obtain r s1 where q: "on_db DispatchDbError
      (get_ready_for_da_dispatch_l1_batches (ucast (max_rows_to_dispatch config))) s = (r, s1)"
    using prod.exhaust by blast
  note res = get_ready_result [OF q]
  show ?thesis
  proof (cases "\<exists>e. r = Err e")
    case True
    then obtain e where "r = Err e" by blast
    then show ?thesis
      using q res(1)
      by (intro exI [of _ "Err e"] exI [of _ s1] exI [of _ 0] exI [of _ "[]"])
        (auto simp: dispatch_def lp_bind_def lp_io_def recorded_def)
  next
    case False
    then have "r = Ok bs" using res(3) bs by simp
    then have "dispatch config sleep client sent_at s = lp_for bs (dispatch_batch config sleep client sent_at) s1"
      using q by (simp add: dispatch_def lp_bind_def lp_io_def)
    then show ?thesis
      using dispatch_loop_result [OF assms(1), of s1 bs sleep client sent_at]
        dispatch_batches_dispatchable [OF assms(2), of config] res(1) bs by simp
  qed
qed

theorem dispatch_returns_and_records_witness:
  "\<exists>r s' k ids. dispatch (demo_da_config False) (\<lambda>t w. w) demo_failing_client (\<lambda>n. 0) (demo_da_db [], 0)
       = Some (r, s') \<and> k \<le> 1
   \<and> service_tables s' = add_da_rows (recorded (\<lambda>n. 0) (take k [\<lparr>bda_pubdata = [1, 2], bda_l1_batch_number = 1\<rparr>]) ids)
       (db_tables (demo_da_db []))"
proof -
  let ?s = "(demo_da_db [], 0 :: nat)" and ?config = "demo_da_config False"
  have limit: "unat (max_retries ?config) < 65535" by (simp add: max_retries_def demo_da_config_def)
  have keys: "distinct (map lb_number (l1_batches (service_tables ?s)))" by (simp add: demo_da_db_def)
  have bs: "[\<lparr>bda_pubdata = [1, 2], bda_l1_batch_number = 1\<rparr>] = map batch_da_of
      (take (unat (max_rows_to_dispatch ?config)) (sort_key lb_number
        (filter (unpublished (service_tables ?s)) (l1_batches (service_tables ?s)))))"
    by (simp add: demo_da_db_def max_rows_to_dispatch_def demo_da_config_def unpublished_def batch_da_of_def)
  from dispatch_returns_and_records [OF limit keys bs] show ?thesis by fastforce
qed

section \<open>Inclusion\<close>

text \<open>C17: what is saved as the inclusion data of a blob.  The blob that Celestia returns for the id of
  a published batch is the pubdata of the batch; it is saved when the configuration asks for dummy
  inclusion data, and empty data is saved when it asks for real data.\<close>

theorem inclusion_of_published_batch:
  assumes "celestia_ok C stored" "celestia_dispatch_blob C n k pubdata w = (Ok resp, w1)"
    and "stored w1 \<subseteq> stored (snd s)"
    and "first_awaiting False (service_tables s) = Some info" "blob_blob_id info = dr_blob_id resp"
    and "poll_for_inclusion_l1_batch config (celestia_client C n limit) s = (Ok (), s')"
  shows "\<exists>r \<in> set (data_availability (service_tables s')).
      da_key (blob_l1_batch_number info) False r \<and> da_blob_id r = dr_blob_id resp
      \<and> da_inclusion_data r = Some (if use_dummy_inclusion_data config then pubdata else [])"
proof -
  have "celestia_kept C stored n (blob_blob_id info) pubdata (snd s)"
    using celestia_publishes [OF assms(1,2)] assms(3,5) by (auto simp: celestia_kept_def)
  from da_layer.poll_saves [OF celestia_da_layer [OF assms(1)] assms(6,4) this] show ?thesis
    by (simp add: assms(5))
qed

theorem inclusion_of_published_batch_witness:
  "\<exists>s'. poll_for_inclusion_l1_batch (demo_da_config True) (celestia_client ref_celestia [7] 100)
       (demo_da_db [da_row_of (\<lambda>n. 0) 1 (hex_encode (be_bytes 8 0 @ ref_commitment \<lparr>cb_namespace = [7], cb_data = [1, 2]\<rparr>))],
        [\<lparr>cb_namespace = [7], cb_data = [1, 2]\<rparr>]) = (Ok (), s')
   \<and> (\<exists>r \<in> set (data_availability (service_tables s')). da_inclusion_data r = Some [1, 2])"
proof -
  let ?blob = "\<lparr>cb_namespace = [7], cb_data = [1, 2]\<rparr>" and ?config = "demo_da_config True"
  let ?id = "hex_encode (be_bytes 8 0 @ ref_commitment ?blob)"
  let ?s = "(demo_da_db [da_row_of (\<lambda>n. 0) 1 ?id], [?blob])"
  let ?info = "\<lparr>blob_l1_batch_number = 1, blob_blob_id = ?id, blob_inclusion_data = None, blob_sent_at = 0\<rparr>"
  have dispatch: "celestia_dispatch_blob ref_celestia [7] 1 [1, 2] [] = (Ok \<lparr>dr_blob_id = ?id\<rparr>, [?blob])"
    by (simp add: celestia_dispatch_blob_def ref_celestia_def io_bind_def io_map_err_def u64_to_be_bytes_def)
  have first: "first_awaiting False (service_tables ?s) = Some ?info"
    by (simp add: first_awaiting_def first_row_def da_blob_from_def demo_da_db_def da_row_of_def)
  have zero: "be_nat (be_bytes 8 0) = 0" by (simp add: be_nat_be_bytes)
  obtain s' where run: "poll_for_inclusion_l1_batch ?config (celestia_client ref_celestia [7] 100) ?s = (Ok (), s')"
  proof -
    have q: "on_db DispatchDbError get_first_da_blob_awaiting_inclusion ?s = (Ok (Some ?info), ?s)"
      using first
      by (simp add: on_db_def get_first_da_blob_awaiting_inclusion_def select_rows_def round_trip_def io_zoom_def
        io_map_err_def demo_da_db_def)
    have inc: "inclusion_of ?config (celestia_client ref_celestia [7] 100) ?id ?s = (Ok (Some \<lparr>inc_data = [1, 2]\<rparr>), ?s)"
      by (simp add: inclusion_of_def use_dummy_inclusion_data_def demo_da_config_def on_da_def io_zoom_def io_map_err_def
        celestia_client_def celestia_get_inclusion_data_def ref_celestia_def io_bind_def zero ref_commitment_def)
    have "\<exists>s'. on_db DispatchDbError (save_l1_batch_inclusion_data 1 [1, 2]) ?s = (Ok (), s')"
      by (simp add: on_db_def io_zoom_def io_map_err_def save_l1_batch_inclusion_data_def save_inclusion_data_def
        update_inclusion_def round_trip_def io_bind_def demo_da_db_def da_row_of_def awaits_inclusion_def da_key_def)
    then show thesis using that q inc by (auto simp: poll_for_inclusion_l1_batch_def io_bind_run)
  qed
  show ?thesis
    using inclusion_of_published_batch [OF ref_celestia_ok dispatch _ first _ run] run
    by (fastforce simp: use_dummy_inclusion_data_def demo_da_config_def)
qed

end
