(* ===== verification/Spec2Isabelle.thy ===== *)
theory Spec2Isabelle
  imports Btc_Properties Sender_Properties Merkle_Properties Mempool_Properties Fee_Properties Watch_Properties Da_Properties
begin

text \<open>
  A verification development for the Via sequencer (\<^verbatim>\<open>core/\<close>): the services that inscribe
  batches on Bitcoin and read deposits from it, and the parts of the node they rest on.  File names
  are relative to \<^verbatim>\<open>src/core\<close>.

  \<^bold>\<open>The program.\<close>  The sequencer keeps its state in a Postgres database.  The Bitcoin sender
  (\<^verbatim>\<open>node/via_btc_sender\<close>) has two services over it: the aggregator picks batches that are
  ready and records a request to inscribe their commitment or their proof; the manager sends recorded
  requests through the inscriber (\<^verbatim>\<open>lib/via_btc_client/src/inscriber\<close>), watches their confirmation
  and sends them again when it takes too long.  The indexer (\<^verbatim>\<open>lib/via_btc_client/src/indexer\<close>)
  reads the inscriptions back from blocks.  The watcher (\<^verbatim>\<open>node/via_btc_watch\<close>) lets the indexer
  read confirmed blocks and records a priority operation for every deposit to the bridge in the table
  of transactions, from which the mempool is fed.  The data availability dispatcher
  (\<^verbatim>\<open>node/via_da_dispatcher\<close>) publishes the pubdata of batches through a client
  (\<^verbatim>\<open>lib/da_client\<close>, \<^verbatim>\<open>lib/via_da_clients\<close>) and saves the inclusion data.  The state keeper takes its transactions from a mempool
  (\<^verbatim>\<open>lib/mempool\<close>) that orders L2 transactions by time and account nonce and L1 transactions by
  their priority id, prices its batches by the fee model (\<^verbatim>\<open>node/via_fee_model\<close>,
  \<^verbatim>\<open>lib/multivm/src/utils\<close>), and commits to L2 to L1 messages with an in-memory Merkle tree
  (\<^verbatim>\<open>lib/mini_merkle_tree\<close>).

  \<^bold>\<open>Conventions.\<close>  \<^verbatim>\<open>Via_Prelude\<close> has the result type (a value, an error, or a panic), the
  computations over an explicit state that fallible and asynchronous code becomes, loops over them,
  invariants (\<open>io_pres\<close>) and postconditions (\<open>io_spec\<close>) with one rule per construct, and big-endian
  encodings.  \<^verbatim>\<open>Alist_Prelude\<close> adds association lists for hash maps.  Machine integers are
  words of their width: \<open>+\<close> and \<open>*\<close> wrap, as in a release build, and checked or saturating operations
  are written out.  What comes from other crates is a parameter: the Bitcoin library is the record
  \<open>btc_lib\<close>, the RPC node \<open>btc_ops\<close> over a world of any type, serialisation and text of transaction ids
  \<open>sender_lib\<close>, the ABI encoding, hexadecimal text and the JSON forms of addresses and numbers \<open>tx_lib\<close>,
  the Celestia crates \<open>celestia_ops\<close>, the decimals of the base token ratio \<open>decimal_scale\<close>, the Keccak permutation a function.
  Their documented behaviour is stated by predicates (\<open>lib_address_text\<close>, \<open>sender_lib_ok\<close>,
  \<open>tx_lib_ok\<close>, \<open>celestia_ok\<close>, \<open>scale_exact\<close> and the like), which appear as hypotheses and hold of the
  concrete libraries in \<^verbatim>\<open>Ref_Lib\<close>, \<^verbatim>\<open>Ref_Hex\<close>, \<^verbatim>\<open>Ref_Node\<close>, \<^verbatim>\<open>Ref_Sender\<close>, \<^verbatim>\<open>Ref_Watch\<close>
  and \<^verbatim>\<open>Da_Properties\<close> that the witnesses use.

  \<^bold>\<open>The Bitcoin client\<close> (\<^verbatim>\<open>lib/via_btc_client/src\<close>).
  \<^item> \<^verbatim>\<open>Btc_Types\<close>: \<^verbatim>\<open>types.rs\<close>, messages, queue entries, configuration and errors.
  \<^item> \<^verbatim>\<open>Script_Builder\<close>: \<^verbatim>\<open>inscriber/script_builder.rs\<close>, every inscription script.
  \<^item> \<^verbatim>\<open>Message_Parser\<close>: \<^verbatim>\<open>indexer/parser.rs\<close>, every message parser with its early returns and
    panics, over the parser's state.
  \<^item> \<^verbatim>\<open>Btc_Client\<close>: \<^verbatim>\<open>client/\<close>, the RPC calls with their retries; \<open>with_retry\<close> recurses on
    the number of retries left, so it needs no fuel.
  \<^item> \<^verbatim>\<open>Indexer\<close>: \<^verbatim>\<open>indexer/mod.rs\<close>, bootstrap and block processing; \<^verbatim>\<open>Bootstrap_Votes\<close>,
    bootstraps as runs over their messages, with the votes for a proposal counted independently.
  \<^item> \<^verbatim>\<open>Inscriber_Fee\<close>, \<^verbatim>\<open>Signer\<close>, \<^verbatim>\<open>Inscriber\<close>: \<^verbatim>\<open>inscriber/\<close> and \<^verbatim>\<open>signer/\<close>, the
    queue of pending inscriptions, choice of inputs, both transactions, signatures and broadcast.
  \<^item> \<^verbatim>\<open>Btc_Properties\<close>: what is inscribed is what is indexed, values are conserved, the queue and
    the inputs of a commit transaction, agreement at bootstrap, and four behaviours that lose or
    misdirect something: a request dropped on an error, an output spent twice, a bridge address that
    anyone can replace, and a sequencer elected by the votes for another.

  \<^bold>\<open>The database and the Bitcoin sender.\<close>
  \<^item> \<^verbatim>\<open>Via_Db\<close>: tables, constraints of the migrations, transactions that roll back, and a schedule
    of failing round trips, so that every query can fail at every point.
  \<^item> \<^verbatim>\<open>Sender_Dal\<close>: \<^verbatim>\<open>lib/dal/src/btc_sender_dal.rs\<close> and \<^verbatim>\<open>via_blocks_dal.rs\<close>.
  \<^item> \<^verbatim>\<open>Btc_Sender\<close>: both services with the publication criteria.
  \<^item> \<^verbatim>\<open>Sender_Lifecycle\<close>, \<^verbatim>\<open>Sender_System\<close>, \<^verbatim>\<open>Sender_Facts\<close>: the abstract life cycle of a
    batch, the interleaving of both services with the rest of the node, and the lemmas per operation.
  \<^item> \<^verbatim>\<open>Sender_Properties\<close>: the services refine the life cycle in every interleaving, requests are
    recorded once, an aggregator iteration is all or nothing, bounds and choices of both services.

  \<^bold>\<open>Deposits\<close> (\<^verbatim>\<open>node/via_btc_watch/src\<close>, \<^verbatim>\<open>lib/dal/src\<close>, \<^verbatim>\<open>lib/types/src\<close>).
  \<^item> \<^verbatim>\<open>Json_Value\<close>, \<^verbatim>\<open>Tx_Types\<close>: transactions, the canonical form and hash of a priority
    operation (\<^verbatim>\<open>abi.rs\<close>), and the JSON form of an execution (\<^verbatim>\<open>tx/execute.rs\<close>,
    \<^verbatim>\<open>lib/utils/src/serde_wrappers.rs\<close>).
  \<^item> \<^verbatim>\<open>Transactions_Dal\<close>: the queries of \<^verbatim>\<open>via_transactions_dal.rs\<close>, those of
    \<^verbatim>\<open>transactions_dal.rs\<close> that feed the mempool, and the reading of rows.
  \<^item> \<^verbatim>\<open>Btc_Watch\<close>: the watcher and its processor of deposits.
  \<^item> \<^verbatim>\<open>Watch_Facts\<close>, \<^verbatim>\<open>Watch_Runs\<close>, \<^verbatim>\<open>Watch_Deposits\<close>: the operations on every outcome,
    runs with failures and restarts, and deposits from the block to the mempool.
  \<^item> \<^verbatim>\<open>Watch_Properties\<close>: an iteration records exactly the new deposits, priority ids are unique in
    every run, rows read back, and three behaviours that lose or multiply deposits.

  \<^bold>\<open>Data availability.\<close>
  \<^item> \<^verbatim>\<open>Da_Dal\<close>: \<^verbatim>\<open>lib/dal/src/via_data_availability_dal.rs\<close>.
  \<^item> \<^verbatim>\<open>Da_Client\<close>: the interface of clients, with its contract as the locale \<open>da_layer\<close>, and the
    Celestia client, which satisfies it.
  \<^item> \<^verbatim>\<open>Da_Dispatcher\<close>: dispatch with retries and the polls for inclusion data.
  \<^item> \<^verbatim>\<open>Da_Facts\<close>, \<^verbatim>\<open>Da_Properties\<close>: a dispatch returns and records what was published, and what
    is saved as inclusion data.

  \<^bold>\<open>Merkle tree, mempool, fees.\<close>
  \<^item> \<^verbatim>\<open>Mini_Merkle\<close>, \<^verbatim>\<open>Merkle_Properties\<close>: every operation of the incremental tree; after any
    pushes and trims its root is that of the plain tree over all leaves, its paths fold to the root.
  \<^item> \<^verbatim>\<open>Mempool\<close>, \<^verbatim>\<open>Mempool_Facts\<close>, \<^verbatim>\<open>Mempool_Properties\<close>: every operation of the store;
    its invariant in all reachable states, the choice of the next transaction, roll-backs.
  \<^item> \<^verbatim>\<open>Fee_Model\<close>, \<^verbatim>\<open>Vm_Fees\<close>, \<^verbatim>\<open>Fee_Properties\<close>: fee inputs, the Via providers, and what
    the VM versions derive from an input.

  \<^bold>\<open>Bounds.\<close>  No definition uses fuel: loops run over finite lists or count down a number the source
  gives.  The retries of the dispatcher may go on for ever, so \<open>retry_loop\<close> is a partial function whose
  value is \<open>None\<close> when it does; that it returns for every limit below 65535 is proved.  Sizes of
  collections in memory are natural numbers.  The endless service loops are modelled by their iterations, and statements about a run of
  a service quantify over all sequences of iterations.

  \<^bold>\<open>Not modelled.\<close>  The virtual machines, the prover, the API servers and the contracts: they are
  third-party crates or large subsystems with their own semantics.  The inherited Ethereum
  components (\<^verbatim>\<open>eth_watch\<close>, \<^verbatim>\<open>eth_sender\<close>, consensus, external node) that the Via services do
  not call.  Logging, metrics, timers and configuration loading, which have no effect on the data.
  The dispatch of proofs, which are loaded from an object store.  The bincode format of messages, and
  Postgres itself beyond what the queries use.
\<close>

end
